(* ===== verification/Prelude.thy ===== *)
theory Prelude
  imports Main "HOL-Library.Word"
begin

text \<open>
  Shared base of the development: the machine types of the code (\<open>uint8_t\<close>,
  \<open>uint16_t\<close>, \<open>uint32_t\<close>, \<open>SOCKET\<close>, \<open>std::chrono::milliseconds\<close>), the result type of
  every operation that can go wrong, memory as byte lists with bounds-checked
  \<open>memcpy\<close>, and little-endian storage of \<open>uint16_t\<close> and \<open>uint32_t\<close> values.

  An operation returns \<open>Inr\<close> of its result or \<open>Inl\<close> of a fault. A fault is not a
  value of the program: it is the place where the C++ leaves defined behaviour (an
  access outside a buffer, a dangling client pointer), where an \<open>assert\<close> fires, where
  an exception leaves the library, or where the model's fuel ends before a loop does.
  \<open>ok_r m P\<close> says that an operation returns, without a fault, a value with \<open>P\<close>; it is
  the total-correctness judgement all later theories use.
\<close>

unbundle bit_operations_syntax

named_theorems codec_simps \<open>equations of the message codec on buffers that are large enough\<close>

section \<open>Machine types\<close>

type_synonym byte = "8 word"
type_synonym u16 = "16 word"
type_synonym u32 = "32 word"
type_synonym SOCKET = "64 word"

text \<open>
  \<open>std::chrono::milliseconds\<close> counts in a signed 64-bit integer; every value the code
  forms is a clock reading, a \<open>uint32_t\<close> timeout or a difference of two of them, far from
  overflow, so durations and clock readings are integers.
\<close>

type_synonym milliseconds = int

section \<open>Results and faults\<close>

datatype fault =
    BufferOverrun        \<comment> \<open>a read or write outside the memory a pointer refers to\<close>
  | DanglingPointer      \<comment> \<open>a client pointer that refers to no client object\<close>
  | AssertionFailed      \<comment> \<open>an \<open>assert\<close> of the source fires\<close>
  | RuntimeError         \<comment> \<open>\<open>std::runtime_error\<close> leaves the library\<close>
  | OutOfFuel            \<comment> \<open>the model's bound on a loop was reached first\<close>

type_synonym 'a res = "fault + 'a"

definition bind_r :: "'a res \<Rightarrow> ('a \<Rightarrow> 'b res) \<Rightarrow> 'b res" where
  "bind_r m f = (case m of Inl e \<Rightarrow> Inl e | Inr x \<Rightarrow> f x)"

definition assert_r :: "bool \<Rightarrow> 'b res \<Rightarrow> 'b res" where
  "assert_r c m = (if c then m else Inl AssertionFailed)"

definition ok_r :: "'a res \<Rightarrow> ('a \<Rightarrow> bool) \<Rightarrow> bool" where
  "ok_r m P = (case m of Inl e \<Rightarrow> False | Inr x \<Rightarrow> P x)"

lemma bind_r_simps [simp]:
  "bind_r (Inl e) f = Inl e" "bind_r (Inr x) f = f x"
  by (simp_all add: bind_r_def)

lemma assert_r_True [simp]: "assert_r True m = m"
  by (simp add: assert_r_def)

lemma ok_r_simps [simp]:
  "ok_r (Inl e) P = False" "ok_r (Inr x) P = P x"
  by (simp_all add: ok_r_def)

lemma ok_r_bind [simp]: "ok_r (bind_r m f) P = ok_r m (\<lambda>x. ok_r (f x) P)"
  by (cases m) simp_all

lemma ok_r_assert [simp]: "ok_r (assert_r c m) P = (c \<and> ok_r m P)"
  by (simp add: assert_r_def)

lemma ok_r_mono: "ok_r m Q \<Longrightarrow> (\<And>x. Q x \<Longrightarrow> P x) \<Longrightarrow> ok_r m P"
  by (cases m) simp_all

lemma ok_r_bindI: "ok_r m Q \<Longrightarrow> (\<And>x. Q x \<Longrightarrow> ok_r (f x) P) \<Longrightarrow> ok_r (bind_r m f) P"
  by (cases m) simp_all

lemma ok_r_conjI: "ok_r m P \<Longrightarrow> ok_r m Q \<Longrightarrow> ok_r m (\<lambda>x. P x \<and> Q x)"
  by (cases m) simp_all

lemma ok_r_iff: "ok_r m P \<longleftrightarrow> (\<exists>x. m = Inr x \<and> P x)"
  by (cases m) simp_all

lemma ok_r_Inr: "ok_r m P \<Longrightarrow> m = Inr x \<Longrightarrow> P x"
  by simp

lemma bind_r_Inr_iff: "bind_r m f = Inr y \<longleftrightarrow> (\<exists>x. m = Inr x \<and> f x = Inr y)"
  by (cases m) simp_all

lemma bind_r_mono:
  "bind_r m f = Inr y \<Longrightarrow> (\<And>x. m = Inr x \<Longrightarrow> f x = Inr y \<Longrightarrow> g x = Inr y) \<Longrightarrow> bind_r m g = Inr y"
  by (cases m) simp_all

section \<open>Memory\<close>

text \<open>
  A pointer with the memory behind it is the list of bytes from that address to the
  end of its allocation. \<open>memcpy\<close> of \<open>n\<close> bytes from offset \<open>so\<close> of one to offset
  \<open>d\<close> of the other is defined only when both ranges lie inside.
\<close>

definition write_at :: "nat \<Rightarrow> 'a list \<Rightarrow> 'a list \<Rightarrow> 'a list" where
  "write_at d xs buf = take d buf @ xs @ drop (d + length xs) buf"

definition read_at :: "nat \<Rightarrow> nat \<Rightarrow> 'a list \<Rightarrow> 'a list" where
  "read_at d n buf = take n (drop d buf)"

definition memcpy :: "byte list \<Rightarrow> nat \<Rightarrow> byte list \<Rightarrow> nat \<Rightarrow> nat \<Rightarrow> byte list res" where
  "memcpy dst d src so n =
     (if d + n \<le> length dst \<and> so + n \<le> length src
      then Inr (write_at d (read_at so n src) dst) else Inl BufferOverrun)"

lemma length_write_at [simp]:
  "d + length xs \<le> length buf \<Longrightarrow> length (write_at d xs buf) = length buf"
  by (simp add: write_at_def)

lemma length_read_at [simp]: "d + n \<le> length buf \<Longrightarrow> length (read_at d n buf) = n"
  by (simp add: read_at_def)

lemma read_at_whole [simp]: "n = length xs \<Longrightarrow> read_at 0 n xs = xs"
  by (simp add: read_at_def)

lemma read_at_write_same [simp]:
  "n = length xs \<Longrightarrow> d + n \<le> length buf \<Longrightarrow> read_at d n (write_at d xs buf) = xs"
  by (simp add: read_at_def write_at_def)

lemma read_at_write_before:
  "e + n \<le> d \<Longrightarrow> d + length xs \<le> length buf \<Longrightarrow> read_at e n (write_at d xs buf) = read_at e n buf"
  by (cases "n = 0") (auto simp: read_at_def write_at_def drop_take min_def)

lemma read_at_write_after:
  "d + length xs \<le> e \<Longrightarrow> d + length xs \<le> length buf \<Longrightarrow>
   read_at e n (write_at d xs buf) = read_at e n buf"
  by (simp add: read_at_def write_at_def min_def)

lemma drop_write_at:
  "d + length xs \<le> e \<Longrightarrow> d + length xs \<le> length buf \<Longrightarrow> drop e (write_at d xs buf) = drop e buf"
  by (simp add: write_at_def min_def)

lemma write_at_write_same:
  "length xs = length ys \<Longrightarrow> d + length xs \<le> length buf \<Longrightarrow>
   write_at d xs (write_at d ys buf) = write_at d xs buf"
  by (simp add: write_at_def)

lemma read_at_append: "read_at d (m + n) buf = read_at d m buf @ read_at (d + m) n buf"
  by (simp add: read_at_def take_add add.commute)

lemma take_eq_read_at: "take n buf = read_at 0 n buf"
  by (simp add: read_at_def)

section \<open>Little-endian storage\<close>

text \<open>The platform of the code (Windows on x86, x64 or ARM) stores integers little-endian.\<close>

definition u16_bytes :: "u16 \<Rightarrow> byte list" where
  "u16_bytes w = [ucast w, ucast (drop_bit 8 w)]"

definition u16_of_bytes :: "byte \<Rightarrow> byte \<Rightarrow> u16" where
  "u16_of_bytes b0 b1 = ucast b0 OR push_bit 8 (ucast b1)"

definition u32_bytes :: "u32 \<Rightarrow> byte list" where
  "u32_bytes w = [ucast w, ucast (drop_bit 8 w), ucast (drop_bit 16 w), ucast (drop_bit 24 w)]"

fun u32_of_bytes :: "byte list \<Rightarrow> u32" where
  "u32_of_bytes [] = 0"
| "u32_of_bytes (b # bs) = ucast b OR push_bit 8 (u32_of_bytes bs)"

lemma length_u16_bytes [simp]: "length (u16_bytes w) = 2"
  by (simp add: u16_bytes_def)

lemma length_u32_bytes [simp]: "length (u32_bytes w) = 4"
  by (simp add: u32_bytes_def)

lemma byte_bit_high: "8 \<le> n \<Longrightarrow> \<not> bit (b :: byte) n"
  using bit_imp_le_length [of b n] by auto

lemma u16_bytes_roundtrip [simp]: "u16_of_bytes (ucast w) (ucast (drop_bit 8 w)) = w"
  unfolding u16_of_bytes_def by (rule bit_word_eqI) (auto simp: bit_simps)

lemma u16_of_bytes_inverse [simp]: "u16_bytes (u16_of_bytes a b) = [a, b]"
  unfolding u16_bytes_def u16_of_bytes_def
  by (simp, intro conjI bit_word_eqI; auto simp: bit_simps byte_bit_high)

lemma u32_bytes_roundtrip [simp]: "u32_of_bytes (u32_bytes w) = w"
proof (rule bit_word_eqI)
  fix n assume n: "n < LENGTH(32)"
  consider "n < 8" | "8 \<le> n" "n < 16" | "16 \<le> n" "n < 24" | "24 \<le> n" by linarith
  then show "bit (u32_of_bytes (u32_bytes w)) n = bit w n"
    using n by cases (auto simp: u32_bytes_def bit_simps)
qed

lemma u32_of_bytes_inverse [simp]: "u32_bytes (u32_of_bytes [b0, b1, b2, b3]) = [b0, b1, b2, b3]"
  by (simp add: u32_bytes_def, intro conjI bit_word_eqI; auto simp: bit_simps byte_bit_high)

section \<open>\<open>static_cast<int>\<close> of a \<open>uint32_t\<close>\<close>

lemma sint_mod32: "sint (w :: u32) = (uint w + 2147483648) mod 4294967296 - 2147483648"
  using int_word_sint [of "uint w", where ?'a = 32] by simp

lemma unat_bound32: "unat (w :: u32) < 4294967296"
  using unsigned_less [of w] by simp

lemma sint_cases32:
  "unat (w :: u32) < 2147483648 \<Longrightarrow> sint w = int (unat w)"
  "2147483648 \<le> unat w \<Longrightarrow> sint w = int (unat w) - 4294967296"
proof -
  have u: "uint w = int (unat w)" by (rule uint_nat)
  have b: "int (unat w) < 4294967296" using unat_bound32 [of w] by linarith
  show "sint w = int (unat w)" if "unat w < 2147483648"
  proof -
    have "(int (unat w) + 2147483648) mod 4294967296 = int (unat w) + 2147483648"
      using that by (intro mod_pos_pos_trivial) linarith+
    then show ?thesis unfolding sint_mod32 u by linarith
  qed
  show "sint w = int (unat w) - 4294967296" if "2147483648 \<le> unat w"
  proof -
    have "int (unat w) + 2147483648 = (int (unat w) - 2147483648) + 4294967296" by simp
    then have "(int (unat w) + 2147483648) mod 4294967296
        = ((int (unat w) - 2147483648) + 4294967296) mod 4294967296" by (rule arg_cong)
    also have "\<dots> = (int (unat w) - 2147483648) mod 4294967296" by (rule mod_add_self2)
    also have "\<dots> = int (unat w) - 2147483648"
      using that b by (intro mod_pos_pos_trivial) linarith+
    finally show ?thesis unfolding sint_mod32 u by linarith
  qed
qed

lemma sint_nonneg_iff32: "0 \<le> sint (w :: u32) \<longleftrightarrow> unat w < 2147483648"
proof (cases "unat w < 2147483648")
  case False
  then have "sint w = int (unat w) - 4294967296" by (intro sint_cases32) simp
  then show ?thesis using False unat_bound32 [of w] by linarith
qed (simp add: sint_cases32)

lemma unat_word_of_int32: "n < 4294967296 \<Longrightarrow> unat (word_of_int (int n) :: u32) = n"
  by (simp add: unat_of_nat take_bit_nat_eq_self)

end
