(* ===== verification/Message.thy ===== *)
theory Message
  imports Prelude
begin

text \<open>
  The wire format, \<open>include/UdcMessage.h\<close> and \<open>src/UdcMessage.cpp\<close>: message ids, the
  sizes of the message kinds, and the functions of the namespaces \<open>serial::msgHeader\<close>,
  \<open>msgConnection\<close>, \<open>msgPingPong\<close>, \<open>msgUnreliable\<close> and \<open>msgReliable\<close> that read and write
  one field of a message in the server's buffer. The locale \<open>field_codec\<close> is the
  contract every such pair of functions has; \<open>field_pair\<close> adds that two fields do not
  overlap. Both are interpreted on the source's functions at the end.
\<close>

section \<open>Signatures and message ids\<close>

datatype UdcSignature = UdcSignature byte byte byte byte

fun signature_bytes :: "UdcSignature \<Rightarrow> byte list" where
  "signature_bytes (UdcSignature a b c d) = [a, b, c, d]"

fun signature_of_bytes :: "byte list \<Rightarrow> UdcSignature" where
  "signature_of_bytes [a, b, c, d] = UdcSignature a b c d"
| "signature_of_bytes _ = UdcSignature 0 0 0 0"

datatype UdcMessageId =
    UDC_MSG_CONNECTION_REQUEST
  | UDC_MSG_CONNECTION_HANDSHAKE
  | UDC_MSG_PING
  | UDC_MSG_PONG
  | UDC_MSG_UNRELIABLE
  | UDC_MSG_RELIABLE_RESET
  | UDC_MSG_RELIABLE_0
  | UDC_MSG_RELIABLE_1
  | UDC_MSG_RELIABLE_HANDSHAKE_RESET
  | UDC_MSG_RELIABLE_HANDSHAKE_0
  | UDC_MSG_RELIABLE_HANDSHAKE_1

text \<open>
  The enumeration's underlying type is \<open>uint8_t\<close>. A byte copied into it from the network
  may name no enumerator; \<open>UdcMessageId_of_code\<close> is then \<open>None\<close>, the \<open>default\<close> of the
  switch over message ids.
\<close>

primrec UdcMessageId_code :: "UdcMessageId \<Rightarrow> byte" where
  "UdcMessageId_code UDC_MSG_CONNECTION_REQUEST = 0"
| "UdcMessageId_code UDC_MSG_CONNECTION_HANDSHAKE = 1"
| "UdcMessageId_code UDC_MSG_PING = 2"
| "UdcMessageId_code UDC_MSG_PONG = 3"
| "UdcMessageId_code UDC_MSG_UNRELIABLE = 4"
| "UdcMessageId_code UDC_MSG_RELIABLE_RESET = 5"
| "UdcMessageId_code UDC_MSG_RELIABLE_0 = 6"
| "UdcMessageId_code UDC_MSG_RELIABLE_1 = 7"
| "UdcMessageId_code UDC_MSG_RELIABLE_HANDSHAKE_RESET = 8"
| "UdcMessageId_code UDC_MSG_RELIABLE_HANDSHAKE_0 = 9"
| "UdcMessageId_code UDC_MSG_RELIABLE_HANDSHAKE_1 = 10"

definition UdcMessageIds :: "UdcMessageId list" where
  "UdcMessageIds =
     [UDC_MSG_CONNECTION_REQUEST, UDC_MSG_CONNECTION_HANDSHAKE, UDC_MSG_PING, UDC_MSG_PONG,
      UDC_MSG_UNRELIABLE, UDC_MSG_RELIABLE_RESET, UDC_MSG_RELIABLE_0, UDC_MSG_RELIABLE_1,
      UDC_MSG_RELIABLE_HANDSHAKE_RESET, UDC_MSG_RELIABLE_HANDSHAKE_0,
      UDC_MSG_RELIABLE_HANDSHAKE_1]"

definition UdcMessageId_of_code :: "byte \<Rightarrow> UdcMessageId option" where
  "UdcMessageId_of_code b = List.find (\<lambda>m. UdcMessageId_code m = b) UdcMessageIds"

lemma UdcMessageId_of_code_code [simp]: "UdcMessageId_of_code (UdcMessageId_code m) = Some m"
  by (cases m) (simp_all add: UdcMessageId_of_code_def UdcMessageIds_def)

lemma UdcMessageId_code_inject [simp]: "UdcMessageId_code a = UdcMessageId_code b \<longleftrightarrow> a = b"
  by (metis UdcMessageId_of_code_code option.inject)

lemma UdcMessageId_of_code_Some: "UdcMessageId_of_code c = Some i \<longleftrightarrow> c = UdcMessageId_code i"
proof
  assume "UdcMessageId_of_code c = Some i"
  then show "c = UdcMessageId_code i"
    by (auto simp: UdcMessageId_of_code_def find_Some_iff)
qed simp

lemma UdcMessageId_of_code_total:
  assumes "unat b < 11"
  shows "\<exists>m. UdcMessageId_of_code b = Some m"
proof -
  have "unat b \<in> set [0..<11]" using assms by simp
  moreover have "list_all (\<lambda>k. UdcMessageId_of_code (of_nat k) \<noteq> None) [0..<11]"
    by (simp add: upt_rec UdcMessageId_of_code_def UdcMessageIds_def)
  ultimately have "UdcMessageId_of_code (of_nat (unat b)) \<noteq> None"
    unfolding list_all_iff by blast
  then show ?thesis by simp
qed

lemma UdcMessageId_of_code_None: "11 \<le> unat b \<Longrightarrow> UdcMessageId_of_code b = None"
  by (auto simp: UdcMessageId_of_code_def UdcMessageIds_def)

lemma length_signature_bytes [simp]: "length (signature_bytes g) = 4"
  by (cases g) simp

lemma signature_of_bytes_bytes [simp]: "signature_of_bytes (signature_bytes g) = g"
  by (cases g) simp

lemma signature_bytes_of_bytes: "length bs = 4 \<Longrightarrow> signature_bytes (signature_of_bytes bs) = bs"
  by (auto simp: length_Suc_conv numeral_eq_Suc)

section \<open>Sizes\<close>

definition sizeof_signature :: nat where "sizeof_signature = 4"
definition sizeof_UdcMessageId :: nat where "sizeof_UdcMessageId = 1"
definition sizeof_UdcEndPointId :: nat where "sizeof_UdcEndPointId = 4"
definition sizeof_uint32 :: nat where "sizeof_uint32 = 4"

definition msgHeader_SIZE :: u32 where
  "msgHeader_SIZE = of_nat (sizeof_signature + sizeof_UdcMessageId)"
definition msgConnection_SIZE :: u32 where
  "msgConnection_SIZE = msgHeader_SIZE + of_nat sizeof_UdcEndPointId"
definition msgPingPong_SIZE :: u32 where
  "msgPingPong_SIZE = msgHeader_SIZE + of_nat sizeof_uint32"
definition msgUnreliable_SIZE :: u32 where
  "msgUnreliable_SIZE = msgHeader_SIZE"
definition msgReliable_SIZE :: u32 where
  "msgReliable_SIZE = msgHeader_SIZE + of_nat sizeof_uint32"

lemma SIZE_eqs [simp]:
  "msgHeader_SIZE = 5" "msgConnection_SIZE = 9" "msgPingPong_SIZE = 9"
  "msgUnreliable_SIZE = 5" "msgReliable_SIZE = 9"
  by (simp_all add: msgHeader_SIZE_def msgConnection_SIZE_def msgPingPong_SIZE_def
      msgUnreliable_SIZE_def msgReliable_SIZE_def sizeof_signature_def sizeof_UdcMessageId_def
      sizeof_UdcEndPointId_def sizeof_uint32_def)

lemma sizeof_eqs [simp]:
  "sizeof_signature = 4" "sizeof_UdcMessageId = 1" "sizeof_UdcEndPointId = 4" "sizeof_uint32 = 4"
  by (simp_all add: sizeof_signature_def sizeof_UdcMessageId_def sizeof_UdcEndPointId_def
      sizeof_uint32_def)

section \<open>The serial functions\<close>

text \<open>\<open>namespace msgHeader\<close>\<close>

definition serializeMsgSignature :: "byte list \<Rightarrow> UdcSignature \<Rightarrow> byte list res" where
  "serializeMsgSignature msgBuffer msgSignature =
     memcpy msgBuffer 0 (signature_bytes msgSignature) 0 sizeof_signature"

definition serializeMsgId :: "byte list \<Rightarrow> UdcMessageId \<Rightarrow> byte list res" where
  "serializeMsgId msgBuffer msgId =
     memcpy msgBuffer sizeof_signature [UdcMessageId_code msgId] 0 sizeof_UdcMessageId"

definition deserializeMsgSignature :: "byte list \<Rightarrow> UdcSignature res" where
  "deserializeMsgSignature msgBuffer =
     bind_r (memcpy (replicate sizeof_signature 0) 0 msgBuffer 0 sizeof_signature)
       (\<lambda>bs. Inr (signature_of_bytes bs))"

definition deserializeMsgId :: "byte list \<Rightarrow> UdcMessageId option res" where
  "deserializeMsgId msgBuffer =
     bind_r (memcpy [0] 0 msgBuffer sizeof_signature sizeof_UdcMessageId)
       (\<lambda>bs. Inr (UdcMessageId_of_code (hd bs)))"

text \<open>\<open>namespace msgConnection\<close>\<close>

definition msgConnection_serializeEndPointId :: "byte list \<Rightarrow> u32 \<Rightarrow> byte list res" where
  "msgConnection_serializeEndPointId msgBuffer endPointId =
     memcpy msgBuffer (unat msgHeader_SIZE) (u32_bytes endPointId) 0 sizeof_UdcEndPointId"

definition msgConnection_deserializeEndPointId :: "byte list \<Rightarrow> u32 res" where
  "msgConnection_deserializeEndPointId msgBuffer =
     bind_r (memcpy (replicate sizeof_UdcEndPointId 0) 0 msgBuffer (unat msgHeader_SIZE)
         sizeof_UdcEndPointId)
       (\<lambda>bs. Inr (u32_of_bytes bs))"

text \<open>\<open>namespace msgPingPong\<close>\<close>

definition msgPingPong_serializeTimeStamp :: "byte list \<Rightarrow> u32 \<Rightarrow> byte list res" where
  "msgPingPong_serializeTimeStamp msgBuffer timeStamp =
     memcpy msgBuffer (unat msgHeader_SIZE) (u32_bytes timeStamp) 0 sizeof_uint32"

definition msgPingPong_deserializeTimeStamp :: "byte list \<Rightarrow> u32 res" where
  "msgPingPong_deserializeTimeStamp msgBuffer =
     bind_r (memcpy (replicate sizeof_uint32 0) 0 msgBuffer (unat msgHeader_SIZE) sizeof_uint32)
       (\<lambda>bs. Inr (u32_of_bytes bs))"

text \<open>\<open>namespace msgUnreliable\<close>\<close>

definition msgUnreliable_serializeData :: "byte list \<Rightarrow> byte list \<Rightarrow> u32 \<Rightarrow> byte list res" where
  "msgUnreliable_serializeData msgBuffer data dataSize =
     memcpy msgBuffer (unat msgHeader_SIZE) data 0 (unat dataSize)"

definition msgUnreliable_deserializeData :: "byte list \<Rightarrow> byte list \<Rightarrow> u32 \<Rightarrow> byte list res" where
  "msgUnreliable_deserializeData msgBuffer data dataSize =
     memcpy data 0 msgBuffer (unat msgHeader_SIZE) (unat dataSize)"

text \<open>\<open>namespace msgReliable\<close>\<close>

definition msgReliable_serializeTimeStamp :: "byte list \<Rightarrow> u32 \<Rightarrow> byte list res" where
  "msgReliable_serializeTimeStamp msgBuffer timeStamp =
     memcpy msgBuffer (unat msgHeader_SIZE) (u32_bytes timeStamp) 0 sizeof_uint32"

definition msgReliable_deserializeTimeStamp :: "byte list \<Rightarrow> u32 res" where
  "msgReliable_deserializeTimeStamp msgBuffer =
     bind_r (memcpy (replicate sizeof_uint32 0) 0 msgBuffer (unat msgHeader_SIZE) sizeof_uint32)
       (\<lambda>bs. Inr (u32_of_bytes bs))"

definition msgReliable_serializeData :: "byte list \<Rightarrow> byte list \<Rightarrow> u32 \<Rightarrow> byte list res" where
  "msgReliable_serializeData msgBuffer data dataSize =
     memcpy msgBuffer (unat msgReliable_SIZE) data 0 (unat dataSize)"

definition msgReliable_deserializeData :: "byte list \<Rightarrow> byte list \<Rightarrow> u32 \<Rightarrow> byte list res" where
  "msgReliable_deserializeData msgBuffer data dataSize =
     memcpy data 0 msgBuffer (unat msgReliable_SIZE) (unat dataSize)"

section \<open>What each function does on a buffer\<close>

lemmas serialize_defs =
  serializeMsgSignature_def serializeMsgId_def msgConnection_serializeEndPointId_def
  msgPingPong_serializeTimeStamp_def msgReliable_serializeTimeStamp_def
  msgUnreliable_serializeData_def msgReliable_serializeData_def

lemmas deserialize_defs =
  deserializeMsgSignature_def deserializeMsgId_def msgConnection_deserializeEndPointId_def
  msgPingPong_deserializeTimeStamp_def msgReliable_deserializeTimeStamp_def
  msgUnreliable_deserializeData_def msgReliable_deserializeData_def

lemma serialize_ok [codec_simps]:
  "4 \<le> length buf \<Longrightarrow> serializeMsgSignature buf g = Inr (write_at 0 (signature_bytes g) buf)"
  "5 \<le> length buf \<Longrightarrow> serializeMsgId buf m = Inr (write_at 4 [UdcMessageId_code m] buf)"
  "9 \<le> length buf \<Longrightarrow> msgConnection_serializeEndPointId buf i = Inr (write_at 5 (u32_bytes i) buf)"
  "9 \<le> length buf \<Longrightarrow> msgPingPong_serializeTimeStamp buf t = Inr (write_at 5 (u32_bytes t) buf)"
  "9 \<le> length buf \<Longrightarrow> msgReliable_serializeTimeStamp buf t = Inr (write_at 5 (u32_bytes t) buf)"
  "5 + unat n \<le> length buf \<Longrightarrow> unat n \<le> length xs \<Longrightarrow>
     msgUnreliable_serializeData buf xs n = Inr (write_at 5 (take (unat n) xs) buf)"
  "9 + unat n \<le> length buf \<Longrightarrow> unat n \<le> length xs \<Longrightarrow>
     msgReliable_serializeData buf xs n = Inr (write_at 9 (take (unat n) xs) buf)"
  by (simp_all add: serialize_defs memcpy_def read_at_def)

lemma serialize_fault:
  "length buf < 4 \<Longrightarrow> serializeMsgSignature buf g = Inl BufferOverrun"
  "length buf < 5 \<Longrightarrow> serializeMsgId buf m = Inl BufferOverrun"
  "length buf < 9 \<Longrightarrow> msgConnection_serializeEndPointId buf i = Inl BufferOverrun"
  "length buf < 9 \<Longrightarrow> msgPingPong_serializeTimeStamp buf t = Inl BufferOverrun"
  "length buf < 9 \<Longrightarrow> msgReliable_serializeTimeStamp buf t = Inl BufferOverrun"
  "length buf < 5 + unat n \<Longrightarrow> msgUnreliable_serializeData buf xs n = Inl BufferOverrun"
  "length buf < 9 + unat n \<Longrightarrow> msgReliable_serializeData buf xs n = Inl BufferOverrun"
  by (simp_all add: serialize_defs memcpy_def)

lemma write_at_all: "length xs = length buf \<Longrightarrow> write_at 0 xs buf = xs"
  by (simp add: write_at_def)

lemma read_at_one: "d < length buf \<Longrightarrow> read_at d 1 buf = [buf ! d]"
  by (simp add: read_at_def take_Suc hd_drop_conv_nth)

lemma deserialize_ok [codec_simps]:
  "4 \<le> length buf \<Longrightarrow> deserializeMsgSignature buf = Inr (signature_of_bytes (read_at 0 4 buf))"
  "5 \<le> length buf \<Longrightarrow> deserializeMsgId buf = Inr (UdcMessageId_of_code (hd (read_at 4 1 buf)))"
  "9 \<le> length buf \<Longrightarrow> msgConnection_deserializeEndPointId buf = Inr (u32_of_bytes (read_at 5 4 buf))"
  "9 \<le> length buf \<Longrightarrow> msgPingPong_deserializeTimeStamp buf = Inr (u32_of_bytes (read_at 5 4 buf))"
  "9 \<le> length buf \<Longrightarrow> msgReliable_deserializeTimeStamp buf = Inr (u32_of_bytes (read_at 5 4 buf))"
  by (simp_all add: deserialize_defs memcpy_def write_at_all)

lemma deserialize_fault:
  "length buf < 4 \<Longrightarrow> deserializeMsgSignature buf = Inl BufferOverrun"
  "length buf < 5 \<Longrightarrow> deserializeMsgId buf = Inl BufferOverrun"
  "length buf < 9 \<Longrightarrow> msgConnection_deserializeEndPointId buf = Inl BufferOverrun"
  "length buf < 9 \<Longrightarrow> msgPingPong_deserializeTimeStamp buf = Inl BufferOverrun"
  "length buf < 9 \<Longrightarrow> msgReliable_deserializeTimeStamp buf = Inl BufferOverrun"
  by (simp_all add: deserialize_defs memcpy_def)

section \<open>The contract of a field\<close>

locale field_codec =
  fixes put :: "byte list \<Rightarrow> 'v \<Rightarrow> byte list res"
    and get :: "byte list \<Rightarrow> 'u res"
    and seen :: "'v \<Rightarrow> 'u"
    and enc :: "'v \<Rightarrow> byte list"
    and dec :: "byte list \<Rightarrow> 'u"
    and off :: nat
    and width :: nat
  assumes put_fits: "off + width \<le> length buf \<Longrightarrow> put buf v = Inr (write_at off (enc v) buf)"
    and put_overrun: "length buf < off + width \<Longrightarrow> put buf v = Inl BufferOverrun"
    and get_fits: "off + width \<le> length buf \<Longrightarrow> get buf = Inr (dec (read_at off width buf))"
    and get_overrun: "length buf < off + width \<Longrightarrow> get buf = Inl BufferOverrun"
    and width_enc: "length (enc v) = width"
    and dec_enc: "dec (enc v) = seen v"
begin

lemma roundtrip: "bind_r (put buf v) get = (if off + width \<le> length buf then Inr (seen v) else Inl BufferOverrun)"
  using width_enc [of v] by (simp add: put_fits put_overrun get_fits dec_enc)

lemma put_length: "put buf v = Inr buf' \<Longrightarrow> length buf' = length buf"
  using width_enc [of v] put_overrun [of buf v] put_fits [of buf v]
  by (cases "off + width \<le> length buf") auto

lemma put_defined_iff: "(\<exists>buf'. put buf v = Inr buf') \<longleftrightarrow> off + width \<le> length buf"
  using put_fits [of buf v] put_overrun [of buf v] by (cases "off + width \<le> length buf") auto

lemma get_defined_iff: "(\<exists>v. get buf = Inr v) \<longleftrightarrow> off + width \<le> length buf"
  using get_fits [of buf] get_overrun [of buf] by (cases "off + width \<le> length buf") auto

lemma put_put: "bind_r (put buf v) (\<lambda>b. put b w) = put buf w"
  using width_enc [of v] width_enc [of w]
  by (cases "off + width \<le> length buf") (simp_all add: put_fits put_overrun write_at_write_same)

lemma put_frame:
  assumes "put buf v = Inr buf'" and "e + n \<le> off \<or> off + width \<le> e"
  shows "read_at e n buf' = read_at e n buf"
proof -
  from assms(1) have fits: "off + width \<le> length buf" using put_defined_iff by blast
  with assms(1) have "buf' = write_at off (enc v) buf" by (simp add: put_fits)
  with fits assms(2) width_enc [of v] show ?thesis
    by (auto simp: read_at_write_before read_at_write_after)
qed

end

locale field_pair =
  a: field_codec put_a get_a seen_a enc_a dec_a off_a width_a +
  b: field_codec put_b get_b seen_b enc_b dec_b off_b width_b
  for put_a :: "byte list \<Rightarrow> 'v \<Rightarrow> byte list res" and get_a :: "byte list \<Rightarrow> 'u res"
    and seen_a enc_a dec_a off_a width_a
    and put_b :: "byte list \<Rightarrow> 'w \<Rightarrow> byte list res" and get_b :: "byte list \<Rightarrow> 'x res"
    and seen_b enc_b dec_b off_b width_b +
  assumes disjoint: "off_a + width_a \<le> off_b"
begin

lemma get_a_put_b: "put_b buf v = Inr buf' \<Longrightarrow> get_a buf' = get_a buf"
  using b.put_length [of buf v buf'] b.put_frame [of buf v buf' off_a width_a] disjoint
  by (cases "off_a + width_a \<le> length buf") (auto simp: a.get_fits a.get_overrun)

lemma get_b_put_a: "put_a buf v = Inr buf' \<Longrightarrow> get_b buf' = get_b buf"
  using a.put_length [of buf v buf'] a.put_frame [of buf v buf' off_b width_b] disjoint
  by (cases "off_b + width_b \<le> length buf") (auto simp: b.get_fits b.get_overrun)

lemma both_roundtrip:
  assumes "off_b + width_b \<le> length buf"
  shows "ok_r (bind_r (put_a buf v) (\<lambda>buf1. put_b buf1 w))
           (\<lambda>buf'. get_a buf' = Inr (seen_a v) \<and> get_b buf' = Inr (seen_b w))"
proof -
  have fa: "off_a + width_a \<le> length buf" using assms disjoint by linarith
  then obtain b1 where b1: "put_a buf v = Inr b1" using a.put_defined_iff by blast
  then have len: "length b1 = length buf" by (rule a.put_length)
  then obtain b2 where b2: "put_b b1 w = Inr b2" using b.put_defined_iff assms by metis
  have "get_a b2 = get_a b1" by (rule get_a_put_b [OF b2])
  moreover have "get_a b1 = Inr (seen_a v)" using a.roundtrip [of buf v] b1 fa by simp
  moreover have "get_b b2 = Inr (seen_b w)" using b.roundtrip [of b1 w] b2 assms len by simp
  ultimately show ?thesis using b1 b2 by simp
qed

end

interpretation signature: field_codec serializeMsgSignature deserializeMsgSignature
    "\<lambda>g. g" signature_bytes signature_of_bytes 0 4
  by unfold_locales (simp_all add: codec_simps serialize_fault deserialize_fault)

interpretation msg_id: field_codec serializeMsgId deserializeMsgId
    Some "\<lambda>m. [UdcMessageId_code m]" "\<lambda>bs. UdcMessageId_of_code (hd bs)" 4 1
  by unfold_locales (simp_all add: codec_simps serialize_fault deserialize_fault)

interpretation end_point: field_codec msgConnection_serializeEndPointId
    msgConnection_deserializeEndPointId "\<lambda>i. i" u32_bytes u32_of_bytes 5 4
  by unfold_locales (simp_all add: codec_simps serialize_fault deserialize_fault)

interpretation ping_time: field_codec msgPingPong_serializeTimeStamp
    msgPingPong_deserializeTimeStamp "\<lambda>i. i" u32_bytes u32_of_bytes 5 4
  by unfold_locales (simp_all add: codec_simps serialize_fault deserialize_fault)

interpretation reliable_time: field_codec msgReliable_serializeTimeStamp
    msgReliable_deserializeTimeStamp "\<lambda>i. i" u32_bytes u32_of_bytes 5 4
  by unfold_locales (simp_all add: codec_simps serialize_fault deserialize_fault)

interpretation header: field_pair serializeMsgSignature deserializeMsgSignature
    "\<lambda>g. g" signature_bytes signature_of_bytes 0 4
    serializeMsgId deserializeMsgId
    Some "\<lambda>m. [UdcMessageId_code m]" "\<lambda>bs. UdcMessageId_of_code (hd bs)" 4 1
  by unfold_locales simp

interpretation connection: field_pair serializeMsgId deserializeMsgId
    Some "\<lambda>m. [UdcMessageId_code m]" "\<lambda>bs. UdcMessageId_of_code (hd bs)" 4 1
    msgConnection_serializeEndPointId msgConnection_deserializeEndPointId
    "\<lambda>i. i" u32_bytes u32_of_bytes 5 4
  by unfold_locales simp

interpretation ping_pong: field_pair serializeMsgId deserializeMsgId
    Some "\<lambda>m. [UdcMessageId_code m]" "\<lambda>bs. UdcMessageId_of_code (hd bs)" 4 1
    msgPingPong_serializeTimeStamp msgPingPong_deserializeTimeStamp
    "\<lambda>i. i" u32_bytes u32_of_bytes 5 4
  by unfold_locales simp

section \<open>Properties\<close>



text \<open>The accesses of the serial functions are exact: writing or reading a field is defined on
  precisely the buffers that contain the whole field, so a size check that admits less is a buffer
  overrun and no larger buffer is needed.\<close>

lemma serial_functions_bounds:
  "((\<exists>b. serializeMsgSignature buf g = Inr b) \<longleftrightarrow> 4 \<le> length buf) \<and>
   ((\<exists>b. serializeMsgId buf m = Inr b) \<longleftrightarrow> 5 \<le> length buf) \<and>
   ((\<exists>b. msgConnection_serializeEndPointId buf i = Inr b) \<longleftrightarrow> 9 \<le> length buf) \<and>
   ((\<exists>b. msgPingPong_serializeTimeStamp buf i = Inr b) \<longleftrightarrow> 9 \<le> length buf) \<and>
   ((\<exists>b. msgReliable_serializeTimeStamp buf i = Inr b) \<longleftrightarrow> 9 \<le> length buf) \<and>
   ((\<exists>v. deserializeMsgSignature buf = Inr v) \<longleftrightarrow> 4 \<le> length buf) \<and>
   ((\<exists>v. deserializeMsgId buf = Inr v) \<longleftrightarrow> 5 \<le> length buf) \<and>
   ((\<exists>v. msgConnection_deserializeEndPointId buf = Inr v) \<longleftrightarrow> 9 \<le> length buf) \<and>
   ((\<exists>v. msgPingPong_deserializeTimeStamp buf = Inr v) \<longleftrightarrow> 9 \<le> length buf) \<and>
   ((\<exists>v. msgReliable_deserializeTimeStamp buf = Inr v) \<longleftrightarrow> 9 \<le> length buf) \<and>
   ((\<exists>b. msgUnreliable_serializeData buf xs n = Inr b) \<longleftrightarrow> 5 + unat n \<le> length buf \<and> unat n \<le> length xs) \<and>
   ((\<exists>b. msgReliable_serializeData buf xs n = Inr b) \<longleftrightarrow> 9 + unat n \<le> length buf \<and> unat n \<le> length xs)"
  using signature.put_defined_iff msg_id.put_defined_iff end_point.put_defined_iff
    ping_time.put_defined_iff reliable_time.put_defined_iff
    signature.get_defined_iff msg_id.get_defined_iff end_point.get_defined_iff
    ping_time.get_defined_iff reliable_time.get_defined_iff
  by (simp_all add: msgUnreliable_serializeData_def msgReliable_serializeData_def memcpy_def)

text \<open>The byte of a message id determines the id and every byte from 11 on is no id: what
  \<open>deserializeMsgId\<close> reads is the id whose code is the fifth byte, or none for an unknown byte.\<close>

lemma message_id_decoding:
  assumes "5 \<le> length buf"
  shows "(deserializeMsgId buf = Inr (Some m) \<longleftrightarrow> buf ! 4 = UdcMessageId_code m) \<and>
    (deserializeMsgId buf = Inr None \<longleftrightarrow> 11 \<le> unat (buf ! 4))"
proof (rule conjI)
  have rd: "deserializeMsgId buf = Inr (UdcMessageId_of_code (buf ! 4))"
    using assms by (simp add: codec_simps read_at_one [unfolded One_nat_def])
  then show "deserializeMsgId buf = Inr (Some m) \<longleftrightarrow> buf ! 4 = UdcMessageId_code m"
    by (simp add: UdcMessageId_of_code_Some)
  have "unat (UdcMessageId_code i) < 11" for i by (cases i) simp_all
  moreover have "\<exists>i. UdcMessageId_of_code (buf ! 4) = Some i" if "unat (buf ! 4) < 11"
    using UdcMessageId_of_code_total [OF that] by blast
  ultimately show "deserializeMsgId buf = Inr None \<longleftrightarrow> 11 \<le> unat (buf ! 4)"
    using rd UdcMessageId_of_code_None [of "buf ! 4"] by (auto simp: not_less [symmetric])
qed

end
