(* ===== verification/Address.thy ===== *)
theory Address
  imports Prelude
begin

text \<open>
  Addresses and the hash map keyed by them: \<open>UdcAddressIPv4\<close> and \<open>UdcAddressIPv6\<close> of
  \<open>include/udp_connect.h\<close>, \<open>UdcAddressMux\<close> of \<open>include/UdcAddressMux.h\<close> with its union, and
  \<open>UdcAddressMap\<close> of \<open>include/UdcAddressHash.h\<close>. The map is shown to be a finite map over
  end points (family, significant address bytes, port), whatever the bytes of the union
  that the family does not use hold; this is the contract \<open>keyed_map\<close> the server uses.
\<close>

section \<open>Addresses\<close>

datatype UdcAddressIPv4 = IPv4 byte byte byte byte

datatype UdcAddressIPv6 = IPv6 u16 u16 u16 u16 u16 u16 u16 u16

datatype UdcAddressFamily = UDC_IPV4 | UDC_IPV6

fun octets :: "UdcAddressIPv4 \<Rightarrow> byte list" where
  "octets (IPv4 a b c d) = [a, b, c, d]"

fun segments :: "UdcAddressIPv6 \<Rightarrow> u16 list" where
  "segments (IPv6 a b c d e f g h) = [a, b, c, d, e, f, g, h]"

definition segment_bytes :: "UdcAddressIPv6 \<Rightarrow> byte list" where
  "segment_bytes a = concat (map u16_bytes (segments a))"

text \<open>
  The union of an IPv4 and an IPv6 address occupies the 16 bytes of its larger member, so
  its state is a \<open>UdcAddressIPv6\<close>. Its IPv4 view is the first four of these bytes; storing
  an IPv4 address overwrites them and leaves the other twelve as they were.
\<close>

type_synonym address_union = UdcAddressIPv6

fun union_ipv4 :: "address_union \<Rightarrow> UdcAddressIPv4" where
  "union_ipv4 (IPv6 s0 s1 s2 s3 s4 s5 s6 s7) =
     IPv4 (ucast s0) (ucast (drop_bit 8 s0)) (ucast s1) (ucast (drop_bit 8 s1))"

fun union_set_ipv4 :: "UdcAddressIPv4 \<Rightarrow> address_union \<Rightarrow> address_union" where
  "union_set_ipv4 (IPv4 a b c d) (IPv6 s0 s1 s2 s3 s4 s5 s6 s7) =
     IPv6 (u16_of_bytes a b) (u16_of_bytes c d) s2 s3 s4 s5 s6 s7"

record UdcAddressMux =
  am_family :: UdcAddressFamily
  am_address :: address_union
  am_port :: u16

lemma length_octets [simp]: "length (octets a) = 4"
  by (cases a) simp

lemma octets_inject [simp]: "octets a = octets b \<longleftrightarrow> a = b"
  by (cases a; cases b) simp

lemma u16_bytes_inject [simp]: "u16_bytes v = u16_bytes w \<longleftrightarrow> v = w"
proof
  assume eq: "u16_bytes v = u16_bytes w"
  have "v = u16_of_bytes (ucast v) (ucast (drop_bit 8 v))" by simp
  also have "\<dots> = u16_of_bytes (ucast w) (ucast (drop_bit 8 w))"
    using eq by (simp only: u16_bytes_def list.inject)
  finally show "v = w" by simp
qed simp

lemma length_segment_bytes [simp]: "length (segment_bytes a) = 16"
  by (cases a) (simp add: segment_bytes_def)

lemma segment_bytes_inject [simp]: "segment_bytes a = segment_bytes b \<longleftrightarrow> a = b"
  by (cases a; cases b) (simp add: segment_bytes_def append_eq_append_conv)

lemma union_ipv4_set [simp]: "union_ipv4 (union_set_ipv4 a u) = a"
proof (cases a; cases u)
  fix a0 a1 a2 a3 s0 s1 s2 s3 s4 s5 s6 s7
  assume a: "a = IPv4 a0 a1 a2 a3" and u: "u = IPv6 s0 s1 s2 s3 s4 s5 s6 s7"
  have "u16_bytes (u16_of_bytes x y) = [x, y]" for x y by simp
  then have "ucast (u16_of_bytes x y) = x" "ucast (drop_bit 8 (u16_of_bytes x y)) = y" for x y
    by (simp_all only: u16_bytes_def list.inject)
  then show ?thesis by (simp add: a u)
qed

lemma union_view_bytes: "octets (union_ipv4 u) = take 4 (segment_bytes u)"
  by (cases u) (simp add: segment_bytes_def u16_bytes_def)

section \<open>End points\<close>

text \<open>The part of an address that the program's comparison looks at.\<close>

datatype end_point = EP_IPv4 UdcAddressIPv4 u16 | EP_IPv6 UdcAddressIPv6 u16

definition end_point_of :: "UdcAddressMux \<Rightarrow> end_point" where
  "end_point_of a =
     (case am_family a of
        UDC_IPV4 \<Rightarrow> EP_IPv4 (union_ipv4 (am_address a)) (am_port a)
      | UDC_IPV6 \<Rightarrow> EP_IPv6 (am_address a) (am_port a))"

fun mux_of :: "end_point \<Rightarrow> UdcAddressMux" where
  "mux_of (EP_IPv4 a p) =
     \<lparr>am_family = UDC_IPV4, am_address = union_set_ipv4 a (IPv6 0 0 0 0 0 0 0 0), am_port = p\<rparr>"
| "mux_of (EP_IPv6 a p) = \<lparr>am_family = UDC_IPV6, am_address = a, am_port = p\<rparr>"

lemma end_point_of_mux_of [simp]: "end_point_of (mux_of e) = e"
  by (cases e) (simp_all add: end_point_of_def)

section \<open>The address map\<close>

definition Hasher :: "UdcAddressMux \<Rightarrow> u32" where
  "Hasher x = u32_of_bytes (octets (union_ipv4 (am_address x)))"

definition CompareEquals :: "UdcAddressMux \<Rightarrow> UdcAddressMux \<Rightarrow> bool" where
  "CompareEquals a b =
     (if am_family a \<noteq> am_family b then False
      else if am_port a \<noteq> am_port b then False
      else if am_family a = UDC_IPV6
        then segment_bytes (am_address a) = segment_bytes (am_address b)
      else octets (union_ipv4 (am_address a)) = octets (union_ipv4 (am_address b)))"

text \<open>
  The \<open>std::unordered_map\<close> inside is the list of its nodes. A lookup visits only the nodes
  whose hash is that of the key and compares those with \<open>CompareEquals\<close>; \<open>operator[]\<close>
  assigns to the node it finds or adds one; \<open>erase\<close> removes the nodes of the key.
  Where a node is added does not matter to any operation of \<open>UdcAddressMap\<close>.
\<close>

type_synonym 'a UdcAddressMap = "(UdcAddressMux \<times> 'a) list"

definition node_matches :: "UdcAddressMux \<Rightarrow> UdcAddressMux \<Rightarrow> bool" where
  "node_matches x k \<longleftrightarrow> Hasher k = Hasher x \<and> CompareEquals k x"

fun UdcAddressMap_find :: "'a UdcAddressMap \<Rightarrow> UdcAddressMux \<Rightarrow> 'a option" where
  "UdcAddressMap_find [] x = None"
| "UdcAddressMap_find ((k, v) # m) x = (if node_matches x k then Some v else UdcAddressMap_find m x)"

fun UdcAddressMap_insert :: "'a UdcAddressMap \<Rightarrow> UdcAddressMux \<Rightarrow> 'a \<Rightarrow> 'a UdcAddressMap" where
  "UdcAddressMap_insert [] x w = [(x, w)]"
| "UdcAddressMap_insert ((k, v) # m) x w =
     (if node_matches x k then (k, w) # m else (k, v) # UdcAddressMap_insert m x w)"

definition UdcAddressMap_erase :: "'a UdcAddressMap \<Rightarrow> UdcAddressMux \<Rightarrow> 'a UdcAddressMap" where
  "UdcAddressMap_erase m x = filter (\<lambda>(k, v). \<not> node_matches x k) m"

lemma CompareEquals_iff: "CompareEquals a b \<longleftrightarrow> end_point_of a = end_point_of b"
  by (cases "am_family a"; cases "am_family b") (auto simp: CompareEquals_def end_point_of_def)

text \<open>Equal keys have equal hashes, as the container requires of the pair.\<close>

lemma Hasher_CompareEquals: "CompareEquals a b \<Longrightarrow> Hasher a = Hasher b"
  by (cases "am_family a"; cases "am_family b") (auto simp: CompareEquals_def Hasher_def split: if_splits)

lemma node_matches_iff [simp]: "node_matches x k \<longleftrightarrow> end_point_of k = end_point_of x"
  using Hasher_CompareEquals [of k x] by (auto simp: node_matches_def CompareEquals_iff)

definition map_of_nodes :: "'a UdcAddressMap \<Rightarrow> end_point \<rightharpoonup> 'a" where
  "map_of_nodes m = (\<lambda>e. map_of (map (\<lambda>(k, v). (end_point_of k, v)) m) e)"

lemma find_map_of_nodes: "UdcAddressMap_find m x = map_of_nodes m (end_point_of x)"
  by (induction m x rule: UdcAddressMap_find.induct) (simp_all add: map_of_nodes_def)

lemma map_of_nodes_Nil: "map_of_nodes [] = Map.empty"
  by (simp add: map_of_nodes_def)

lemma map_of_nodes_insert:
  "map_of_nodes (UdcAddressMap_insert m x w) = (map_of_nodes m)(end_point_of x \<mapsto> w)"
  by (induction m x w rule: UdcAddressMap_insert.induct) (auto simp: map_of_nodes_def fun_eq_iff)

lemma map_of_nodes_erase:
  "map_of_nodes (UdcAddressMap_erase m x) = (map_of_nodes m)(end_point_of x := None)"
  by (induction m) (auto simp: map_of_nodes_def UdcAddressMap_erase_def fun_eq_iff)

section \<open>The contract of a map keyed by addresses\<close>

locale keyed_map =
  fixes key :: "'x \<Rightarrow> 'k"
    and empty :: 'm
    and find :: "'m \<Rightarrow> 'x \<Rightarrow> 'v option"
    and insert :: "'m \<Rightarrow> 'x \<Rightarrow> 'v \<Rightarrow> 'm"
    and erase :: "'m \<Rightarrow> 'x \<Rightarrow> 'm"
    and abs :: "'m \<Rightarrow> 'k \<rightharpoonup> 'v"
  assumes find_abs: "find m x = abs m (key x)"
    and abs_empty: "abs empty = Map.empty"
    and abs_insert: "abs (insert m x v) = (abs m)(key x \<mapsto> v)"
    and abs_erase: "abs (erase m x) = (abs m)(key x := None)"
begin

lemma find_empty: "find empty x = None"
  by (simp add: find_abs abs_empty)

lemma find_insert: "find (insert m x v) y = (if key y = key x then Some v else find m y)"
  by (simp add: find_abs abs_insert)

lemma find_erase: "find (erase m x) y = (if key y = key x then None else find m y)"
  by (simp add: find_abs abs_erase)

lemma find_cong: "key x = key y \<Longrightarrow> find m x = find m y"
  by (simp add: find_abs)

lemma ran_insert: "r \<in> ran (abs (insert m x v)) \<Longrightarrow> r = v \<or> r \<in> ran (abs m)"
  by (auto simp: abs_insert ran_def split: if_splits)

lemma ran_insert_subset: "ran (abs m) \<subseteq> A \<Longrightarrow> v \<in> A \<Longrightarrow> ran (abs (insert m x v)) \<subseteq> A"
  using ran_insert by blast

lemma ran_erase: "ran (abs (erase m x)) \<subseteq> ran (abs m)"
  by (auto simp: abs_erase ran_def split: if_splits)

lemma find_ran: "find m x = Some v \<Longrightarrow> v \<in> ran (abs m)"
  by (auto simp: find_abs ran_def)

text \<open>A run of insertions keeps the last value given to each key.\<close>

lemma find_insertions:
  "find (foldl (\<lambda>m (x, v). insert m x v) m xs) y =
   (case map_of (rev (map (\<lambda>(x, v). (key x, v)) xs)) (key y) of
      None \<Rightarrow> find m y | Some v \<Rightarrow> Some v)"
  by (induction xs rule: rev_induct) (auto simp: find_insert find_abs abs_insert split: option.splits)

end

interpretation address_map: keyed_map end_point_of "[]" UdcAddressMap_find UdcAddressMap_insert
    UdcAddressMap_erase map_of_nodes
  by unfold_locales (simp_all add: find_map_of_nodes map_of_nodes_Nil map_of_nodes_insert
      map_of_nodes_erase)

section \<open>Properties\<close>

text \<open>A history of operations on an address map, and the finite map it stands for.\<close>

datatype 'a map_op = Insert UdcAddressMux 'a | Erase UdcAddressMux

fun apply_op :: "'a UdcAddressMap \<Rightarrow> 'a map_op \<Rightarrow> 'a UdcAddressMap" where
  "apply_op m (Insert x v) = UdcAddressMap_insert m x v"
| "apply_op m (Erase x) = UdcAddressMap_erase m x"

fun apply_abs :: "(end_point \<rightharpoonup> 'a) \<Rightarrow> 'a map_op \<Rightarrow> end_point \<rightharpoonup> 'a" where
  "apply_abs m (Insert x v) = m(end_point_of x \<mapsto> v)"
| "apply_abs m (Erase x) = m(end_point_of x := None)"

lemma map_of_nodes_history:
  "map_of_nodes (foldl apply_op m ops) = foldl apply_abs (map_of_nodes m) ops"
proof (induction ops arbitrary: m)
  case (Cons oper ops)
  have "map_of_nodes (apply_op m oper) = apply_abs (map_of_nodes m) oper"
    by (cases oper) (simp_all add: address_map.abs_insert address_map.abs_erase)
  with Cons show ?case by simp
qed simp

text \<open>C30. After any history of insertions and erasures the hash map of \<open>UdcAddressHash.h\<close> answers a
  lookup as the finite map from end points (family, address, port) with the same history: the
  bytes of the address union that the family does not use never matter.\<close>

theorem address_map_is_finite_map:
  "UdcAddressMap_find (foldl apply_op [] ops) x = foldl apply_abs Map.empty ops (end_point_of x)"
  by (simp add: address_map.find_abs map_of_nodes_history address_map.abs_empty)

text \<open>The comparison and the hash of the map's keys fit together as \<open>std::unordered_map\<close> requires:
  \<open>CompareEquals\<close> is an equivalence, and keys it identifies have the same hash.\<close>

lemma hash_respects_comparison:
  "CompareEquals a a \<and> CompareEquals a b = CompareEquals b a \<and>
   (CompareEquals a b \<longrightarrow> CompareEquals b c \<longrightarrow> CompareEquals a c) \<and>
   (CompareEquals a b \<longrightarrow> Hasher a = Hasher b)"
  using Hasher_CompareEquals [of a b] by (auto simp: CompareEquals_iff)

end
