(* ===== verification/Client.thy ===== *)
theory Client
  imports Address
begin

text \<open>
  One remote end point: the class \<open>UdcClient\<close> of \<open>include/UdcClient.h\<close> and
  \<open>src/UdcClient.cpp\<close>, its constructor and every member function. The five timers of a
  client (connection timeout, connection attempt, ping, connection lost, reliable reset)
  share one contract, the locale \<open>elapsed_timer\<close>; each is an interpretation of it.
\<close>

record UdcClient =
  m_id :: u32
  m_reliableState :: int
  m_reliableMessages :: "byte list list"
  m_isConnected :: bool
  m_outgoingAddress :: UdcAddressMux
  m_incomingAddress :: UdcAddressMux
  m_pingPeriod :: milliseconds
  m_connectionTimeoutPeriod :: milliseconds
  m_connectionLostPeriod :: milliseconds
  m_connectionAttemptPeriod :: milliseconds
  m_reliableTimeoutPeriod :: milliseconds
  m_ping :: milliseconds
  m_pingLastSetTime :: milliseconds
  m_lastReceivedTime :: milliseconds
  m_reliableSentTime :: milliseconds
  m_firstConnectAttemptTime :: milliseconds
  m_prevConnectAttemptTime :: milliseconds

section \<open>Member functions\<close>

definition UdcClient_ctor ::
  "u32 \<Rightarrow> UdcAddressMux \<Rightarrow> milliseconds \<Rightarrow> milliseconds \<Rightarrow> UdcClient" where
  "UdcClient_ctor endPointId outgoingAddress pingPeriod timeoutPeriod =
     \<lparr>m_id = endPointId,
      m_reliableState = 0,
      m_reliableMessages = [],
      m_isConnected = False,
      m_outgoingAddress = outgoingAddress,
      m_incomingAddress =
        \<lparr>am_family = UDC_IPV4, am_address = IPv6 0 0 0 0 0 0 0 0, am_port = 0\<rparr>,
      m_pingPeriod = pingPeriod,
      m_connectionTimeoutPeriod = timeoutPeriod,
      m_connectionLostPeriod = timeoutPeriod,
      m_connectionAttemptPeriod = pingPeriod,
      m_reliableTimeoutPeriod = timeoutPeriod,
      m_ping = 0,
      m_pingLastSetTime = 0,
      m_lastReceivedTime = 0,
      m_reliableSentTime = 0,
      m_firstConnectAttemptTime = 0,
      m_prevConnectAttemptTime = 0\<rparr>"

text \<open>The accessors. \<open>reliableMessages\<close> returns a reference: it is also how the server changes the queue.\<close>

abbreviation client_id :: "UdcClient \<Rightarrow> u32" where
  "client_id c \<equiv> m_id c"

abbreviation reliableState :: "UdcClient \<Rightarrow> int" where
  "reliableState c \<equiv> m_reliableState c"

abbreviation reliableMessages :: "UdcClient \<Rightarrow> byte list list" where
  "reliableMessages c \<equiv> m_reliableMessages c"

abbreviation client_ping :: "UdcClient \<Rightarrow> milliseconds" where
  "client_ping c \<equiv> m_ping c"

abbreviation outgoingAddress :: "UdcClient \<Rightarrow> UdcAddressMux" where
  "outgoingAddress c \<equiv> m_outgoingAddress c"

abbreviation incomingAddress :: "UdcClient \<Rightarrow> UdcAddressMux" where
  "incomingAddress c \<equiv> m_incomingAddress c"

definition setReliableState :: "int \<Rightarrow> UdcClient \<Rightarrow> UdcClient" where
  "setReliableState state c = c\<lparr>m_reliableState := state\<rparr>"

definition connected :: "UdcClient \<Rightarrow> bool" where
  "connected c = m_isConnected c"

definition startConnecting :: "milliseconds \<Rightarrow> UdcClient \<Rightarrow> UdcClient" where
  "startConnecting time c =
     c\<lparr>m_firstConnectAttemptTime := time, m_prevConnectAttemptTime := 0\<rparr>"

definition retryConnecting :: "milliseconds \<Rightarrow> UdcClient \<Rightarrow> UdcClient" where
  "retryConnecting time c = c\<lparr>m_prevConnectAttemptTime := time\<rparr>"

definition setConnectionLost :: "UdcClient \<Rightarrow> UdcClient" where
  "setConnectionLost c = c\<lparr>m_isConnected := False\<rparr>"

definition needsConnectionTimeoutEvent :: "UdcClient \<Rightarrow> milliseconds \<Rightarrow> bool" where
  "needsConnectionTimeoutEvent c time \<longleftrightarrow>
     time - m_firstConnectAttemptTime c \<ge> m_connectionTimeoutPeriod c"

definition needsConnectionAttempt :: "UdcClient \<Rightarrow> milliseconds \<Rightarrow> bool" where
  "needsConnectionAttempt c time \<longleftrightarrow>
     time - m_prevConnectAttemptTime c \<ge> m_connectionAttemptPeriod c"

definition receivePong :: "milliseconds \<Rightarrow> milliseconds \<Rightarrow> UdcClient \<Rightarrow> bool \<times> UdcClient" where
  "receivePong pingSentTime pongReceivedTime c =
     (let c1 = c\<lparr>m_ping := pongReceivedTime - pingSentTime,
                 m_pingLastSetTime := pongReceivedTime,
                 m_lastReceivedTime := pongReceivedTime\<rparr>
      in if \<not> m_isConnected c1 then (True, c1\<lparr>m_isConnected := True\<rparr>) else (False, c1))"

definition receiveReliableHandshake ::
  "milliseconds \<Rightarrow> milliseconds \<Rightarrow> UdcClient \<Rightarrow> bool \<times> UdcClient" where
  "receiveReliableHandshake reliableSentTime handshakeReceivedTime c =
     receivePong reliableSentTime handshakeReceivedTime c"

definition resetSendReliable :: "UdcClient \<Rightarrow> UdcClient" where
  "resetSendReliable c = c\<lparr>m_reliableSentTime := 0\<rparr>"

definition setSendReliable :: "milliseconds \<Rightarrow> UdcClient \<Rightarrow> UdcClient" where
  "setSendReliable time c =
     (if m_reliableSentTime c = 0 then c\<lparr>m_reliableSentTime := time\<rparr> else c)"

definition needsReliableReset :: "UdcClient \<Rightarrow> milliseconds \<Rightarrow> bool" where
  "needsReliableReset c time =
     (if m_reliableSentTime c = 0 then False
      else time - m_reliableSentTime c \<ge> m_reliableTimeoutPeriod c)"

definition needsPing :: "UdcClient \<Rightarrow> milliseconds \<Rightarrow> bool" where
  "needsPing c time \<longleftrightarrow> time - m_pingLastSetTime c \<ge> m_pingPeriod c"

definition needsConnectionLostEvent :: "UdcClient \<Rightarrow> milliseconds \<Rightarrow> bool" where
  "needsConnectionLostEvent c time \<longleftrightarrow>
     m_isConnected c \<and> time - m_lastReceivedTime c \<ge> m_connectionLostPeriod c"

definition receiveConnectionHandshake :: "milliseconds \<Rightarrow> UdcClient \<Rightarrow> UdcClient" where
  "receiveConnectionHandshake receivedTime c =
     (let c1 = (if \<not> m_isConnected c then c\<lparr>m_isConnected := True\<rparr> else c)
      in c1\<lparr>m_lastReceivedTime := receivedTime\<rparr>)"

text \<open>\<open>std::queue\<close> of the pending reliable messages: \<open>push\<close> at the back, \<open>pop\<close> the front.\<close>

definition reliableMessages_push :: "byte list \<Rightarrow> UdcClient \<Rightarrow> UdcClient" where
  "reliableMessages_push msg c = c\<lparr>m_reliableMessages := m_reliableMessages c @ [msg]\<rparr>"

definition reliableMessages_pop :: "UdcClient \<Rightarrow> UdcClient" where
  "reliableMessages_pop c = c\<lparr>m_reliableMessages := tl (m_reliableMessages c)\<rparr>"

lemmas client_op_defs =
  setReliableState_def connected_def startConnecting_def retryConnecting_def setConnectionLost_def
  receivePong_def receiveReliableHandshake_def resetSendReliable_def setSendReliable_def
  receiveConnectionHandshake_def reliableMessages_push_def reliableMessages_pop_def

section \<open>Fields the operations leave alone\<close>

text \<open>What identifies a client never changes after construction.\<close>

definition same_client :: "UdcClient \<Rightarrow> UdcClient \<Rightarrow> bool" where
  "same_client c c' \<longleftrightarrow>
     m_id c' = m_id c \<and> m_outgoingAddress c' = m_outgoingAddress c \<and>
     m_pingPeriod c' = m_pingPeriod c \<and>
     m_connectionTimeoutPeriod c' = m_connectionTimeoutPeriod c \<and>
     m_connectionLostPeriod c' = m_connectionLostPeriod c \<and>
     m_connectionAttemptPeriod c' = m_connectionAttemptPeriod c \<and>
     m_reliableTimeoutPeriod c' = m_reliableTimeoutPeriod c"

lemma same_client_ops [simp]:
  "same_client c c"
  "same_client c (setReliableState st c)"
  "same_client c (startConnecting t c)"
  "same_client c (retryConnecting t c)"
  "same_client c (setConnectionLost c)"
  "same_client c (snd (receivePong a t c))"
  "same_client c (snd (receiveReliableHandshake a t c))"
  "same_client c (resetSendReliable c)"
  "same_client c (setSendReliable t c)"
  "same_client c (receiveConnectionHandshake t c)"
  "same_client c (reliableMessages_push msg c)"
  "same_client c (reliableMessages_pop c)"
  by (simp_all add: same_client_def client_op_defs Let_def)

lemma client_field_ops [simp]:
  "m_id (setReliableState st c) = m_id c"
  "m_id (startConnecting t c) = m_id c"
  "m_id (retryConnecting t c) = m_id c"
  "m_id (setConnectionLost c) = m_id c"
  "m_id (resetSendReliable c) = m_id c"
  "m_id (setSendReliable t c) = m_id c"
  "m_id (receiveConnectionHandshake t c) = m_id c"
  "m_id (reliableMessages_push msg c) = m_id c"
  "m_id (reliableMessages_pop c) = m_id c"
  "m_id (snd (receiveReliableHandshake a t c)) = m_id c"
  by (simp_all add: client_op_defs Let_def)

lemma same_client_trans: "same_client a b \<Longrightarrow> same_client b c \<Longrightarrow> same_client a c"
  by (simp add: same_client_def)

text \<open>
  A client is well formed for a payload bound when its reliable state is one the protocol
  uses and every queued message fits the bound.
\<close>

definition client_wf :: "nat \<Rightarrow> UdcClient \<Rightarrow> bool" where
  "client_wf n c \<longleftrightarrow>
     m_reliableState c \<in> {-1, 0, 1} \<and> list_all (\<lambda>msg. length msg \<le> n) (m_reliableMessages c)"

lemma client_wf_ctor [simp]: "client_wf n (UdcClient_ctor i a p t)"
  by (simp add: client_wf_def UdcClient_ctor_def)

lemma list_all_tl: "list_all P xs \<Longrightarrow> list_all P (tl xs)"
  by (cases xs) simp_all

lemma client_wf_ops [simp]:
  "client_wf n (startConnecting t c) = client_wf n c"
  "client_wf n (retryConnecting t c) = client_wf n c"
  "client_wf n (setConnectionLost c) = client_wf n c"
  "client_wf n (snd (receivePong a t c)) = client_wf n c"
  "client_wf n (snd (receiveReliableHandshake a t c)) = client_wf n c"
  "client_wf n (resetSendReliable c) = client_wf n c"
  "client_wf n (setSendReliable t c) = client_wf n c"
  "client_wf n (receiveConnectionHandshake t c) = client_wf n c"
  "client_wf n c \<Longrightarrow> st \<in> {-1, 0, 1} \<Longrightarrow> client_wf n (setReliableState st c)"
  "client_wf n c \<Longrightarrow> length msg \<le> n \<Longrightarrow> client_wf n (reliableMessages_push msg c)"
  "client_wf n c \<Longrightarrow> client_wf n (reliableMessages_pop c)"
  by (simp_all add: client_wf_def client_op_defs Let_def list_all_tl)

section \<open>Timers\<close>

locale elapsed_timer =
  fixes due :: "'c \<Rightarrow> milliseconds \<Rightarrow> bool"
    and armed :: "'c \<Rightarrow> bool"
    and since :: "'c \<Rightarrow> milliseconds"
    and period :: "'c \<Rightarrow> milliseconds"
    and restart :: "milliseconds \<Rightarrow> 'c \<Rightarrow> 'c"
    and fresh :: "'c \<Rightarrow> milliseconds \<Rightarrow> bool"
  assumes due_iff: "due c t \<longleftrightarrow> armed c \<and> period c \<le> t - since c"
    and restart_armed: "fresh c t \<Longrightarrow> armed (restart t c)"
    and restart_since: "fresh c t \<Longrightarrow> since (restart t c) = t"
    and restart_period: "period (restart t c) = period c"
begin

lemma due_mono: "due c t \<Longrightarrow> t \<le> t' \<Longrightarrow> due c t'"
  by (auto simp: due_iff)

lemma due_after_restart: "fresh c t \<Longrightarrow> due (restart t c) t' \<longleftrightarrow> period c \<le> t' - t"
  by (simp add: due_iff restart_armed restart_since restart_period)

lemma quiet_after_restart: "fresh c t \<Longrightarrow> t' < t + period c \<Longrightarrow> \<not> due (restart t c) t'"
  by (simp add: due_after_restart)

lemma first_due: "fresh c t \<Longrightarrow> due (restart t c) (t + period c)"
  by (simp add: due_after_restart)

end

interpretation timeout_timer: elapsed_timer needsConnectionTimeoutEvent "\<lambda>_. True"
    m_firstConnectAttemptTime m_connectionTimeoutPeriod startConnecting "\<lambda>_ _. True"
  by unfold_locales (simp_all add: needsConnectionTimeoutEvent_def startConnecting_def)

interpretation attempt_timer: elapsed_timer needsConnectionAttempt "\<lambda>_. True"
    m_prevConnectAttemptTime m_connectionAttemptPeriod retryConnecting "\<lambda>_ _. True"
  by unfold_locales (simp_all add: needsConnectionAttempt_def retryConnecting_def)

interpretation ping_timer: elapsed_timer needsPing "\<lambda>_. True"
    m_pingLastSetTime m_pingPeriod "\<lambda>t c. snd (receivePong sent t c)" "\<lambda>_ _. True" for sent
  by unfold_locales (simp_all add: needsPing_def receivePong_def Let_def)

interpretation lost_timer: elapsed_timer needsConnectionLostEvent m_isConnected
    m_lastReceivedTime m_connectionLostPeriod "\<lambda>t c. snd (receivePong sent t c)" "\<lambda>_ _. True" for sent
  by unfold_locales (simp_all add: needsConnectionLostEvent_def receivePong_def Let_def)

interpretation handshake_timer: elapsed_timer needsConnectionLostEvent m_isConnected
    m_lastReceivedTime m_connectionLostPeriod receiveConnectionHandshake "\<lambda>_ _. True"
  by unfold_locales
    (simp_all add: needsConnectionLostEvent_def receiveConnectionHandshake_def Let_def)

text \<open>
  The reliable timer is armed by the first transmission of a message only: a
  retransmission (\<open>setSendReliable\<close> on an armed timer) does not move it.
\<close>

interpretation reliable_timer: elapsed_timer needsReliableReset "\<lambda>c. m_reliableSentTime c \<noteq> 0"
    m_reliableSentTime m_reliableTimeoutPeriod setSendReliable
    "\<lambda>c t. m_reliableSentTime c = 0 \<and> t \<noteq> 0"
  by unfold_locales (simp_all add: needsReliableReset_def setSendReliable_def)

section \<open>Properties\<close>

lemma receivePong_fst: "fst (receivePong a t c) \<longleftrightarrow> \<not> m_isConnected c"
  by (simp add: receivePong_def Let_def)

lemma receivePong_snd_simps [simp]:
  "m_isConnected (snd (receivePong a t c))"
  "m_ping (snd (receivePong a t c)) = t - a"
  "m_pingLastSetTime (snd (receivePong a t c)) = t"
  "m_lastReceivedTime (snd (receivePong a t c)) = t"
  "m_id (snd (receivePong a t c)) = m_id c"
  "m_reliableState (snd (receivePong a t c)) = m_reliableState c"
  "m_reliableMessages (snd (receivePong a t c)) = m_reliableMessages c"
  "m_reliableSentTime (snd (receivePong a t c)) = m_reliableSentTime c"
  "m_outgoingAddress (snd (receivePong a t c)) = m_outgoingAddress c"
  by (simp_all add: receivePong_def Let_def)

text \<open>The retransmission timer of a reliable message runs from its first transmission: however often
  the message is sent again (at \<open>ts\<close>), a reset of the link is due exactly when the reliable
  timeout has passed since the first transmission at \<open>t0\<close>; before it no reset is due at all.\<close>

lemma reliable_timer_from_first_transmission:
  assumes "t0 \<noteq> 0"
  shows "\<not> needsReliableReset (resetSendReliable c) t \<and>
    (needsReliableReset (foldl (\<lambda>c s. setSendReliable s c) (resetSendReliable c) (t0 # ts)) t \<longleftrightarrow>
       m_reliableTimeoutPeriod c \<le> t - t0)"
proof -
  have keep: "foldl (\<lambda>c s. setSendReliable s c) c' ts = c'" if "m_reliableSentTime c' \<noteq> 0" for c'
    using that by (induction ts) (simp_all add: setSendReliable_def)
  have "m_reliableSentTime (setSendReliable t0 (resetSendReliable c)) = t0"
    using assms by (simp add: setSendReliable_def resetSendReliable_def)
  with assms show ?thesis
    using keep [of "setSendReliable t0 (resetSendReliable c)"]
    by (simp add: needsReliableReset_def) (simp add: setSendReliable_def resetSendReliable_def)
qed

text \<open>Losing and regaining a connection alternate: a pong or an acknowledgement reports a regained
  connection exactly when the client was lost, leaves it connected with the lost timer
  restarted (due again exactly one period later), and a client whose loss has been reported gives
  no second loss event before it is regained.\<close>

lemma lost_and_regained_alternate:
  "(fst (receivePong sent t c) \<longleftrightarrow> \<not> m_isConnected c) \<and>
   connected (snd (receivePong sent t c)) \<and>
   (needsConnectionLostEvent (snd (receivePong sent t c)) t' \<longleftrightarrow> m_connectionLostPeriod c \<le> t' - t) \<and>
   \<not> needsConnectionLostEvent (setConnectionLost c) t' \<and>
   fst (receivePong sent t (setConnectionLost c))"
  using lost_timer.due_after_restart [where sent = sent and c = c and t = t and t' = t']
  by (simp add: receivePong_fst connected_def needsConnectionLostEvent_def setConnectionLost_def)

end
