(* ===== verification/Platform.thy ===== *)
theory Platform
  imports Address
begin

text \<open>
  The Win32 layer: \<open>platform/win32/src/UdcSocketHelper.cpp\<close> (namespace \<open>WinSock\<close>) and
  \<open>platform/win32/src/UdcSocket.cpp\<close> (class \<open>UdcSocket\<close>). The WinSock functions themselves
  are not code of the repository: they are the fields of \<open>platform_api\<close>, a parameter of
  every definition that calls them, over an abstract operating-system state \<open>'w\<close>. What the
  code relies on is \<open>recvfrom_documented\<close> and \<open>byte_order_documented\<close>, stated from the
  documentation of \<open>recvfrom\<close> and of \<open>htons\<close>/\<open>ntohs\<close>. The same record carries the values
  the C++ standard leaves unspecified: the iteration order of an \<open>unordered_map\<close> and the
  contents of two uninitialised local variables.
\<close>

section \<open>The WinSock interface\<close>

datatype in_addr = S_un_b byte byte byte byte

datatype in6_addr = u_Word u16 u16 u16 u16 u16 u16 u16 u16

record sockaddr_in =
  sin_family :: int
  sin_port :: u16
  sin_addr :: in_addr

record sockaddr_in6 =
  sin6_family :: int
  sin6_port :: u16
  sin6_flowinfo :: u32
  sin6_addr :: in6_addr
  sin6_scope_id :: u32

text \<open>
  The outcome of \<open>recvfrom\<close>: its return value, the code \<open>WSAGetLastError\<close> gives
  afterwards, the bytes it stored at the start of the buffer and the source address it stored.
\<close>

record 'a recv_result =
  rr_result :: int
  rr_error :: int
  rr_written :: "byte list"
  rr_from :: 'a

text \<open>
  An entry of the list \<open>getaddrinfo\<close> returns; \<open>ai_addr\<close> points to memory that the code reads
  as a \<open>sockaddr_in\<close> or a \<open>sockaddr_in6\<close>.
\<close>

record addrinfo =
  ai_family :: int
  ai_socktype :: int
  ai_protocol :: int
  ai_addr_in :: sockaddr_in
  ai_addr_in6 :: sockaddr_in6

record 'w platform_api =
  api_WSAStartup :: "'w \<Rightarrow> int \<times> 'w"
  api_WSACleanup :: "'w \<Rightarrow> 'w"
  api_socket :: "int \<Rightarrow> int \<Rightarrow> int \<Rightarrow> 'w \<Rightarrow> SOCKET \<times> 'w"
  api_closesocket :: "SOCKET \<Rightarrow> 'w \<Rightarrow> 'w"
  api_bind_in :: "SOCKET \<Rightarrow> sockaddr_in \<Rightarrow> 'w \<Rightarrow> int \<times> 'w"
  api_bind_in6 :: "SOCKET \<Rightarrow> sockaddr_in6 \<Rightarrow> 'w \<Rightarrow> int \<times> 'w"
  api_ioctlsocket_FIONBIO :: "SOCKET \<Rightarrow> u32 \<Rightarrow> 'w \<Rightarrow> int \<times> 'w"
  api_setsockopt_IPV6_V6ONLY :: "SOCKET \<Rightarrow> u32 \<Rightarrow> 'w \<Rightarrow> int \<times> 'w"
  api_sendto_in :: "SOCKET \<Rightarrow> byte list \<Rightarrow> int \<Rightarrow> sockaddr_in \<Rightarrow> 'w \<Rightarrow> int \<times> 'w"
  api_sendto_in6 :: "SOCKET \<Rightarrow> byte list \<Rightarrow> int \<Rightarrow> sockaddr_in6 \<Rightarrow> 'w \<Rightarrow> int \<times> 'w"
  api_recvfrom_in :: "SOCKET \<Rightarrow> int \<Rightarrow> 'w \<Rightarrow> sockaddr_in recv_result \<times> 'w"
  api_recvfrom_in6 :: "SOCKET \<Rightarrow> int \<Rightarrow> 'w \<Rightarrow> sockaddr_in6 recv_result \<times> 'w"
  api_getaddrinfo :: "string \<Rightarrow> string \<Rightarrow> int \<Rightarrow> int \<Rightarrow> int \<Rightarrow> 'w \<Rightarrow> (int \<times> addrinfo list) \<times> 'w"
  api_htons :: "u16 \<Rightarrow> u16"
  api_ntohs :: "u16 \<Rightarrow> u16"
  api_now :: "'w \<Rightarrow> milliseconds \<times> 'w"
  file_opens :: "string \<Rightarrow> bool"
  unordered_order :: "(u32 \<rightharpoonup> nat) \<Rightarrow> u32 list"
  uninit_address :: UdcAddressMux
  uninit_ping :: milliseconds

definition AF_INET :: int where "AF_INET = 2"
definition AF_INET6 :: int where "AF_INET6 = 23"
definition SOCK_DGRAM :: int where "SOCK_DGRAM = 2"
definition IPPROTO_UDP :: int where "IPPROTO_UDP = 17"
definition SOCKET_ERROR :: int where "SOCKET_ERROR = -1"
definition NO_ERROR :: int where "NO_ERROR = 0"
definition WSAEMSGSIZE :: int where "WSAEMSGSIZE = 10040"
definition WSAEWOULDBLOCK :: int where "WSAEWOULDBLOCK = 10035"
definition INVALID_SOCKET :: SOCKET where "INVALID_SOCKET = -1"
definition INADDR_ANY :: u32 where "INADDR_ANY = 0"
definition IN6ADDR_ANY_INIT :: in6_addr where "IN6ADDR_ANY_INIT = u_Word 0 0 0 0 0 0 0 0"

lemmas winsock_consts [simp] =
  SOCKET_ERROR_def WSAEMSGSIZE_def WSAEWOULDBLOCK_def

text \<open>
  Documented behaviour of \<open>recvfrom\<close> for a buffer of \<open>len \<ge> 0\<close> bytes: it stores at most
  \<open>len\<close> bytes, and returns the number stored or \<open>SOCKET_ERROR\<close>. Nothing is assumed of a
  call with a negative length.
\<close>

definition recv_result_fits :: "int \<Rightarrow> 'a recv_result \<Rightarrow> bool" where
  "recv_result_fits len r \<longleftrightarrow>
     int (length (rr_written r)) \<le> len \<and>
     (rr_result r = SOCKET_ERROR \<or> rr_result r = int (length (rr_written r)))"

definition recvfrom_documented :: "'w platform_api \<Rightarrow> bool" where
  "recvfrom_documented env \<longleftrightarrow>
     (\<forall>s len w. 0 \<le> len \<longrightarrow>
        recv_result_fits len (fst (api_recvfrom_in env s len w)) \<and>
        recv_result_fits len (fst (api_recvfrom_in6 env s len w)))"

definition byte_order_documented :: "'w platform_api \<Rightarrow> bool" where
  "byte_order_documented env \<longleftrightarrow> (\<forall>p. api_ntohs env (api_htons env p) = p)"

text \<open>
  The process: whether the global \<open>winSockReference\<close> has been created, and the state of
  the operating system.
\<close>

record 'w Process =
  winSockReference :: bool
  os :: 'w

section \<open>Namespace WinSock\<close>

definition WinSockReference_ctor :: "'w platform_api \<Rightarrow> 'w Process \<Rightarrow> 'w Process res" where
  "WinSockReference_ctor env p =
     (let (r, w) = api_WSAStartup env (os p)
      in if r \<noteq> NO_ERROR then Inl RuntimeError else Inr (p\<lparr>os := w\<rparr>))"

definition WinSockReference_dtor :: "'w platform_api \<Rightarrow> 'w Process \<Rightarrow> 'w Process" where
  "WinSockReference_dtor env p = p\<lparr>os := api_WSACleanup env (os p)\<rparr>"

text \<open>The static \<open>unique_ptr\<close> deletes its object when the process ends.\<close>

definition process_exit :: "'w platform_api \<Rightarrow> 'w Process \<Rightarrow> 'w Process" where
  "process_exit env p =
     (if winSockReference p then (WinSockReference_dtor env p)\<lparr>winSockReference := False\<rparr> else p)"

definition createSocket :: "'w platform_api \<Rightarrow> int \<Rightarrow> 'w Process \<Rightarrow> SOCKET \<times> 'w Process" where
  "createSocket env protocol p =
     (let (s, w) = api_socket env protocol SOCK_DGRAM IPPROTO_UDP (os p) in (s, p\<lparr>os := w\<rparr>))"

definition deleteSocket :: "'w platform_api \<Rightarrow> SOCKET \<Rightarrow> 'w Process \<Rightarrow> SOCKET \<times> 'w Process" where
  "deleteSocket env s p =
     (if s \<noteq> INVALID_SOCKET
      then (INVALID_SOCKET, p\<lparr>os := api_closesocket env s (os p)\<rparr>)
      else (s, p))"

definition bindSocketIPv4 ::
  "'w platform_api \<Rightarrow> SOCKET \<Rightarrow> sockaddr_in \<Rightarrow> 'w Process \<Rightarrow> bool \<times> 'w Process" where
  "bindSocketIPv4 env s address p =
     (let (r, w) = api_bind_in env s address (os p) in (r \<noteq> SOCKET_ERROR, p\<lparr>os := w\<rparr>))"

definition bindSocketIPv6 ::
  "'w platform_api \<Rightarrow> SOCKET \<Rightarrow> sockaddr_in6 \<Rightarrow> 'w Process \<Rightarrow> bool \<times> 'w Process" where
  "bindSocketIPv6 env s address p =
     (let (r, w) = api_bind_in6 env s address (os p) in (r \<noteq> SOCKET_ERROR, p\<lparr>os := w\<rparr>))"

definition setSocketOptionNonBlocking ::
  "'w platform_api \<Rightarrow> SOCKET \<Rightarrow> bool \<Rightarrow> 'w Process \<Rightarrow> bool \<times> 'w Process" where
  "setSocketOptionNonBlocking env s noBlock p =
     (let (r, w) = api_ioctlsocket_FIONBIO env s (if noBlock then 1 else 0) (os p)
      in (r \<noteq> SOCKET_ERROR, p\<lparr>os := w\<rparr>))"

definition setSocketOptionIpv6Only ::
  "'w platform_api \<Rightarrow> SOCKET \<Rightarrow> bool \<Rightarrow> 'w Process \<Rightarrow> bool \<times> 'w Process" where
  "setSocketOptionIpv6Only env s ipv6Only p =
     (let (r, w) = api_setsockopt_IPV6_V6ONLY env s (if ipv6Only then 1 else 0) (os p)
      in (r \<noteq> SOCKET_ERROR, p\<lparr>os := w\<rparr>))"

fun in_addr_of_octets :: "UdcAddressIPv4 \<Rightarrow> in_addr" where
  "in_addr_of_octets (IPv4 a b c d) = S_un_b a b c d"

definition createAddressIPv4 :: "'w platform_api \<Rightarrow> UdcAddressIPv4 \<Rightarrow> u16 \<Rightarrow> sockaddr_in" where
  "createAddressIPv4 env address port =
     \<lparr>sin_family = AF_INET, sin_port = api_htons env port, sin_addr = in_addr_of_octets address\<rparr>"

definition createAddressIPv4_u_long :: "'w platform_api \<Rightarrow> u32 \<Rightarrow> u16 \<Rightarrow> sockaddr_in" where
  "createAddressIPv4_u_long env address port =
     \<lparr>sin_family = AF_INET, sin_port = api_htons env port,
      sin_addr = S_un_b (ucast address) (ucast (drop_bit 8 address)) (ucast (drop_bit 16 address))
        (ucast (drop_bit 24 address))\<rparr>"

fun convertInaddrToIPv4 :: "in_addr \<Rightarrow> UdcAddressIPv4" where
  "convertInaddrToIPv4 (S_un_b a b c d) = IPv4 a b c d"

fun in6_addr_of_segments :: "UdcAddressIPv6 \<Rightarrow> in6_addr" where
  "in6_addr_of_segments (IPv6 a b c d e f g h) = u_Word a b c d e f g h"

definition createAddressIPv6 :: "'w platform_api \<Rightarrow> UdcAddressIPv6 \<Rightarrow> u16 \<Rightarrow> sockaddr_in6" where
  "createAddressIPv6 env address port =
     \<lparr>sin6_family = AF_INET6, sin6_port = api_htons env port, sin6_flowinfo = 0,
      sin6_addr = in6_addr_of_segments address, sin6_scope_id = 0\<rparr>"

definition createAddressIPv6_in6_addr :: "'w platform_api \<Rightarrow> in6_addr \<Rightarrow> u16 \<Rightarrow> sockaddr_in6" where
  "createAddressIPv6_in6_addr env address port =
     \<lparr>sin6_family = AF_INET6, sin6_port = api_htons env port, sin6_flowinfo = 0,
      sin6_addr = address, sin6_scope_id = 0\<rparr>"

fun convertInaddrToIPv6 :: "in6_addr \<Rightarrow> UdcAddressIPv6" where
  "convertInaddrToIPv6 (u_Word a b c d e f g h) = IPv6 a b c d e f g h"

text \<open>
  \<open>sendto\<close> reads \<open>size\<close> bytes from the data pointer. Its result counts as success when it
  is not an error and, as a \<open>uint32_t\<close>, equals the size.
\<close>

definition sendPacketIPv4 ::
  "'w platform_api \<Rightarrow> SOCKET \<Rightarrow> sockaddr_in \<Rightarrow> byte list \<Rightarrow> u32 \<Rightarrow> 'w Process
   \<Rightarrow> (bool \<times> 'w Process) res" where
  "sendPacketIPv4 env s address data dsize p =
     (if unat dsize \<le> length data
      then let (r, w) = api_sendto_in env s (take (unat dsize) data) (sint dsize) address (os p)
           in Inr (r \<noteq> SOCKET_ERROR \<and> word_of_int r = dsize, p\<lparr>os := w\<rparr>)
      else Inl BufferOverrun)"

definition sendPacketIPv6 ::
  "'w platform_api \<Rightarrow> SOCKET \<Rightarrow> sockaddr_in6 \<Rightarrow> byte list \<Rightarrow> u32 \<Rightarrow> 'w Process
   \<Rightarrow> (bool \<times> 'w Process) res" where
  "sendPacketIPv6 env s address data dsize p =
     (if unat dsize \<le> length data
      then let (r, w) = api_sendto_in6 env s (take (unat dsize) data) (sint dsize) address (os p)
           in Inr (r \<noteq> SOCKET_ERROR \<and> word_of_int r = dsize, p\<lparr>os := w\<rparr>)
      else Inl BufferOverrun)"

text \<open>
  The in-out arguments of the receive functions, together with their return code: 1 on
  success, 0 when no message is left, -1 when the message was truncated, -2 on any other
  error. \<open>rv_size\<close> is the reference argument \<open>size\<close> after the call.
\<close>

record 'a received =
  rv_code :: int
  rv_address :: 'a
  rv_port :: u16
  rv_buffer :: "byte list"
  rv_size :: u32

definition receivePacketIPv4 ::
  "'w platform_api \<Rightarrow> SOCKET \<Rightarrow> UdcAddressIPv4 \<Rightarrow> u16 \<Rightarrow> byte list \<Rightarrow> u32 \<Rightarrow> 'w Process
   \<Rightarrow> (UdcAddressIPv4 received \<times> 'w Process) res" where
  "receivePacketIPv4 env s sourceIP sourcePort buffer bsize p =
     (let (r, w) = api_recvfrom_in env s (sint bsize) (os p); p1 = p\<lparr>os := w\<rparr>;
          fromIP = convertInaddrToIPv4 (sin_addr (rr_from r));
          fromPort = api_ntohs env (sin_port (rr_from r))
      in bind_r (memcpy buffer 0 (rr_written r) 0 (length (rr_written r))) (\<lambda>buffer1.
           if rr_result r = 0 then
             Inr (\<lparr>rv_code = -2, rv_address = sourceIP, rv_port = sourcePort,
                   rv_buffer = buffer1, rv_size = bsize\<rparr>, p1)
           else if rr_result r = SOCKET_ERROR then
             if rr_error r = WSAEMSGSIZE then
               Inr (\<lparr>rv_code = -1, rv_address = fromIP, rv_port = fromPort,
                     rv_buffer = buffer1, rv_size = word_of_int (rr_result r)\<rparr>, p1)
             else if rr_error r = WSAEWOULDBLOCK then
               Inr (\<lparr>rv_code = 0, rv_address = sourceIP, rv_port = sourcePort,
                     rv_buffer = buffer1, rv_size = bsize\<rparr>, p1)
             else
               Inr (\<lparr>rv_code = -2, rv_address = sourceIP, rv_port = sourcePort,
                     rv_buffer = buffer1, rv_size = bsize\<rparr>, p1)
           else
             assert_r (rr_result r \<le> sint bsize)
               (Inr (\<lparr>rv_code = 1, rv_address = fromIP, rv_port = fromPort,
                      rv_buffer = buffer1, rv_size = word_of_int (rr_result r)\<rparr>, p1))))"

definition receivePacketIPv6 ::
  "'w platform_api \<Rightarrow> SOCKET \<Rightarrow> UdcAddressIPv6 \<Rightarrow> u16 \<Rightarrow> byte list \<Rightarrow> u32 \<Rightarrow> 'w Process
   \<Rightarrow> (UdcAddressIPv6 received \<times> 'w Process) res" where
  "receivePacketIPv6 env s sourceIP sourcePort buffer bsize p =
     (let (r, w) = api_recvfrom_in6 env s (sint bsize) (os p); p1 = p\<lparr>os := w\<rparr>;
          fromIP = convertInaddrToIPv6 (sin6_addr (rr_from r));
          fromPort = api_ntohs env (sin6_port (rr_from r))
      in bind_r (memcpy buffer 0 (rr_written r) 0 (length (rr_written r))) (\<lambda>buffer1.
           if rr_result r = 0 then
             Inr (\<lparr>rv_code = -2, rv_address = sourceIP, rv_port = sourcePort,
                   rv_buffer = buffer1, rv_size = bsize\<rparr>, p1)
           else if rr_result r = SOCKET_ERROR then
             if rr_error r = WSAEMSGSIZE then
               Inr (\<lparr>rv_code = -1, rv_address = fromIP, rv_port = fromPort,
                     rv_buffer = buffer1, rv_size = word_of_int (rr_result r)\<rparr>, p1)
             else if rr_error r = WSAEWOULDBLOCK then
               Inr (\<lparr>rv_code = 0, rv_address = sourceIP, rv_port = sourcePort,
                     rv_buffer = buffer1, rv_size = bsize\<rparr>, p1)
             else
               Inr (\<lparr>rv_code = -2, rv_address = sourceIP, rv_port = sourcePort,
                     rv_buffer = buffer1, rv_size = bsize\<rparr>, p1)
           else
             assert_r (rr_result r \<le> sint bsize)
               (Inr (\<lparr>rv_code = 1, rv_address = fromIP, rv_port = fromPort,
                      rv_buffer = buffer1, rv_size = word_of_int (rr_result r)\<rparr>, p1))))"

section \<open>Class UdcSocket\<close>

record UdcSocket =
  us_socket :: SOCKET

definition UdcSocket_ctor :: "'w platform_api \<Rightarrow> 'w Process \<Rightarrow> (UdcSocket \<times> 'w Process) res" where
  "UdcSocket_ctor env p =
     (if \<not> winSockReference p
      then bind_r (WinSockReference_ctor env p)
             (\<lambda>p1. Inr (\<lparr>us_socket = INVALID_SOCKET\<rparr>, p1\<lparr>winSockReference := True\<rparr>))
      else Inr (\<lparr>us_socket = INVALID_SOCKET\<rparr>, p))"

definition UdcSocket_isConnected :: "UdcSocket \<Rightarrow> bool" where
  "UdcSocket_isConnected s \<longleftrightarrow> us_socket s \<noteq> INVALID_SOCKET"

text \<open>The loops over the list that \<open>getaddrinfo\<close> returns.\<close>

fun first_IPv6 :: "'w platform_api \<Rightarrow> addrinfo list \<Rightarrow> (UdcAddressIPv6 \<times> u16) option" where
  "first_IPv6 env [] = None"
| "first_IPv6 env (a # as) =
     (if ai_socktype a \<noteq> SOCK_DGRAM \<or> ai_protocol a \<noteq> IPPROTO_UDP then first_IPv6 env as
      else if ai_family a = AF_INET6
        then Some (convertInaddrToIPv6 (sin6_addr (ai_addr_in6 a)),
                   api_ntohs env (sin6_port (ai_addr_in6 a)))
      else first_IPv6 env as)"

fun first_IPv4 :: "'w platform_api \<Rightarrow> addrinfo list \<Rightarrow> (UdcAddressIPv4 \<times> u16) option" where
  "first_IPv4 env [] = None"
| "first_IPv4 env (a # as) =
     (if ai_socktype a \<noteq> SOCK_DGRAM \<or> ai_protocol a \<noteq> IPPROTO_UDP then first_IPv4 env as
      else if ai_family a = AF_INET
        then Some (convertInaddrToIPv4 (sin_addr (ai_addr_in a)),
                   api_ntohs env (sin_port (ai_addr_in a)))
      else first_IPv4 env as)"

text \<open>
  The static functions \<open>stringToIPv6\<close> and \<open>stringToIPv4\<close> catch the exception of the
  WinSock start-up; \<open>None\<close> is the return value \<open>false\<close>, with the outputs untouched.
\<close>

definition ensure_WinSock :: "'w platform_api \<Rightarrow> 'w Process \<Rightarrow> bool \<times> 'w Process" where
  "ensure_WinSock env p =
     (if winSockReference p then (True, p)
      else let (r, w) = api_WSAStartup env (os p)
           in (r = NO_ERROR, p\<lparr>winSockReference := (r = NO_ERROR), os := w\<rparr>))"

definition stringToIPv6 ::
  "'w platform_api \<Rightarrow> string \<Rightarrow> string \<Rightarrow> 'w Process \<Rightarrow> (UdcAddressIPv6 \<times> u16) option \<times> 'w Process"
  where
  "stringToIPv6 env nodeName serviceName p =
     (let (started, p1) = ensure_WinSock env p
      in if \<not> started then (None, p1)
         else let ((r, addressList), w) =
                    api_getaddrinfo env nodeName serviceName AF_INET6 SOCK_DGRAM IPPROTO_UDP (os p1);
                  p2 = p1\<lparr>os := w\<rparr>
              in if r \<noteq> 0 then (None, p2) else (first_IPv6 env addressList, p2))"

definition stringToIPv4 ::
  "'w platform_api \<Rightarrow> string \<Rightarrow> string \<Rightarrow> 'w Process \<Rightarrow> (UdcAddressIPv4 \<times> u16) option \<times> 'w Process"
  where
  "stringToIPv4 env nodeName serviceName p =
     (let (started, p1) = ensure_WinSock env p
      in if \<not> started then (None, p1)
         else let ((r, addressList), w) =
                    api_getaddrinfo env nodeName serviceName AF_INET SOCK_DGRAM IPPROTO_UDP (os p1);
                  p2 = p1\<lparr>os := w\<rparr>
              in if r \<noteq> 0 then (None, p2) else (first_IPv4 env addressList, p2))"

definition remoteConnectIPv4 ::
  "'w platform_api \<Rightarrow> UdcSocket \<Rightarrow> 'w Process \<Rightarrow> bool \<times> UdcSocket \<times> 'w Process" where
  "remoteConnectIPv4 env sock p =
     (let (s, p1) = createSocket env AF_INET p
      in if s = INVALID_SOCKET then (False, sock, p1) else (True, sock\<lparr>us_socket := s\<rparr>, p1))"

definition remoteConnectIPv6 ::
  "'w platform_api \<Rightarrow> UdcSocket \<Rightarrow> 'w Process \<Rightarrow> bool \<times> UdcSocket \<times> 'w Process" where
  "remoteConnectIPv6 env sock p =
     (let (s, p1) = createSocket env AF_INET6 p
      in if s = INVALID_SOCKET then (False, sock, p1) else (True, sock\<lparr>us_socket := s\<rparr>, p1))"

definition localBindIPv4 ::
  "'w platform_api \<Rightarrow> u16 \<Rightarrow> UdcSocket \<Rightarrow> 'w Process \<Rightarrow> bool \<times> UdcSocket \<times> 'w Process" where
  "localBindIPv4 env localPort sock p =
     (let (s, p1) = createSocket env AF_INET p
      in if s = INVALID_SOCKET then (False, sock, p1)
         else let (nonBlocking, p2) = setSocketOptionNonBlocking env s True p1
              in if \<not> nonBlocking then (False, sock, snd (deleteSocket env s p2))
                 else let (bound, p3) =
                            bindSocketIPv4 env s (createAddressIPv4_u_long env INADDR_ANY localPort) p2
                      in if \<not> bound then (False, sock, snd (deleteSocket env s p3))
                         else (True, sock\<lparr>us_socket := s\<rparr>, p3))"

definition localBindIPv6 ::
  "'w platform_api \<Rightarrow> u16 \<Rightarrow> bool \<Rightarrow> UdcSocket \<Rightarrow> 'w Process \<Rightarrow> bool \<times> UdcSocket \<times> 'w Process" where
  "localBindIPv6 env localPort allowIPv4 sock p =
     (let (s, p1) = createSocket env AF_INET6 p
      in if s = INVALID_SOCKET then (False, sock, p1)
         else let (nonBlocking, p2) = setSocketOptionNonBlocking env s True p1
              in if \<not> nonBlocking then (False, sock, snd (deleteSocket env s p2))
                 else let (dual, p3) =
                            (if allowIPv4 then setSocketOptionIpv6Only env s False p2 else (True, p2))
                      in if \<not> dual then (False, sock, snd (deleteSocket env s p3))
                         else let (bound, p4) =
                                    bindSocketIPv6 env s
                                      (createAddressIPv6_in6_addr env IN6ADDR_ANY_INIT localPort) p3
                              in if \<not> bound then (False, sock, snd (deleteSocket env s p4))
                                 else (True, sock\<lparr>us_socket := s\<rparr>, p4))"

definition UdcSocket_disconnect ::
  "'w platform_api \<Rightarrow> UdcSocket \<Rightarrow> 'w Process \<Rightarrow> UdcSocket \<times> 'w Process" where
  "UdcSocket_disconnect env sock p =
     (let (s, p1) = deleteSocket env (us_socket sock) p in (sock\<lparr>us_socket := s\<rparr>, p1))"

definition sendIPv4 ::
  "'w platform_api \<Rightarrow> UdcSocket \<Rightarrow> UdcAddressIPv4 \<Rightarrow> u16 \<Rightarrow> byte list \<Rightarrow> u32 \<Rightarrow> 'w Process
   \<Rightarrow> (bool \<times> 'w Process) res" where
  "sendIPv4 env sock address port data dsize p =
     (if us_socket sock = INVALID_SOCKET then Inr (False, p)
      else sendPacketIPv4 env (us_socket sock) (createAddressIPv4 env address port) data dsize p)"

definition sendIPv6 ::
  "'w platform_api \<Rightarrow> UdcSocket \<Rightarrow> UdcAddressIPv6 \<Rightarrow> u16 \<Rightarrow> byte list \<Rightarrow> u32 \<Rightarrow> 'w Process
   \<Rightarrow> (bool \<times> 'w Process) res" where
  "sendIPv6 env sock address port data dsize p =
     (if us_socket sock = INVALID_SOCKET then Inr (False, p)
      else sendPacketIPv6 env (us_socket sock) (createAddressIPv6 env address port) data dsize p)"

definition receiveIPv4 ::
  "'w platform_api \<Rightarrow> UdcSocket \<Rightarrow> UdcAddressIPv4 \<Rightarrow> u16 \<Rightarrow> byte list \<Rightarrow> u32 \<Rightarrow> 'w Process
   \<Rightarrow> (UdcAddressIPv4 received \<times> 'w Process) res" where
  "receiveIPv4 env sock sourceIP port buffer bsize p =
     (if us_socket sock = INVALID_SOCKET
      then Inr (\<lparr>rv_code = -2, rv_address = sourceIP, rv_port = port, rv_buffer = buffer,
                 rv_size = bsize\<rparr>, p)
      else receivePacketIPv4 env (us_socket sock) sourceIP port buffer bsize p)"

definition receiveIPv6 ::
  "'w platform_api \<Rightarrow> UdcSocket \<Rightarrow> UdcAddressIPv6 \<Rightarrow> u16 \<Rightarrow> byte list \<Rightarrow> u32 \<Rightarrow> 'w Process
   \<Rightarrow> (UdcAddressIPv6 received \<times> 'w Process) res" where
  "receiveIPv6 env sock sourceIP port buffer bsize p =
     (if us_socket sock = INVALID_SOCKET
      then Inr (\<lparr>rv_code = -2, rv_address = sourceIP, rv_port = port, rv_buffer = buffer,
                 rv_size = bsize\<rparr>, p)
      else receivePacketIPv6 env (us_socket sock) sourceIP port buffer bsize p)"

section \<open>What the layer guarantees\<close>

text \<open>A receive size is usable for a buffer when it is non-negative as an \<open>int\<close> and fits.\<close>

definition fits :: "u32 \<Rightarrow> byte list \<Rightarrow> bool" where
  "fits bsize buffer \<longleftrightarrow> 0 \<le> sint bsize \<and> unat bsize \<le> length buffer"

text \<open>An operating system that answers a negative length with an error and stores nothing.\<close>

definition recvfrom_rejects_negative :: "'w platform_api \<Rightarrow> bool" where
  "recvfrom_rejects_negative env \<longleftrightarrow>
     (\<forall>s len w. len < 0 \<longrightarrow>
        rr_result (fst (api_recvfrom_in env s len w)) = SOCKET_ERROR \<and>
        rr_written (fst (api_recvfrom_in env s len w)) = [] \<and>
        rr_result (fst (api_recvfrom_in6 env s len w)) = SOCKET_ERROR \<and>
        rr_written (fst (api_recvfrom_in6 env s len w)) = [])"

definition size_usable :: "'w platform_api \<Rightarrow> u32 \<Rightarrow> byte list \<Rightarrow> bool" where
  "size_usable env bsize buffer \<longleftrightarrow>
     fits bsize buffer \<or> (bsize = -1 \<and> recvfrom_rejects_negative env)"

definition received_ok :: "byte list \<Rightarrow> u32 \<Rightarrow> 'a received \<Rightarrow> bool" where
  "received_ok buffer bsize v \<longleftrightarrow>
     length (rv_buffer v) = length buffer \<and>
     (rv_code v = 1 \<longrightarrow> 0 < unat (rv_size v) \<and> unat (rv_size v) \<le> unat bsize \<and>
        fits (rv_size v) buffer \<and> fits bsize buffer) \<and>
     (rv_code v \<noteq> 1 \<longrightarrow> rv_size v = bsize \<or> rv_size v = -1)"

lemma fits_iff: "fits bsize buffer \<longleftrightarrow> unat bsize < 2147483648 \<and> unat bsize \<le> length buffer"
  by (simp add: fits_def sint_nonneg_iff32)

lemma not_fits_minus_1 [simp]: "\<not> fits (-1) buffer"
  by (simp add: fits_def)

lemma fits_length_cong: "length buf' = length buf \<Longrightarrow> fits n buf' = fits n buf"
  by (simp add: fits_def)

lemma size_usable_length_cong: "length buf' = length buf \<Longrightarrow> size_usable env n buf' = size_usable env n buf"
  by (simp add: size_usable_def fits_def)

text \<open>A successful result, read back as the \<open>uint32_t\<close> size.\<close>

lemma result_as_size:
  assumes "0 < n" and "n \<le> unat bsize" and "fits bsize buffer"
  shows "unat (word_of_int (int n) :: u32) = n" and "fits (word_of_int (int n)) buffer"
proof -
  have n: "n < 4294967296" and n31: "n < 2147483648"
    using assms unfolding fits_iff by linarith+
  from n show eq: "unat (word_of_int (int n) :: u32) = n" by (rule unat_word_of_int32)
  show "fits (word_of_int (int n)) buffer"
    using assms n31 eq unfolding fits_iff by linarith
qed

lemma recv_result_size:
  assumes "recv_result_fits (sint bsize) r" and "fits bsize buffer"
  shows "length (rr_written r) \<le> unat bsize" and "length (rr_written r) \<le> length buffer"
proof -
  have "sint bsize = int (unat bsize)" using assms(2) by (intro sint_cases32) (simp add: fits_iff)
  with assms(1) have "int (length (rr_written r)) \<le> int (unat bsize)"
    unfolding recv_result_fits_def by simp
  then show w: "length (rr_written r) \<le> unat bsize" by (simp only: of_nat_le_iff)
  with assms(2) show "length (rr_written r) \<le> length buffer" unfolding fits_iff by linarith
qed

text \<open>What the two packet receivers do with a result of \<open>recvfrom\<close>, once for both.\<close>

definition receive_outcome ::
  "'b recv_result \<Rightarrow> 'a \<Rightarrow> u16 \<Rightarrow> 'a \<Rightarrow> u16 \<Rightarrow> byte list \<Rightarrow> u32 \<Rightarrow> 'a received res" where
  "receive_outcome r fromIP fromPort sourceIP sourcePort buffer bsize =
     bind_r (memcpy buffer 0 (rr_written r) 0 (length (rr_written r))) (\<lambda>buffer1.
       if rr_result r = SOCKET_ERROR \<and> rr_error r = WSAEMSGSIZE then
         Inr \<lparr>rv_code = -1, rv_address = fromIP, rv_port = fromPort,
              rv_buffer = buffer1, rv_size = word_of_int (rr_result r)\<rparr>
       else if rr_result r = SOCKET_ERROR \<or> rr_result r = 0 then
         Inr \<lparr>rv_code = (if rr_result r = SOCKET_ERROR \<and> rr_error r = WSAEWOULDBLOCK then 0 else -2),
              rv_address = sourceIP, rv_port = sourcePort, rv_buffer = buffer1, rv_size = bsize\<rparr>
       else assert_r (rr_result r \<le> sint bsize)
         (Inr \<lparr>rv_code = 1, rv_address = fromIP, rv_port = fromPort,
               rv_buffer = buffer1, rv_size = word_of_int (rr_result r)\<rparr>))"

lemma receivePacketIPv4_outcome:
  "receivePacketIPv4 env s a port buffer bsize p =
     (let (r, w) = api_recvfrom_in env s (sint bsize) (os p)
      in bind_r (receive_outcome r (convertInaddrToIPv4 (sin_addr (rr_from r)))
                   (api_ntohs env (sin_port (rr_from r))) a port buffer bsize)
           (\<lambda>v. Inr (v, p\<lparr>os := w\<rparr>)))"
  by (cases "api_recvfrom_in env s (sint bsize) (os p)")
    (simp add: receivePacketIPv4_def receive_outcome_def bind_r_def assert_r_def Let_def
      split: sum.splits)

lemma receivePacketIPv6_outcome:
  "receivePacketIPv6 env s a port buffer bsize p =
     (let (r, w) = api_recvfrom_in6 env s (sint bsize) (os p)
      in bind_r (receive_outcome r (convertInaddrToIPv6 (sin6_addr (rr_from r)))
                   (api_ntohs env (sin6_port (rr_from r))) a port buffer bsize)
           (\<lambda>v. Inr (v, p\<lparr>os := w\<rparr>)))"
  by (cases "api_recvfrom_in6 env s (sint bsize) (os p)")
    (simp add: receivePacketIPv6_def receive_outcome_def bind_r_def assert_r_def Let_def
      split: sum.splits)

lemma receive_outcome_ok:
  assumes "fits bsize buffer \<Longrightarrow> recv_result_fits (sint bsize) r"
    and "\<not> fits bsize buffer \<Longrightarrow> bsize = -1 \<and> rr_result r = SOCKET_ERROR \<and> rr_written r = []"
  shows "ok_r (receive_outcome r a1 p1 a0 p0 buffer bsize) (received_ok buffer bsize)"
proof (cases "fits bsize buffer")
  case True
  note doc = assms(1) [OF True]
  note len = recv_result_size [OF doc True]
  show ?thesis
  proof (cases "rr_result r = 0 \<or> rr_result r = -1")
    case True
    with len show ?thesis by (auto simp: receive_outcome_def memcpy_def received_ok_def)
  next
    case False
    with doc have n: "rr_result r = int (length (rr_written r))" "0 < length (rr_written r)"
      by (auto simp: recv_result_fits_def)
    note sz = result_as_size [OF n(2) len(1) True]
    have "rr_result r \<le> sint bsize" using doc n by (simp add: recv_result_fits_def)
    with False n len sz \<open>fits bsize buffer\<close> show ?thesis
      by (simp add: receive_outcome_def memcpy_def received_ok_def)
  qed
next
  case False
  from assms(2) [OF this] show ?thesis
    by (simp add: receive_outcome_def memcpy_def received_ok_def write_at_def)
qed

lemma recvfrom_usable:
  assumes "recvfrom_documented env" and "size_usable env bsize buffer"
  shows "fits bsize buffer \<Longrightarrow> recv_result_fits (sint bsize) (fst (api_recvfrom_in env s (sint bsize) w))"
    and "fits bsize buffer \<Longrightarrow> recv_result_fits (sint bsize) (fst (api_recvfrom_in6 env s (sint bsize) w))"
    and "\<not> fits bsize buffer \<Longrightarrow> bsize = -1 \<and>
           rr_result (fst (api_recvfrom_in env s (sint bsize) w)) = SOCKET_ERROR \<and>
           rr_written (fst (api_recvfrom_in env s (sint bsize) w)) = []"
    and "\<not> fits bsize buffer \<Longrightarrow> bsize = -1 \<and>
           rr_result (fst (api_recvfrom_in6 env s (sint bsize) w)) = SOCKET_ERROR \<and>
           rr_written (fst (api_recvfrom_in6 env s (sint bsize) w)) = []"
  using assms
  by (auto simp: recvfrom_documented_def size_usable_def fits_def recvfrom_rejects_negative_def)

lemma received_ok_unchanged [simp]:
  "received_ok buffer bsize \<lparr>rv_code = -2, rv_address = a, rv_port = q, rv_buffer = buffer, rv_size = bsize\<rparr>"
  by (simp add: received_ok_def)

lemma receiveIPv4_ok:
  assumes "recvfrom_documented env" and "size_usable env bsize buffer"
  shows "ok_r (receiveIPv4 env sock a port buffer bsize p) (\<lambda>(v, p'). received_ok buffer bsize v)"
proof -
  note doc = recvfrom_usable [OF assms]
  have out: "ok_r (receive_outcome (fst (api_recvfrom_in env h (sint bsize) w)) a1 p1 a0 p0 buffer bsize)
      (received_ok buffer bsize)" for h w p1 p0 and a1 a0 :: UdcAddressIPv4
    by (intro receive_outcome_ok doc; assumption)
  show ?thesis
    using out [of "us_socket sock" "os p"]
    by (cases "api_recvfrom_in env (us_socket sock) (sint bsize) (os p)")
      (simp add: receiveIPv4_def receivePacketIPv4_outcome)
qed

lemma receiveIPv6_ok:
  assumes "recvfrom_documented env" and "size_usable env bsize buffer"
  shows "ok_r (receiveIPv6 env sock a port buffer bsize p) (\<lambda>(v, p'). received_ok buffer bsize v)"
proof -
  note doc = recvfrom_usable [OF assms]
  have out: "ok_r (receive_outcome (fst (api_recvfrom_in6 env h (sint bsize) w)) a1 p1 a0 p0 buffer bsize)
      (received_ok buffer bsize)" for h w p1 p0 and a1 a0 :: UdcAddressIPv6
    by (intro receive_outcome_ok doc; assumption)
  show ?thesis
    using out [of "us_socket sock" "os p"]
    by (cases "api_recvfrom_in6 env (us_socket sock) (sint bsize) (os p)")
      (simp add: receiveIPv6_def receivePacketIPv6_outcome)
qed

lemma sendIPv4_ok:
  "unat n \<le> length data \<Longrightarrow> ok_r (sendIPv4 env sock a port data n p) (\<lambda>_. True)"
  by (simp add: sendIPv4_def sendPacketIPv4_def split: prod.split)

lemma sendIPv6_ok:
  "unat n \<le> length data \<Longrightarrow> ok_r (sendIPv6 env sock a port data n p) (\<lambda>_. True)"
  by (simp add: sendIPv6_def sendPacketIPv6_def split: prod.split)

end
