(* ===== verification/Logger.thy ===== *)
theory Logger
  imports Address
begin

text \<open>
  The packet log, \<open>include/UdcPacketLogger.h\<close> and \<open>src/UdcPacketLogger.cpp\<close>. A logger is the
  text its file holds; the four \<open>log...\<close> member functions append one line each. The
  stream manipulators of the source (\<open>dec\<close>, \<open>hex\<close>, \<open>uppercase\<close>, \<open>setfill\<close>, \<open>setw\<close>) are
  given again before every number, so each insertion is a function of its argument.
\<close>

section \<open>Number formatting\<close>

definition digit_char :: "nat \<Rightarrow> char" where
  "digit_char d = ''0123456789ABCDEF'' ! (d mod 16)"

fun num_string :: "nat \<Rightarrow> nat \<Rightarrow> string" where
  "num_string base n =
     (if base < 2 \<or> n < base then [digit_char n]
      else num_string base (n div base) @ [digit_char (n mod base)])"

declare num_string.simps [simp del]

definition dec_string :: "nat \<Rightarrow> string" where
  "dec_string n = num_string 10 n"

text \<open>\<open>setfill('0') << setw(w) << right\<close>: pad on the left with zeros up to the width.\<close>

definition setw_zero :: "nat \<Rightarrow> string \<Rightarrow> string" where
  "setw_zero w s = replicate (w - length s) (CHR ''0'') @ s"

definition hex_string :: "nat \<Rightarrow> nat \<Rightarrow> string" where
  "hex_string w n = setw_zero w (num_string 16 n)"

section \<open>Log lines\<close>

definition log_octets :: "UdcAddressIPv4 \<Rightarrow> string" where
  "log_octets a = concat (map (\<lambda>byte. dec_string (unat byte) @ ''.'') (octets a))"

definition log_segments :: "string \<Rightarrow> UdcAddressIPv6 \<Rightarrow> string" where
  "log_segments sep a = concat (map (\<lambda>segment. hex_string 4 (unat segment) @ sep) (segments a))"

definition log_port :: "u16 \<Rightarrow> string" where
  "log_port port = '':'' @ dec_string (unat port) @ '' ''"

definition log_data :: "byte list \<Rightarrow> u32 \<Rightarrow> string" where
  "log_data data dsize =
     concat (map (\<lambda>b. hex_string 2 (unat b) @ '' '') (take (unat dsize) data))"

text \<open>Reading \<open>data[i]\<close> for every \<open>i\<close> below \<open>dsize\<close> is defined when the memory is that long.\<close>

definition log_line :: "string \<Rightarrow> string \<Rightarrow> u16 \<Rightarrow> byte list \<Rightarrow> u32 \<Rightarrow> string \<Rightarrow> string res" where
  "log_line prefix addr port data dsize m_file =
     (if unat dsize \<le> length data
      then Inr (m_file @ prefix @ addr @ log_port port @ log_data data dsize @ [CHR 0x0A])
      else Inl BufferOverrun)"

definition UdcPacketLogger_ctor :: "bool \<Rightarrow> string res" where
  "UdcPacketLogger_ctor is_open = (if is_open then Inr (''Log Start'' @ [CHR 0x0A]) else Inl RuntimeError)"

definition logReceivedIPv4 :: "UdcAddressIPv4 \<Rightarrow> u16 \<Rightarrow> byte list \<Rightarrow> u32 \<Rightarrow> string \<Rightarrow> string res" where
  "logReceivedIPv4 address port data dsize m_file =
     log_line ''RECV IPV4 '' (log_octets address) port data dsize m_file"

definition logReceivedIPv6 :: "UdcAddressIPv6 \<Rightarrow> u16 \<Rightarrow> byte list \<Rightarrow> u32 \<Rightarrow> string \<Rightarrow> string res" where
  "logReceivedIPv6 address port data dsize m_file =
     log_line ''RECV IPV6 '' (log_segments '':'' address) port data dsize m_file"

definition logSentIPv4 :: "UdcAddressIPv4 \<Rightarrow> u16 \<Rightarrow> byte list \<Rightarrow> u32 \<Rightarrow> string \<Rightarrow> string res" where
  "logSentIPv4 address port data dsize m_file =
     log_line ''SEND IPV4 '' (log_octets address) port data dsize m_file"

definition logSentIPv6 :: "UdcAddressIPv6 \<Rightarrow> u16 \<Rightarrow> byte list \<Rightarrow> u32 \<Rightarrow> string \<Rightarrow> string res" where
  "logSentIPv6 address port data dsize m_file =
     log_line ''SEND IPV6 '' (log_segments ''.'' address) port data dsize m_file"

lemmas log_defs = logReceivedIPv4_def logReceivedIPv6_def logSentIPv4_def logSentIPv6_def

lemma log_ok:
  assumes "unat dsize \<le> length data"
  shows "\<exists>l. logReceivedIPv4 a4 port data dsize f = Inr (f @ l)"
    and "\<exists>l. logReceivedIPv6 a6 port data dsize f = Inr (f @ l)"
    and "\<exists>l. logSentIPv4 a4 port data dsize f = Inr (f @ l)"
    and "\<exists>l. logSentIPv6 a6 port data dsize f = Inr (f @ l)"
  using assms by (simp_all add: log_defs log_line_def)

section \<open>Reading the hexadecimal dump back\<close>

fun hex_digit_value :: "char \<Rightarrow> nat" where
  "hex_digit_value ch =
     (if ch \<in> set ''0123456789'' then of_char ch - 48 else of_char ch - 55)"

fun read_dump :: "string \<Rightarrow> byte list" where
  "read_dump (h # l # sp # rest) =
     of_nat (16 * hex_digit_value h + hex_digit_value l) # read_dump rest"
| "read_dump _ = []"

lemma hex_digit_value_digit_char: "d < 16 \<Longrightarrow> hex_digit_value (digit_char d) = d"
proof -
  assume "d < 16"
  then have "d \<in> set [0..<16]" by simp
  moreover have "list_all (\<lambda>d. hex_digit_value (digit_char d) = d) [0..<16]"
    by (simp add: upt_rec digit_char_def)
  ultimately show ?thesis by (simp add: list_all_iff)
qed

lemma hex_string_two: "n < 256 \<Longrightarrow> hex_string 2 n = [digit_char (n div 16), digit_char (n mod 16)]"
proof (cases "n < 16")
  case True
  then show ?thesis by (simp add: hex_string_def setw_zero_def num_string.simps digit_char_def)
next
  case False
  assume n: "n < 256"
  from False n have "n div 16 < 16" "\<not> n div 16 < 1" by auto
  with False show ?thesis
    by (simp add: hex_string_def setw_zero_def num_string.simps [of 16 n]
        num_string.simps [of 16 "n div 16"])
qed

lemma read_dump_log_data: "unat dsize \<le> length data \<Longrightarrow> read_dump (log_data data dsize) = take (unat dsize) data"
proof -
  have "read_dump (concat (map (\<lambda>b. hex_string 2 (unat b) @ '' '') bs)) = bs" for bs :: "byte list"
  proof (induction bs)
    case (Cons b bs)
    have "unat b < 256" using unsigned_less [of b] by simp
    then show ?case
      using Cons by (simp add: hex_string_two hex_digit_value_digit_char del: hex_digit_value.simps)
  qed simp
  then show ?thesis by (simp add: log_data_def)
qed

section \<open>Properties\<close>

text \<open>C40. Logging a packet appends one line to the log and keeps everything already there; the line
  ends in a hexadecimal dump that reads back as exactly the bytes sent or received, whatever
  they are.\<close>

theorem packet_log_dump_roundtrip:
  assumes "unat dsize \<le> length data"
  shows "\<exists>head dump. read_dump dump = take (unat dsize) data \<and>
     logSentIPv4 a4 port data dsize f = Inr (f @ ''SEND IPV4 '' @ log_octets a4 @ head @ dump @ [CHR 0x0A]) \<and>
     logReceivedIPv4 a4 port data dsize f = Inr (f @ ''RECV IPV4 '' @ log_octets a4 @ head @ dump @ [CHR 0x0A]) \<and>
     (\<exists>s6. logSentIPv6 a6 port data dsize f = Inr (f @ ''SEND IPV6 '' @ s6 @ head @ dump @ [CHR 0x0A])) \<and>
     (\<exists>r6. logReceivedIPv6 a6 port data dsize f = Inr (f @ ''RECV IPV6 '' @ r6 @ head @ dump @ [CHR 0x0A]))"
  using assms read_dump_log_data [OF assms]
  by (intro exI [of _ "log_port port"] exI [of _ "log_data data dsize"])
    (simp add: log_defs log_line_def)

theorem packet_log_dump_roundtrip_witness:
  "\<exists>head dump. read_dump dump = take (unat (2 :: u32)) [0x0F, 0xA0] \<and>
     logSentIPv4 (IPv4 1 2 3 4) 80 [0x0F, 0xA0] 2 ''x'' =
       Inr (''x'' @ ''SEND IPV4 '' @ log_octets (IPv4 1 2 3 4) @ head @ dump @ [CHR 0x0A]) \<and>
     logReceivedIPv4 (IPv4 1 2 3 4) 80 [0x0F, 0xA0] 2 ''x'' =
       Inr (''x'' @ ''RECV IPV4 '' @ log_octets (IPv4 1 2 3 4) @ head @ dump @ [CHR 0x0A]) \<and>
     (\<exists>s6. logSentIPv6 (IPv6 1 2 3 4 5 6 7 8) 80 [0x0F, 0xA0] 2 ''x'' =
       Inr (''x'' @ ''SEND IPV6 '' @ s6 @ head @ dump @ [CHR 0x0A])) \<and>
     (\<exists>r6. logReceivedIPv6 (IPv6 1 2 3 4 5 6 7 8) 80 [0x0F, 0xA0] 2 ''x'' =
       Inr (''x'' @ ''RECV IPV6 '' @ r6 @ head @ dump @ [CHR 0x0A]))"
  by (rule packet_log_dump_roundtrip) simp

end
