(* ===== verification/SocketMux.thy ===== *)
theory SocketMux
  imports Platform Logger
begin

text \<open>
  The socket multiplexer, \<open>include/UdcSocketMux.h\<close> and \<open>src/UdcSocketMux.cpp\<close>: the bound IPv4
  and IPv6 sockets and the optional packet log. Receiving polls every IPv6 socket and
  then every IPv4 socket, in the order they were bound; sending uses the first socket of
  the address family.
\<close>

text \<open>\<open>m_logger\<close> is the logger behind the \<open>unique_ptr\<close>, that is the text of its file.\<close>

record UdcSocketMux =
  m_socketIPv4 :: "UdcSocket list"
  m_socketIPv6 :: "UdcSocket list"
  m_logger :: "string option"

section \<open>Construction, binding, disconnecting\<close>

definition UdcSocketMux_ctor :: UdcSocketMux where
  "UdcSocketMux_ctor = \<lparr>m_socketIPv4 = [], m_socketIPv6 = [], m_logger = None\<rparr>"

definition UdcSocketMux_ctor_log :: "'w platform_api \<Rightarrow> string \<Rightarrow> UdcSocketMux" where
  "UdcSocketMux_ctor_log env logFileName =
     (case UdcPacketLogger_ctor (file_opens env logFileName) of
        Inl e \<Rightarrow> UdcSocketMux_ctor
      | Inr logger \<Rightarrow> UdcSocketMux_ctor\<lparr>m_logger := Some logger\<rparr>)"

definition mux_tryBindIPv4 ::
  "'w platform_api \<Rightarrow> u16 \<Rightarrow> UdcSocketMux \<Rightarrow> 'w Process \<Rightarrow> (bool \<times> UdcSocketMux \<times> 'w Process) res" where
  "mux_tryBindIPv4 env port mux p =
     bind_r (UdcSocket_ctor env p) (\<lambda>(sock, p1).
       let (bound, sock1, p2) = localBindIPv4 env port sock p1
       in if bound then Inr (True, mux\<lparr>m_socketIPv4 := m_socketIPv4 mux @ [sock1]\<rparr>, p2)
          else Inr (False, mux, p2))"

definition mux_tryBindIPv6 ::
  "'w platform_api \<Rightarrow> u16 \<Rightarrow> UdcSocketMux \<Rightarrow> 'w Process \<Rightarrow> (bool \<times> UdcSocketMux \<times> 'w Process) res" where
  "mux_tryBindIPv6 env port mux p =
     bind_r (UdcSocket_ctor env p) (\<lambda>(sock, p1).
       let (bound, sock1, p2) = localBindIPv6 env port False sock p1
       in if bound then Inr (True, mux\<lparr>m_socketIPv6 := m_socketIPv6 mux @ [sock1]\<rparr>, p2)
          else Inr (False, mux, p2))"

fun disconnect_all :: "'w platform_api \<Rightarrow> UdcSocket list \<Rightarrow> 'w Process \<Rightarrow> 'w Process" where
  "disconnect_all env [] p = p"
| "disconnect_all env (s # ss) p = disconnect_all env ss (snd (UdcSocket_disconnect env s p))"

definition mux_disconnect ::
  "'w platform_api \<Rightarrow> UdcSocketMux \<Rightarrow> 'w Process \<Rightarrow> UdcSocketMux \<times> 'w Process" where
  "mux_disconnect env mux p =
     (let p1 = disconnect_all env (m_socketIPv4 mux) p;
          mux1 = mux\<lparr>m_socketIPv4 := []\<rparr>;
          p2 = disconnect_all env (m_socketIPv6 mux1) p1
      in (mux1\<lparr>m_socketIPv6 := []\<rparr>, p2))"

definition UdcSocketMux_dtor :: "'w platform_api \<Rightarrow> UdcSocketMux \<Rightarrow> 'w Process \<Rightarrow> 'w Process" where
  "UdcSocketMux_dtor env mux p = snd (mux_disconnect env mux p)"

definition mux_isConnected :: "UdcSocketMux \<Rightarrow> bool" where
  "mux_isConnected mux \<longleftrightarrow> \<not> (m_socketIPv4 mux = [] \<and> m_socketIPv6 mux = [])"

section \<open>Sending\<close>

definition log_if :: "bool \<Rightarrow> (string \<Rightarrow> string res) \<Rightarrow> UdcSocketMux \<Rightarrow> UdcSocketMux res" where
  "log_if c line mux =
     (case m_logger mux of
        None \<Rightarrow> Inr mux
      | Some f \<Rightarrow> if c then bind_r (line f) (\<lambda>f1. Inr (mux\<lparr>m_logger := Some f1\<rparr>)) else Inr mux)"

definition mux_sendIPv4 ::
  "'w platform_api \<Rightarrow> UdcAddressIPv4 \<Rightarrow> u16 \<Rightarrow> byte list \<Rightarrow> u32 \<Rightarrow> UdcSocketMux \<Rightarrow> 'w Process
   \<Rightarrow> (bool \<times> UdcSocketMux \<times> 'w Process) res" where
  "mux_sendIPv4 env address port data dsize mux p =
     (case m_socketIPv4 mux of
        [] \<Rightarrow> Inr (False, mux, p)
      | front # _ \<Rightarrow>
          bind_r (sendIPv4 env front address port data dsize p) (\<lambda>(result, p1).
          bind_r (log_if result (logSentIPv4 address port data dsize) mux) (\<lambda>mux1.
          Inr (result, mux1, p1))))"

definition mux_sendIPv6 ::
  "'w platform_api \<Rightarrow> UdcAddressIPv6 \<Rightarrow> u16 \<Rightarrow> byte list \<Rightarrow> u32 \<Rightarrow> UdcSocketMux \<Rightarrow> 'w Process
   \<Rightarrow> (bool \<times> UdcSocketMux \<times> 'w Process) res" where
  "mux_sendIPv6 env address port data dsize mux p =
     (case m_socketIPv6 mux of
        [] \<Rightarrow> Inr (False, mux, p)
      | front # _ \<Rightarrow>
          bind_r (sendIPv6 env front address port data dsize p) (\<lambda>(result, p1).
          bind_r (log_if result (logSentIPv6 address port data dsize) mux) (\<lambda>mux1.
          Inr (result, mux1, p1))))"

definition mux_send ::
  "'w platform_api \<Rightarrow> UdcAddressMux \<Rightarrow> byte list \<Rightarrow> u32 \<Rightarrow> UdcSocketMux \<Rightarrow> 'w Process
   \<Rightarrow> (bool \<times> UdcSocketMux \<times> 'w Process) res" where
  "mux_send env address data dsize mux p =
     (if am_family address = UDC_IPV6
      then mux_sendIPv6 env (am_address address) (am_port address) data dsize mux p
      else mux_sendIPv4 env (union_ipv4 (am_address address)) (am_port address) data dsize mux p)"

section \<open>Receiving\<close>

text \<open>
  The loops over the sockets. The reference arguments \<open>address\<close>, \<open>port\<close>, \<open>size\<close> and the
  buffer are threaded from one socket to the next, as a failed call may have changed them.
\<close>

fun mux_receiveIPv4 ::
  "'w platform_api \<Rightarrow> UdcSocket list \<Rightarrow> UdcAddressIPv4 \<Rightarrow> u16 \<Rightarrow> byte list \<Rightarrow> u32 \<Rightarrow> UdcSocketMux
   \<Rightarrow> 'w Process \<Rightarrow> (bool \<times> UdcAddressIPv4 \<times> u16 \<times> byte list \<times> u32 \<times> UdcSocketMux \<times> 'w Process) res"
  where
  "mux_receiveIPv4 env [] address port buffer bsize mux p =
     Inr (False, address, port, buffer, bsize, mux, p)"
| "mux_receiveIPv4 env (s # ss) address port buffer bsize mux p =
     bind_r (receiveIPv4 env s address port buffer bsize p) (\<lambda>(v, p1).
       if rv_code v = 1
       then bind_r (log_if True
                (logReceivedIPv4 (rv_address v) (rv_port v) (rv_buffer v) (rv_size v)) mux) (\<lambda>mux1.
              Inr (True, rv_address v, rv_port v, rv_buffer v, rv_size v, mux1, p1))
       else mux_receiveIPv4 env ss (rv_address v) (rv_port v) (rv_buffer v) (rv_size v) mux p1)"

fun mux_receiveIPv6 ::
  "'w platform_api \<Rightarrow> UdcSocket list \<Rightarrow> UdcAddressIPv6 \<Rightarrow> u16 \<Rightarrow> byte list \<Rightarrow> u32 \<Rightarrow> UdcSocketMux
   \<Rightarrow> 'w Process \<Rightarrow> (bool \<times> UdcAddressIPv6 \<times> u16 \<times> byte list \<times> u32 \<times> UdcSocketMux \<times> 'w Process) res"
  where
  "mux_receiveIPv6 env [] address port buffer bsize mux p =
     Inr (False, address, port, buffer, bsize, mux, p)"
| "mux_receiveIPv6 env (s # ss) address port buffer bsize mux p =
     bind_r (receiveIPv6 env s address port buffer bsize p) (\<lambda>(v, p1).
       if rv_code v = 1
       then bind_r (log_if True
                (logReceivedIPv6 (rv_address v) (rv_port v) (rv_buffer v) (rv_size v)) mux) (\<lambda>mux1.
              Inr (True, rv_address v, rv_port v, rv_buffer v, rv_size v, mux1, p1))
       else mux_receiveIPv6 env ss (rv_address v) (rv_port v) (rv_buffer v) (rv_size v) mux p1)"

definition mux_receive ::
  "'w platform_api \<Rightarrow> UdcAddressMux \<Rightarrow> byte list \<Rightarrow> u32 \<Rightarrow> UdcSocketMux \<Rightarrow> 'w Process
   \<Rightarrow> (bool \<times> UdcAddressMux \<times> byte list \<times> u32 \<times> UdcSocketMux \<times> 'w Process) res" where
  "mux_receive env address buffer bsize mux p =
     bind_r (mux_receiveIPv6 env (m_socketIPv6 mux) (am_address address) (am_port address)
               buffer bsize mux p)
       (\<lambda>(found6, ipv6, port6, buffer1, bsize1, mux1, p1).
          let address1 = address\<lparr>am_address := ipv6, am_port := port6\<rparr>
          in if found6
             then Inr (True, address1\<lparr>am_family := UDC_IPV6\<rparr>, buffer1, bsize1, mux1, p1)
             else bind_r (mux_receiveIPv4 env (m_socketIPv4 mux1) (union_ipv4 (am_address address1))
                            (am_port address1) buffer1 bsize1 mux1 p1)
                    (\<lambda>(found4, ipv4, port4, buffer2, bsize2, mux2, p2).
                       let address2 = address1\<lparr>am_address := union_set_ipv4 ipv4 (am_address address1),
                                               am_port := port4\<rparr>
                       in if found4
                          then Inr (True, address2\<lparr>am_family := UDC_IPV4\<rparr>, buffer2, bsize2, mux2, p2)
                          else Inr (False, address2, buffer2, bsize2, mux2, p2)))"

section \<open>What sending and receiving guarantee\<close>

definition same_sockets :: "UdcSocketMux \<Rightarrow> UdcSocketMux \<Rightarrow> bool" where
  "same_sockets mux mux' \<longleftrightarrow>
     m_socketIPv4 mux' = m_socketIPv4 mux \<and> m_socketIPv6 mux' = m_socketIPv6 mux"

lemma same_sockets_refl [simp]: "same_sockets mux mux"
  by (simp add: same_sockets_def)

lemma same_sockets_trans: "same_sockets a b \<Longrightarrow> same_sockets b c \<Longrightarrow> same_sockets a c"
  by (simp add: same_sockets_def)

lemma log_if_ok: "(\<And>f. ok_r (line f) (\<lambda>_. True)) \<Longrightarrow> ok_r (log_if c line mux) (same_sockets mux)"
proof (cases "m_logger mux")
  case (Some f)
  assume "\<And>f. ok_r (line f) (\<lambda>_. True)"
  then obtain f1 where "line f = Inr f1" unfolding ok_r_iff by blast
  with Some show ?thesis by (simp add: log_if_def same_sockets_def)
qed (simp add: log_if_def)

lemma log_lines_ok:
  assumes "unat n \<le> length data"
  shows "ok_r (logSentIPv4 a4 port data n f) (\<lambda>_. True)"
    and "ok_r (logSentIPv6 a6 port data n f) (\<lambda>_. True)"
    and "ok_r (logReceivedIPv4 a4 port data n f) (\<lambda>_. True)"
    and "ok_r (logReceivedIPv6 a6 port data n f) (\<lambda>_. True)"
  using assms by (simp_all add: log_defs log_line_def)

lemma mux_send_ok:
  assumes "unat n \<le> length data"
  shows "ok_r (mux_send env address data n mux p) (\<lambda>(sent, mux', p'). same_sockets mux mux')"
proof -
  note logs = log_if_ok [OF log_lines_ok(1) [OF assms]] log_if_ok [OF log_lines_ok(2) [OF assms]]
  have "ok_r (mux_sendIPv4 env a port data n mux p) (\<lambda>(sent, mux', p'). same_sockets mux mux')" for a port
    by (cases "m_socketIPv4 mux")
      (auto simp: mux_sendIPv4_def simp del: ok_r_bind
        intro!: ok_r_bindI [OF sendIPv4_ok [OF assms]] ok_r_bindI [OF logs(1)])
  moreover have "ok_r (mux_sendIPv6 env a port data n mux p) (\<lambda>(sent, mux', p'). same_sockets mux mux')" for a port
    by (cases "m_socketIPv6 mux")
      (auto simp: mux_sendIPv6_def simp del: ok_r_bind
        intro!: ok_r_bindI [OF sendIPv6_ok [OF assms]] ok_r_bindI [OF logs(2)])
  ultimately show ?thesis by (simp add: mux_send_def)
qed

text \<open>
  Polling \<open>k\<close> sockets in a row is safe when no socket is polled after another has reported
  a truncated message, or when the operating system rejects the length that is then left.
\<close>

definition poll_safe :: "'w platform_api \<Rightarrow> nat \<Rightarrow> u32 \<Rightarrow> byte list \<Rightarrow> bool" where
  "poll_safe env k bsize buffer \<longleftrightarrow>
     k = 0 \<or> size_usable env bsize buffer \<and> (k = 1 \<or> recvfrom_rejects_negative env)"

definition polled_ok ::
  "'w platform_api \<Rightarrow> nat \<Rightarrow> byte list \<Rightarrow> u32 \<Rightarrow> UdcSocketMux
   \<Rightarrow> bool \<times> 'a \<times> u16 \<times> byte list \<times> u32 \<times> UdcSocketMux \<times> 'w Process \<Rightarrow> bool" where
  "polled_ok env k buffer bsize mux =
     (\<lambda>(found, a, port, buffer', bsize', mux', p').
        length buffer' = length buffer \<and> same_sockets mux mux' \<and>
        (found \<longrightarrow> 0 < unat bsize' \<and> unat bsize' \<le> unat bsize \<and> fits bsize' buffer' \<and>
           fits bsize buffer) \<and>
        (\<not> found \<longrightarrow> (bsize' = bsize \<or> bsize' = -1) \<and> poll_safe env k bsize' buffer'))"

lemma poll_safe_step:
  assumes "poll_safe env (Suc k) bsize buffer" and "received_ok buffer bsize v" and "rv_code v \<noteq> 1"
  shows "poll_safe env k (rv_size v) (rv_buffer v)"
  using assms
  by (cases "k = 0") (auto simp: poll_safe_def received_ok_def size_usable_def fits_def)

lemma polled_ok_step:
  assumes "received_ok buffer bsize v" and "rv_code v \<noteq> 1"
    and "polled_ok env k (rv_buffer v) (rv_size v) mux x"
  shows "polled_ok env k buffer bsize mux x"
  using assms fits_length_cong [of "rv_buffer v" buffer bsize]
  by (cases x) (auto simp: polled_ok_def received_ok_def)

lemma mux_receiveIPv4_ok:
  assumes "recvfrom_documented env" and "poll_safe env (length ss + k) bsize buffer"
  shows "ok_r (mux_receiveIPv4 env ss a port buffer bsize mux p) (polled_ok env k buffer bsize mux)"
  using assms(2)
proof (induction ss arbitrary: a port buffer bsize p)
  case Nil
  then show ?case by (simp add: polled_ok_def)
next
  case (Cons s ss)
  from Cons.prems have use: "size_usable env bsize buffer" by (simp add: poll_safe_def)
  show ?case
  proof (simp del: ok_r_bind, rule ok_r_bindI [OF receiveIPv4_ok [OF assms(1) use]], clarify)
    fix v :: "UdcAddressIPv4 received" and p1
    assume v: "received_ok buffer bsize v"
    show "ok_r (if rv_code v = 1
       then bind_r (log_if True
                (logReceivedIPv4 (rv_address v) (rv_port v) (rv_buffer v) (rv_size v)) mux) (\<lambda>mux1.
              Inr (True, rv_address v, rv_port v, rv_buffer v, rv_size v, mux1, p1))
       else mux_receiveIPv4 env ss (rv_address v) (rv_port v) (rv_buffer v) (rv_size v) mux p1)
       (polled_ok env k buffer bsize mux)"
    proof (cases "rv_code v = 1")
      case True
      with v have "unat (rv_size v) \<le> length (rv_buffer v)" by (simp add: received_ok_def fits_def)
      note lg = log_if_ok [OF log_lines_ok(3) [OF this]]
      show ?thesis
        using True v
        by (auto simp: polled_ok_def received_ok_def fits_length_cong [of "rv_buffer v" buffer] simp del: ok_r_bind
            intro!: ok_r_bindI [OF lg])
    next
      case False
      with Cons.prems v have "poll_safe env (length ss + k) (rv_size v) (rv_buffer v)"
        by (intro poll_safe_step) auto
      from Cons.IH [OF this] show ?thesis
        using False by (auto intro: ok_r_mono polled_ok_step [OF v False])
    qed
  qed
qed

lemma mux_receiveIPv6_ok:
  assumes "recvfrom_documented env" and "poll_safe env (length ss + k) bsize buffer"
  shows "ok_r (mux_receiveIPv6 env ss a port buffer bsize mux p) (polled_ok env k buffer bsize mux)"
  using assms(2)
proof (induction ss arbitrary: a port buffer bsize p)
  case Nil
  then show ?case by (simp add: polled_ok_def)
next
  case (Cons s ss)
  from Cons.prems have use: "size_usable env bsize buffer" by (simp add: poll_safe_def)
  show ?case
  proof (simp del: ok_r_bind, rule ok_r_bindI [OF receiveIPv6_ok [OF assms(1) use]], clarify)
    fix v :: "UdcAddressIPv6 received" and p1
    assume v: "received_ok buffer bsize v"
    show "ok_r (if rv_code v = 1
       then bind_r (log_if True
                (logReceivedIPv6 (rv_address v) (rv_port v) (rv_buffer v) (rv_size v)) mux) (\<lambda>mux1.
              Inr (True, rv_address v, rv_port v, rv_buffer v, rv_size v, mux1, p1))
       else mux_receiveIPv6 env ss (rv_address v) (rv_port v) (rv_buffer v) (rv_size v) mux p1)
       (polled_ok env k buffer bsize mux)"
    proof (cases "rv_code v = 1")
      case True
      with v have "unat (rv_size v) \<le> length (rv_buffer v)" by (simp add: received_ok_def fits_def)
      note lg = log_if_ok [OF log_lines_ok(4) [OF this]]
      show ?thesis
        using True v
        by (auto simp: polled_ok_def received_ok_def fits_length_cong [of "rv_buffer v" buffer] simp del: ok_r_bind
            intro!: ok_r_bindI [OF lg])
    next
      case False
      with Cons.prems v have "poll_safe env (length ss + k) (rv_size v) (rv_buffer v)"
        by (intro poll_safe_step) auto
      from Cons.IH [OF this] show ?thesis
        using False by (auto intro: ok_r_mono polled_ok_step [OF v False])
    qed
  qed
qed

lemma mux_receive_ok:
  assumes "recvfrom_documented env"
    and "poll_safe env (length (m_socketIPv6 mux) + length (m_socketIPv4 mux)) bsize buffer"
  shows "ok_r (mux_receive env address buffer bsize mux p)
    (\<lambda>(found, address', buffer', bsize', mux', p').
       length buffer' = length buffer \<and> same_sockets mux mux' \<and>
       (found \<longrightarrow> 0 < unat bsize' \<and> unat bsize' \<le> unat bsize \<and> fits bsize' buffer'))"
proof -
  obtain found6 ipv6 port6 buffer1 bsize1 mux1 p1 where
    call6: "mux_receiveIPv6 env (m_socketIPv6 mux) (am_address address) (am_port address) buffer bsize mux p
      = Inr (found6, ipv6, port6, buffer1, bsize1, mux1, p1)"
    and r6: "polled_ok env (length (m_socketIPv4 mux)) buffer bsize mux
      (found6, ipv6, port6, buffer1, bsize1, mux1, p1)"
    using mux_receiveIPv6_ok [OF assms, of "am_address address" "am_port address" mux p]
    unfolding ok_r_iff by auto
  show ?thesis
  proof (cases found6)
    case True
    with call6 r6 show ?thesis by (simp add: mux_receive_def polled_ok_def)
  next
    case False
    with r6 have ps: "poll_safe env (length (m_socketIPv4 mux1) + 0) bsize1 buffer1"
      and b1: "bsize1 = bsize \<or> bsize1 = -1" "length buffer1 = length buffer" "same_sockets mux mux1"
      by (auto simp: polled_ok_def same_sockets_def)
    obtain found4 ipv4 port4 buffer2 bsize2 mux2 p2 where
      call4: "mux_receiveIPv4 env (m_socketIPv4 mux1) (union_ipv4 ipv6) port6 buffer1 bsize1 mux1 p1
        = Inr (found4, ipv4, port4, buffer2, bsize2, mux2, p2)"
      and r4: "polled_ok env 0 buffer1 bsize1 mux1 (found4, ipv4, port4, buffer2, bsize2, mux2, p2)"
      using mux_receiveIPv4_ok [OF assms(1) ps, of "union_ipv4 ipv6" port6 mux1 p1]
      unfolding ok_r_iff by auto
    from r4 have "found4 \<Longrightarrow> bsize1 \<noteq> -1" by (auto simp: polled_ok_def)
    with False call6 call4 r4 b1 show ?thesis
      by (auto simp: mux_receive_def polled_ok_def same_sockets_def Let_def)
  qed
qed

end
