(* ===== verification/Event.thy ===== *)
theory Event
  imports Address
begin

text \<open>
  Events, \<open>include/UdcEvent.h\<close> and the enumeration \<open>UdcEventType\<close> of
  \<open>include/udp_connect.h\<close>. The enumeration is ordered by its numeric values, as the code
  compares it with \<open>>\<close>; the accessors of \<open>src/udp_connect.cpp\<close> that read an event return
  \<open>None\<close> where the C functions return \<open>false\<close> and leave their outputs alone.
\<close>

datatype UdcEventType =
    UDC_EVENT_CONNECTION_SUCCESS
  | UDC_EVENT_CONNECTION_TIMEOUT
  | UDC_EVENT_CONNECTION_LOST
  | UDC_EVENT_CONNECTION_REGAINED
  | UDC_EVENT_RECEIVE_MESSAGE_IPV4
  | UDC_EVENT_RECEIVE_MESSAGE_IPV6

primrec UdcEventType_code :: "UdcEventType \<Rightarrow> nat" where
  "UdcEventType_code UDC_EVENT_CONNECTION_SUCCESS = 0"
| "UdcEventType_code UDC_EVENT_CONNECTION_TIMEOUT = 1"
| "UdcEventType_code UDC_EVENT_CONNECTION_LOST = 2"
| "UdcEventType_code UDC_EVENT_CONNECTION_REGAINED = 3"
| "UdcEventType_code UDC_EVENT_RECEIVE_MESSAGE_IPV4 = 4"
| "UdcEventType_code UDC_EVENT_RECEIVE_MESSAGE_IPV6 = 5"

lemma UdcEventType_code_inject: "UdcEventType_code a = UdcEventType_code b \<longleftrightarrow> a = b"
  by (cases a; cases b) simp_all

instantiation UdcEventType :: linorder
begin

definition less_eq_UdcEventType :: "UdcEventType \<Rightarrow> UdcEventType \<Rightarrow> bool" where
  "a \<le> b \<longleftrightarrow> UdcEventType_code a \<le> UdcEventType_code b"

definition less_UdcEventType :: "UdcEventType \<Rightarrow> UdcEventType \<Rightarrow> bool" where
  "a < b \<longleftrightarrow> UdcEventType_code a < UdcEventType_code b"

instance
  by intro_classes
    (auto simp: less_eq_UdcEventType_def less_UdcEventType_def UdcEventType_code_inject
      intro: UdcEventType_code_inject [THEN iffD1])

end

record UdcEvent =
  ev_type :: UdcEventType
  ev_endPointId :: u32
  ev_address :: address_union
  ev_port :: u16
  ev_msgIndex :: u32
  ev_msgSize :: u32

text \<open>The value-initialised event \<open>{}\<close>.\<close>

definition UdcEvent_zero :: UdcEvent where
  "UdcEvent_zero =
     \<lparr>ev_type = UDC_EVENT_CONNECTION_SUCCESS, ev_endPointId = 0,
      ev_address = IPv6 0 0 0 0 0 0 0 0, ev_port = 0, ev_msgIndex = 0, ev_msgSize = 0\<rparr>"

definition udcGetEventType :: "UdcEvent \<Rightarrow> UdcEventType" where
  "udcGetEventType event = ev_type event"

definition udcGetResultConnectionEvent :: "UdcEvent \<Rightarrow> u32 option" where
  "udcGetResultConnectionEvent event =
     (if ev_type event > UDC_EVENT_CONNECTION_REGAINED then None else Some (ev_endPointId event))"

definition udcGetResultMessageIPv4Event ::
  "UdcEvent \<Rightarrow> (UdcAddressIPv4 \<times> u16 \<times> u32 \<times> u32) option" where
  "udcGetResultMessageIPv4Event event =
     (if ev_type event \<noteq> UDC_EVENT_RECEIVE_MESSAGE_IPV4 then None
      else Some (union_ipv4 (ev_address event), ev_port event, ev_msgIndex event, ev_msgSize event))"

definition udcGetResultMessageIPv6Event ::
  "UdcEvent \<Rightarrow> (UdcAddressIPv6 \<times> u16 \<times> u32 \<times> u32) option" where
  "udcGetResultMessageIPv6Event event =
     (if ev_type event \<noteq> UDC_EVENT_RECEIVE_MESSAGE_IPV6 then None
      else Some (ev_address event, ev_port event, ev_msgIndex event, ev_msgSize event))"

text \<open>What an event tells the application, whichever accessor it uses.\<close>

datatype event_view =
    ConnectionEvent UdcEventType u32
  | MessageEvent end_point u32 u32

definition view_of :: "UdcEvent \<Rightarrow> event_view" where
  "view_of e =
     (if ev_type e = UDC_EVENT_RECEIVE_MESSAGE_IPV4 then
        MessageEvent (EP_IPv4 (union_ipv4 (ev_address e)) (ev_port e)) (ev_msgIndex e) (ev_msgSize e)
      else if ev_type e = UDC_EVENT_RECEIVE_MESSAGE_IPV6 then
        MessageEvent (EP_IPv6 (ev_address e) (ev_port e)) (ev_msgIndex e) (ev_msgSize e)
      else ConnectionEvent (ev_type e) (ev_endPointId e))"

lemma after_REGAINED_iff:
  "UDC_EVENT_CONNECTION_REGAINED < t \<longleftrightarrow>
     t = UDC_EVENT_RECEIVE_MESSAGE_IPV4 \<or> t = UDC_EVENT_RECEIVE_MESSAGE_IPV6"
  by (cases t) (simp_all add: less_UdcEventType_def)

section \<open>The accessors\<close>

text \<open>For every event exactly one of the three accessors succeeds, and what it returns is what the event
  means: connection events give their end point id, message events the address, port, index and
  size of the message under the family of the event's type.\<close>

lemma event_accessors_exclusive:
  "(case view_of e of
      ConnectionEvent ty i \<Rightarrow>
        udcGetEventType e = ty \<and> ty \<le> UDC_EVENT_CONNECTION_REGAINED \<and>
        udcGetResultConnectionEvent e = Some i \<and>
        udcGetResultMessageIPv4Event e = None \<and> udcGetResultMessageIPv6Event e = None
    | MessageEvent (EP_IPv4 a p) i n \<Rightarrow>
        udcGetResultConnectionEvent e = None \<and>
        udcGetResultMessageIPv4Event e = Some (a, p, i, n) \<and> udcGetResultMessageIPv6Event e = None
    | MessageEvent (EP_IPv6 a p) i n \<Rightarrow>
        udcGetResultConnectionEvent e = None \<and>
        udcGetResultMessageIPv4Event e = None \<and> udcGetResultMessageIPv6Event e = Some (a, p, i, n))"
  by (cases "ev_type e")
    (simp_all add: view_of_def udcGetEventType_def udcGetResultConnectionEvent_def
      udcGetResultMessageIPv4Event_def udcGetResultMessageIPv6Event_def after_REGAINED_iff less_eq_UdcEventType_def)

end
