(* ===== verification/Server.thy ===== *)
theory Server
  imports Message Client SocketMux Event
begin

text \<open>
  The server, class \<open>UdcServerImpl\<close> of \<open>include/UdcServer.h\<close> and \<open>src/UdcServer.cpp\<close>: its
  state and every member function.

  Clients are shared between the pending queue and the two maps through
  \<open>std::shared_ptr\<close>, and a change made through one is seen through the others. The state
  therefore has a \<open>heap\<close> of client objects, and the queue and the maps hold references
  into it. An object nobody refers to any more stays in the heap; no operation can reach it.

  A handler that returns an event pointer returns \<open>Some\<close> of the contents of
  \<open>m_eventBuffer\<close>, to which every event pointer of the code points; \<open>None\<close> is \<open>nullptr\<close>.
\<close>

type_synonym ref = nat

record 'w UdcServerImpl =
  m_socket :: UdcSocketMux
  m_idCounter :: u32
  m_packetSignature :: UdcSignature
  m_eventBuffer :: UdcEvent
  m_pendingClients :: "ref list"
  m_clientsById :: "u32 \<rightharpoonup> ref"
  m_clientsByAddress :: "ref UdcAddressMap"
  m_reliableStates :: "int UdcAddressMap"
  m_messageBuffer :: "byte list"
  m_messageBufferSize :: u32
  heap :: "ref \<rightharpoonup> UdcClient"
  heap_next :: ref
  process :: "'w Process"

section \<open>Access to client objects, the buffer and the socket\<close>

definition deref :: "ref \<Rightarrow> 'w UdcServerImpl \<Rightarrow> UdcClient res" where
  "deref r s = (case heap s r of None \<Rightarrow> Inl DanglingPointer | Some c \<Rightarrow> Inr c)"

definition store :: "ref \<Rightarrow> UdcClient \<Rightarrow> 'w UdcServerImpl \<Rightarrow> 'w UdcServerImpl" where
  "store r c s = s\<lparr>heap := (heap s)(r \<mapsto> c)\<rparr>"

definition make_shared :: "UdcClient \<Rightarrow> 'w UdcServerImpl \<Rightarrow> ref \<times> 'w UdcServerImpl" where
  "make_shared c s = (heap_next s, s\<lparr>heap := (heap s)(heap_next s \<mapsto> c), heap_next := heap_next s + 1\<rparr>)"

definition put_buffer ::
  "(byte list \<Rightarrow> byte list res) \<Rightarrow> 'w UdcServerImpl \<Rightarrow> 'w UdcServerImpl res" where
  "put_buffer serialize s =
     bind_r (serialize (m_messageBuffer s)) (\<lambda>buf. Inr (s\<lparr>m_messageBuffer := buf\<rparr>))"

definition server_send ::
  "'w platform_api \<Rightarrow> UdcAddressMux \<Rightarrow> u32 \<Rightarrow> 'w UdcServerImpl \<Rightarrow> 'w UdcServerImpl res" where
  "server_send env address dsize s =
     bind_r (mux_send env address (m_messageBuffer s) dsize (m_socket s) (process s))
       (\<lambda>(sent, mux, p). Inr (s\<lparr>m_socket := mux, process := p\<rparr>))"

definition emit ::
  "(UdcEvent \<Rightarrow> UdcEvent) \<Rightarrow> 'w UdcServerImpl \<Rightarrow> (UdcEvent option \<times> 'w UdcServerImpl) res" where
  "emit f s = Inr (Some (f (m_eventBuffer s)), s\<lparr>m_eventBuffer := f (m_eventBuffer s)\<rparr>)"

section \<open>Construction and small operations\<close>

definition UdcServerImpl_ctor ::
  "UdcSocketMux \<Rightarrow> UdcSignature \<Rightarrow> byte list \<Rightarrow> u32 \<Rightarrow> 'w Process \<Rightarrow> 'w UdcServerImpl res" where
  "UdcServerImpl_ctor mux signature buffer bufferSize p =
     put_buffer (\<lambda>buf. serializeMsgSignature buf signature)
       \<lparr>m_socket = mux, m_idCounter = 0, m_packetSignature = signature,
        m_eventBuffer = UdcEvent_zero, m_pendingClients = [], m_clientsById = Map.empty,
        m_clientsByAddress = [], m_reliableStates = [], m_messageBuffer = buffer,
        m_messageBufferSize = bufferSize, heap = Map.empty, heap_next = 0, process = p\<rparr>"

definition tryBindIPv4 ::
  "'w platform_api \<Rightarrow> u16 \<Rightarrow> 'w UdcServerImpl \<Rightarrow> (bool \<times> 'w UdcServerImpl) res" where
  "tryBindIPv4 env port s =
     bind_r (mux_tryBindIPv4 env port (m_socket s) (process s))
       (\<lambda>(bound, mux, p). Inr (bound, s\<lparr>m_socket := mux, process := p\<rparr>))"

definition tryBindIPv6 ::
  "'w platform_api \<Rightarrow> u16 \<Rightarrow> 'w UdcServerImpl \<Rightarrow> (bool \<times> 'w UdcServerImpl) res" where
  "tryBindIPv6 env port s =
     bind_r (mux_tryBindIPv6 env port (m_socket s) (process s))
       (\<lambda>(bound, mux, p). Inr (bound, s\<lparr>m_socket := mux, process := p\<rparr>))"

definition tryGetClientById :: "u32 \<Rightarrow> 'w UdcServerImpl \<Rightarrow> ref option" where
  "tryGetClientById clientId s = m_clientsById s clientId"

definition tryGetClientByAddress :: "UdcAddressMux \<Rightarrow> 'w UdcServerImpl \<Rightarrow> ref option" where
  "tryGetClientByAddress address s = UdcAddressMap_find (m_clientsByAddress s) address"

definition tryGetFirstPendingClient :: "'w UdcServerImpl \<Rightarrow> ref option" where
  "tryGetFirstPendingClient s =
     (case m_pendingClients s of [] \<Rightarrow> None | front # _ \<Rightarrow> Some front)"

definition getEndPointStatus :: "u32 \<Rightarrow> 'w UdcServerImpl \<Rightarrow> milliseconds option res" where
  "getEndPointStatus eid s =
     (case tryGetClientById eid s of
        None \<Rightarrow> Inr None
      | Some r \<Rightarrow> bind_r (deref r s) (\<lambda>client.
          if connected client then Inr (Some (client_ping client)) else Inr None))"

definition createUniqueId :: "'w UdcServerImpl \<Rightarrow> u32 \<times> 'w UdcServerImpl" where
  "createUniqueId s =
     (let s1 = s\<lparr>m_idCounter := m_idCounter s + 1\<rparr> in (m_idCounter s1, s1))"

definition addPendingClient ::
  "ref \<Rightarrow> milliseconds \<Rightarrow> 'w UdcServerImpl \<Rightarrow> 'w UdcServerImpl res" where
  "addPendingClient r time s =
     bind_r (deref r s) (\<lambda>client.
       let s1 = store r (startConnecting time client) s
       in Inr (s1\<lparr>m_pendingClients := m_pendingClients s1 @ [r]\<rparr>))"

fun erase_pending :: "u32 \<Rightarrow> ref list \<Rightarrow> 'w UdcServerImpl \<Rightarrow> ref list res" where
  "erase_pending endPointId [] s = Inr []"
| "erase_pending endPointId (r # rs) s =
     bind_r (deref r s) (\<lambda>client.
     bind_r (erase_pending endPointId rs s) (\<lambda>rest.
       if client_id client = endPointId then Inr rest else Inr (r # rest)))"

definition disconnectFromClient :: "u32 \<Rightarrow> 'w UdcServerImpl \<Rightarrow> 'w UdcServerImpl res" where
  "disconnectFromClient endPointId s =
     (case m_clientsById s endPointId of
        Some r \<Rightarrow> bind_r (deref r s) (\<lambda>client.
          Inr (s\<lparr>m_clientsByAddress :=
                   UdcAddressMap_erase (m_clientsByAddress s) (outgoingAddress client),
                 m_clientsById := (m_clientsById s)(endPointId := None)\<rparr>))
      | None \<Rightarrow> bind_r (erase_pending endPointId (m_pendingClients s) s) (\<lambda>rest.
          Inr (s\<lparr>m_pendingClients := rest\<rparr>)))"

section \<open>Sending application messages\<close>

definition sendUnreliableMessage ::
  "'w platform_api \<Rightarrow> u32 \<Rightarrow> byte list \<Rightarrow> u32 \<Rightarrow> 'w UdcServerImpl \<Rightarrow> (bool \<times> 'w UdcServerImpl) res"
  where
  "sendUnreliableMessage env endPointId data dsize s =
     (if dsize + msgUnreliable_SIZE > m_messageBufferSize s then Inr (False, s)
      else case tryGetClientById endPointId s of
        None \<Rightarrow> Inr (False, s)
      | Some r \<Rightarrow> bind_r (deref r s) (\<lambda>client.
          if \<not> connected client then Inr (True, s)
          else
            bind_r (put_buffer (\<lambda>buf. serializeMsgId buf UDC_MSG_UNRELIABLE) s) (\<lambda>s1.
            bind_r (put_buffer (\<lambda>buf. msgUnreliable_serializeData buf data dsize) s1) (\<lambda>s2.
            bind_r (server_send env (outgoingAddress client) (msgHeader_SIZE + dsize) s2) (\<lambda>s3.
            Inr (True, s3))))))"

definition sendReliableMessage ::
  "u32 \<Rightarrow> byte list \<Rightarrow> u32 \<Rightarrow> 'w UdcServerImpl \<Rightarrow> (bool \<times> 'w UdcServerImpl) res" where
  "sendReliableMessage endPointId data dsize s =
     (if dsize + msgReliable_SIZE > m_messageBufferSize s then Inr (False, s)
      else case tryGetClientById endPointId s of
        None \<Rightarrow> Inr (False, s)
      | Some r \<Rightarrow> bind_r (deref r s) (\<lambda>client.
          if unat dsize \<le> length data
          then Inr (True, store r (reliableMessages_push (take (unat dsize) data) client) s)
          else Inl BufferOverrun))"

section \<open>Pending connections\<close>

definition updatePendingClients ::
  "'w platform_api \<Rightarrow> milliseconds \<Rightarrow> 'w UdcServerImpl \<Rightarrow> (UdcEvent option \<times> 'w UdcServerImpl) res"
  where
  "updatePendingClients env time s =
     (case tryGetFirstPendingClient s of
        None \<Rightarrow> Inr (None, s)
      | Some r \<Rightarrow> bind_r (deref r s) (\<lambda>client.
          if needsConnectionTimeoutEvent client time then
            emit (\<lambda>e. e\<lparr>ev_type := UDC_EVENT_CONNECTION_TIMEOUT, ev_endPointId := client_id client\<rparr>)
              (s\<lparr>m_pendingClients := tl (m_pendingClients s)\<rparr>)
          else if needsConnectionAttempt client time then
            let s0 = store r (retryConnecting time client) s
            in assert_r (m_messageBufferSize s0 \<ge> msgConnection_SIZE)
                (bind_r (put_buffer (\<lambda>buf. serializeMsgId buf UDC_MSG_CONNECTION_REQUEST) s0) (\<lambda>s1.
                 bind_r (put_buffer (\<lambda>buf. msgConnection_serializeEndPointId buf (client_id client)) s1) (\<lambda>s2.
                 bind_r (server_send env (outgoingAddress client) msgConnection_SIZE s2) (\<lambda>s3.
                 Inr (None, s3)))))
          else Inr (None, s)))"

section \<open>Connected clients\<close>

text \<open>The three parts of the loop body of \<open>updateClientConnectionStatus\<close>.\<close>

definition update_reliable ::
  "'w platform_api \<Rightarrow> milliseconds \<Rightarrow> ref \<Rightarrow> 'w UdcServerImpl \<Rightarrow> 'w UdcServerImpl res" where
  "update_reliable env time r s =
     bind_r (deref r s) (\<lambda>client.
       case reliableMessages client of
         [] \<Rightarrow> Inr s
       | msg # _ \<Rightarrow>
           if reliableState client = -1 then
             assert_r (m_messageBufferSize s \<ge> msgReliable_SIZE)
               (bind_r (put_buffer (\<lambda>buf. serializeMsgId buf UDC_MSG_RELIABLE_RESET) s) (\<lambda>s1.
                bind_r (put_buffer (\<lambda>buf. msgReliable_serializeTimeStamp buf (word_of_int time)) s1) (\<lambda>s2.
                server_send env (outgoingAddress client) msgReliable_SIZE s2)))
           else if needsReliableReset client time then
             Inr (store r (resetSendReliable (setReliableState (-1) client)) s)
           else
             assert_r (unat (m_messageBufferSize s) \<ge> unat msgReliable_SIZE + length msg)
               (bind_r (put_buffer (\<lambda>buf. serializeMsgId buf
                   (if reliableState client = 0 then UDC_MSG_RELIABLE_0 else UDC_MSG_RELIABLE_1)) s) (\<lambda>s1.
                bind_r (put_buffer (\<lambda>buf. msgReliable_serializeTimeStamp buf (word_of_int time)) s1) (\<lambda>s2.
                bind_r (put_buffer (\<lambda>buf. msgReliable_serializeData buf msg (of_nat (length msg))) s2) (\<lambda>s3.
                bind_r (server_send env (outgoingAddress client)
                         (of_nat (unat msgReliable_SIZE + length msg)) s3) (\<lambda>s4.
                Inr (store r (setSendReliable time client) s4)))))))"

definition update_ping ::
  "'w platform_api \<Rightarrow> milliseconds \<Rightarrow> ref \<Rightarrow> 'w UdcServerImpl \<Rightarrow> 'w UdcServerImpl res" where
  "update_ping env time r s =
     bind_r (deref r s) (\<lambda>client.
       if needsPing client time then
         assert_r (m_messageBufferSize s \<ge> msgPingPong_SIZE)
           (bind_r (put_buffer (\<lambda>buf. serializeMsgId buf UDC_MSG_PING) s) (\<lambda>s1.
            bind_r (put_buffer (\<lambda>buf. msgPingPong_serializeTimeStamp buf (word_of_int time)) s1) (\<lambda>s2.
            server_send env (outgoingAddress client) msgPingPong_SIZE s2)))
       else Inr s)"

definition update_lost ::
  "milliseconds \<Rightarrow> ref \<Rightarrow> 'w UdcServerImpl \<Rightarrow> (UdcEvent option \<times> 'w UdcServerImpl) res" where
  "update_lost time r s =
     bind_r (deref r s) (\<lambda>client.
       if needsConnectionLostEvent client time then
         emit (\<lambda>e. e\<lparr>ev_type := UDC_EVENT_CONNECTION_LOST, ev_endPointId := client_id client\<rparr>)
           (store r (setConnectionLost client) s)
       else Inr (None, s))"

definition update_client ::
  "'w platform_api \<Rightarrow> milliseconds \<Rightarrow> ref \<Rightarrow> 'w UdcServerImpl
   \<Rightarrow> (UdcEvent option \<times> 'w UdcServerImpl) res" where
  "update_client env time r s =
     bind_r (update_reliable env time r s) (\<lambda>s1.
     bind_r (update_ping env time r s1) (\<lambda>s2.
     update_lost time r s2))"

text \<open>The loop visits the entries of the map in the container's iteration order.\<close>

fun update_clients ::
  "'w platform_api \<Rightarrow> milliseconds \<Rightarrow> u32 list \<Rightarrow> 'w UdcServerImpl
   \<Rightarrow> (UdcEvent option \<times> 'w UdcServerImpl) res" where
  "update_clients env time [] s = Inr (None, s)"
| "update_clients env time (i # is) s =
     (case m_clientsById s i of
        None \<Rightarrow> Inl DanglingPointer
      | Some r \<Rightarrow> bind_r (update_client env time r s) (\<lambda>(event, s1).
          case event of
            Some e \<Rightarrow> Inr (Some e, s1)
          | None \<Rightarrow> update_clients env time is s1))"

definition updateClientConnectionStatus ::
  "'w platform_api \<Rightarrow> milliseconds \<Rightarrow> 'w UdcServerImpl \<Rightarrow> (UdcEvent option \<times> 'w UdcServerImpl) res"
  where
  "updateClientConnectionStatus env time s =
     update_clients env time (unordered_order env (m_clientsById s)) s"

section \<open>Handlers of received messages\<close>

definition processConnectionRequest ::
  "'w platform_api \<Rightarrow> UdcAddressMux \<Rightarrow> 'w UdcServerImpl \<Rightarrow> 'w UdcServerImpl res" where
  "processConnectionRequest env fromAddress s =
     bind_r (put_buffer (\<lambda>buf. serializeMsgId buf UDC_MSG_CONNECTION_HANDSHAKE) s) (\<lambda>s1.
     server_send env fromAddress msgConnection_SIZE s1)"

definition processConnectionHandshake ::
  "UdcAddressMux \<Rightarrow> milliseconds \<Rightarrow> 'w UdcServerImpl \<Rightarrow> (UdcEvent option \<times> 'w UdcServerImpl) res"
  where
  "processConnectionHandshake fromAddress time s =
     (case tryGetFirstPendingClient s of
        None \<Rightarrow> Inr (None, s)
      | Some r \<Rightarrow>
          bind_r (msgConnection_deserializeEndPointId (m_messageBuffer s)) (\<lambda>endPointId.
          bind_r (deref r s) (\<lambda>client.
            if client_id client \<noteq> endPointId then Inr (None, s)
            else if UdcAddressMap_find (m_clientsByAddress s) fromAddress \<noteq> None then Inr (None, s)
            else
              let s1 = store r (receiveConnectionHandshake time client) s
              in emit (\<lambda>e. e\<lparr>ev_type := UDC_EVENT_CONNECTION_SUCCESS, ev_endPointId := endPointId\<rparr>)
                   (s1\<lparr>m_clientsById := (m_clientsById s1)(endPointId \<mapsto> r),
                       m_clientsByAddress := UdcAddressMap_insert (m_clientsByAddress s1) fromAddress r,
                       m_pendingClients := tl (m_pendingClients s1)\<rparr>))))"

definition processPing ::
  "'w platform_api \<Rightarrow> UdcAddressMux \<Rightarrow> 'w UdcServerImpl \<Rightarrow> 'w UdcServerImpl res" where
  "processPing env fromAddress s =
     bind_r (put_buffer (\<lambda>buf. serializeMsgId buf UDC_MSG_PONG) s) (\<lambda>s1.
     server_send env fromAddress msgPingPong_SIZE s1)"

definition processPong ::
  "UdcAddressMux \<Rightarrow> milliseconds \<Rightarrow> 'w UdcServerImpl \<Rightarrow> (UdcEvent option \<times> 'w UdcServerImpl) res"
  where
  "processPong fromAddress time s =
     (case tryGetClientByAddress fromAddress s of
        None \<Rightarrow> Inr (None, s)
      | Some r \<Rightarrow>
          bind_r (msgPingPong_deserializeTimeStamp (m_messageBuffer s)) (\<lambda>timeStamp.
          let timeStampMs = int (unat timeStamp)
          in if time < timeStampMs then Inr (None, s)
             else bind_r (deref r s) (\<lambda>client.
               let (regained, client1) = receivePong timeStampMs time client;
                   s1 = store r client1 s
               in if \<not> regained then Inr (None, s1)
                  else emit (\<lambda>e. e\<lparr>ev_type := UDC_EVENT_CONNECTION_REGAINED,
                                    ev_endPointId := client_id client1\<rparr>) s1)))"

text \<open>The event of a received message, written by two handlers.\<close>

definition message_event :: "UdcAddressMux \<Rightarrow> u32 \<Rightarrow> u32 \<Rightarrow> UdcEvent \<Rightarrow> UdcEvent" where
  "message_event fromAddress index msize e =
     (let e1 = (if am_family fromAddress = UDC_IPV4
                then e\<lparr>ev_type := UDC_EVENT_RECEIVE_MESSAGE_IPV4,
                       ev_address := union_set_ipv4 (union_ipv4 (am_address fromAddress)) (ev_address e)\<rparr>
                else e\<lparr>ev_type := UDC_EVENT_RECEIVE_MESSAGE_IPV6,
                       ev_address := am_address fromAddress\<rparr>)
      in e1\<lparr>ev_port := am_port fromAddress, ev_msgIndex := index, ev_msgSize := msize\<rparr>)"

definition next_state :: "int \<Rightarrow> int" where
  "next_state state = (if state = 0 then 1 else 0)"

definition processReliableMessage ::
  "'w platform_api \<Rightarrow> int \<Rightarrow> UdcAddressMux \<Rightarrow> u32 \<Rightarrow> 'w UdcServerImpl
   \<Rightarrow> (UdcEvent option \<times> 'w UdcServerImpl) res" where
  "processReliableMessage env state fromAddress msgSize s =
     (let it = UdcAddressMap_find (m_reliableStates s) fromAddress
      in if state = -1 then
           let s0 = (if it \<noteq> None
                     then s\<lparr>m_reliableStates := UdcAddressMap_insert (m_reliableStates s) fromAddress 0\<rparr>
                     else s)
           in bind_r (put_buffer (\<lambda>buf. serializeMsgId buf UDC_MSG_RELIABLE_HANDSHAKE_RESET) s0) (\<lambda>s1.
              bind_r (server_send env fromAddress msgReliable_SIZE s1) (\<lambda>s2.
              Inr (None, s2)))
         else
           let deliver = (it = None \<or> it = Some state);
               s0 = s\<lparr>m_reliableStates :=
                        UdcAddressMap_insert (m_reliableStates s) fromAddress (next_state state)\<rparr>
           in bind_r (put_buffer (\<lambda>buf. serializeMsgId buf
                  (if state = 0 then UDC_MSG_RELIABLE_HANDSHAKE_0 else UDC_MSG_RELIABLE_HANDSHAKE_1)) s0) (\<lambda>s1.
              bind_r (server_send env fromAddress msgReliable_SIZE s1) (\<lambda>s2.
                if deliver
                then emit (message_event fromAddress msgReliable_SIZE (msgSize - msgReliable_SIZE)) s2
                else Inr (None, s2))))"

definition handshake_client :: "int \<Rightarrow> UdcClient \<Rightarrow> UdcClient" where
  "handshake_client state client =
     (if state = reliableState client
      then let client1 =
             (if reliableState client \<noteq> -1 \<and> reliableMessages client \<noteq> []
              then reliableMessages_pop client else client)
           in resetSendReliable (setReliableState (next_state state) client1)
      else client)"

definition processReliableHandshake ::
  "int \<Rightarrow> UdcAddressMux \<Rightarrow> milliseconds \<Rightarrow> 'w UdcServerImpl
   \<Rightarrow> (UdcEvent option \<times> 'w UdcServerImpl) res" where
  "processReliableHandshake state fromAddress time s =
     (case tryGetClientByAddress fromAddress s of
        None \<Rightarrow> Inr (None, s)
      | Some r \<Rightarrow>
          bind_r (msgReliable_deserializeTimeStamp (m_messageBuffer s)) (\<lambda>timeStamp.
          let timeStampMs = int (unat timeStamp)
          in if time < timeStampMs then Inr (None, s)
             else bind_r (deref r s) (\<lambda>client.
               let (regained, client1) =
                     receiveReliableHandshake timeStampMs time (handshake_client state client);
                   s1 = store r client1 s
               in if \<not> regained then Inr (None, s1)
                  else emit (\<lambda>e. e\<lparr>ev_type := UDC_EVENT_CONNECTION_REGAINED,
                                    ev_endPointId := client_id client1\<rparr>) s1)))"

definition processUnreliable ::
  "UdcAddressMux \<Rightarrow> u32 \<Rightarrow> 'w UdcServerImpl \<Rightarrow> (UdcEvent option \<times> 'w UdcServerImpl) res" where
  "processUnreliable fromAddress msgSize s =
     emit (message_event fromAddress msgHeader_SIZE (msgSize - msgHeader_SIZE)) s"

section \<open>Receiving\<close>

definition no_event ::
  "'w UdcServerImpl res \<Rightarrow> (UdcEvent option \<times> 'w UdcServerImpl) res" where
  "no_event m = bind_r m (\<lambda>s. Inr (None, s))"

text \<open>The switch over the message id, with the size check of each case.\<close>

definition dispatch ::
  "'w platform_api \<Rightarrow> milliseconds \<Rightarrow> UdcMessageId option \<Rightarrow> UdcAddressMux \<Rightarrow> u32 \<Rightarrow> 'w UdcServerImpl
   \<Rightarrow> (UdcEvent option \<times> 'w UdcServerImpl) res" where
  "dispatch env time msgId address msgSize s =
     (case msgId of
        Some UDC_MSG_CONNECTION_REQUEST \<Rightarrow>
          if msgSize = msgConnection_SIZE
          then no_event (processConnectionRequest env address s) else Inr (None, s)
      | Some UDC_MSG_CONNECTION_HANDSHAKE \<Rightarrow>
          if msgSize = msgConnection_SIZE
          then processConnectionHandshake address time s else Inr (None, s)
      | Some UDC_MSG_PING \<Rightarrow>
          if msgSize = msgPingPong_SIZE then no_event (processPing env address s) else Inr (None, s)
      | Some UDC_MSG_PONG \<Rightarrow>
          if msgSize = msgPingPong_SIZE then processPong address time s else Inr (None, s)
      | Some UDC_MSG_UNRELIABLE \<Rightarrow>
          if msgSize \<ge> msgHeader_SIZE then processUnreliable address msgSize s else Inr (None, s)
      | Some UDC_MSG_RELIABLE_RESET \<Rightarrow>
          if msgSize = msgReliable_SIZE
          then processReliableMessage env (-1) address msgSize s else Inr (None, s)
      | Some UDC_MSG_RELIABLE_0 \<Rightarrow>
          if msgSize \<ge> msgReliable_SIZE
          then processReliableMessage env 0 address msgSize s else Inr (None, s)
      | Some UDC_MSG_RELIABLE_1 \<Rightarrow>
          if msgSize \<ge> msgReliable_SIZE
          then processReliableMessage env 1 address msgSize s else Inr (None, s)
      | Some UDC_MSG_RELIABLE_HANDSHAKE_RESET \<Rightarrow>
          if msgSize = msgReliable_SIZE
          then processReliableHandshake (-1) address time s else Inr (None, s)
      | Some UDC_MSG_RELIABLE_HANDSHAKE_0 \<Rightarrow>
          if msgSize = msgReliable_SIZE
          then processReliableHandshake 0 address time s else Inr (None, s)
      | Some UDC_MSG_RELIABLE_HANDSHAKE_1 \<Rightarrow>
          if msgSize = msgReliable_SIZE
          then processReliableHandshake 1 address time s else Inr (None, s)
      | None \<Rightarrow> Inr (None, s))"

text \<open>One message in the buffer: the header checks of the loop body, then the switch.\<close>

definition handle_message ::
  "'w platform_api \<Rightarrow> milliseconds \<Rightarrow> UdcAddressMux \<Rightarrow> u32 \<Rightarrow> 'w UdcServerImpl
   \<Rightarrow> (UdcEvent option \<times> 'w UdcServerImpl) res" where
  "handle_message env time address msgSize s =
     (if msgSize < msgHeader_SIZE then Inr (None, s)
      else
        bind_r (deserializeMsgSignature (m_messageBuffer s)) (\<lambda>signature.
          if signature_bytes (m_packetSignature s) \<noteq> signature_bytes signature
          then no_event (put_buffer (\<lambda>buf. serializeMsgSignature buf (m_packetSignature s)) s)
          else bind_r (deserializeMsgId (m_messageBuffer s)) (\<lambda>msgId.
            dispatch env time msgId address msgSize s)))"

text \<open>
  The loop. \<open>msgSize\<close> is one variable: it starts as the buffer's size and is the in-out
  size argument of every \<open>receive\<close>, so each iteration offers the length the previous one left.
\<close>

definition server_receive ::
  "'w platform_api \<Rightarrow> UdcAddressMux \<Rightarrow> u32 \<Rightarrow> 'w UdcServerImpl
   \<Rightarrow> (bool \<times> UdcAddressMux \<times> u32 \<times> 'w UdcServerImpl) res" where
  "server_receive env address msgSize s =
     bind_r (mux_receive env address (m_messageBuffer s) msgSize (m_socket s) (process s))
       (\<lambda>(found, address1, buf, msgSize1, mux, p).
          Inr (found, address1, msgSize1, s\<lparr>m_messageBuffer := buf, m_socket := mux, process := p\<rparr>))"

fun receive_loop ::
  "nat \<Rightarrow> 'w platform_api \<Rightarrow> milliseconds \<Rightarrow> UdcAddressMux \<Rightarrow> u32 \<Rightarrow> 'w UdcServerImpl
   \<Rightarrow> (UdcEvent option \<times> 'w UdcServerImpl) res" where
  "receive_loop 0 env time address msgSize s = Inl OutOfFuel"
| "receive_loop (Suc fuel) env time address msgSize s =
     bind_r (server_receive env address msgSize s) (\<lambda>(found, address1, msgSize1, s1).
       if \<not> found then Inr (None, s1)
       else bind_r (handle_message env time address1 msgSize1 s1) (\<lambda>(event, s2).
         case event of
           Some e \<Rightarrow> Inr (Some e, s2)
         | None \<Rightarrow> receive_loop fuel env time address1 msgSize1 s2))"

definition receiveMessages ::
  "nat \<Rightarrow> 'w platform_api \<Rightarrow> milliseconds \<Rightarrow> 'w UdcServerImpl
   \<Rightarrow> (UdcEvent option \<times> 'w UdcServerImpl) res" where
  "receiveMessages fuel env time s =
     receive_loop fuel env time (uninit_address env) (m_messageBufferSize s) s"

end
