(* ===== verification/Api.thy ===== *)
theory Api
  imports Server
begin

text \<open>
  The C interface of the library, \<open>src/udp_connect.cpp\<close>. A server pointer is the server's
  state, \<open>None\<close> for \<open>nullptr\<close> where a function checks for it. A function that returns
  \<open>bool\<close> with an output parameter returns an option of that parameter, except
  \<open>udcGetStatus\<close>, which writes its output on failure too.
\<close>

datatype UdcMessageType = UDC_UNRELIABLE_MESSAGE | UDC_RELIABLE_MESSAGE

definition udcGetMinimumBufferSize :: u32 where
  "udcGetMinimumBufferSize = msgHeader_SIZE + of_nat sizeof_uint32"

lemma udcGetMinimumBufferSize_eq [simp]: "udcGetMinimumBufferSize = 9"
  by (simp add: udcGetMinimumBufferSize_def)

definition udcCreateServer ::
  "'w platform_api \<Rightarrow> UdcSignature \<Rightarrow> byte list \<Rightarrow> u32 \<Rightarrow> string option \<Rightarrow> 'w Process
   \<Rightarrow> 'w UdcServerImpl option res" where
  "udcCreateServer env signature buffer bsize logFileName p =
     (if bsize < udcGetMinimumBufferSize then Inr None
      else
        let mux = (case logFileName of
                     None \<Rightarrow> UdcSocketMux_ctor
                   | Some name \<Rightarrow> UdcSocketMux_ctor_log env name)
        in case UdcServerImpl_ctor mux signature buffer bsize p of
             Inr server \<Rightarrow> Inr (Some server)
           | Inl RuntimeError \<Rightarrow> Inr None
           | Inl e \<Rightarrow> Inl e)"

definition udcDeleteServer :: "'w platform_api \<Rightarrow> 'w UdcServerImpl \<Rightarrow> 'w Process" where
  "udcDeleteServer env s = UdcSocketMux_dtor env (m_socket s) (process s)"

definition udcTryBindIPv4 ::
  "'w platform_api \<Rightarrow> 'w UdcServerImpl \<Rightarrow> u16 \<Rightarrow> (bool \<times> 'w UdcServerImpl) res" where
  "udcTryBindIPv4 env s port = tryBindIPv4 env port s"

definition udcTryBindIPv6 ::
  "'w platform_api \<Rightarrow> 'w UdcServerImpl \<Rightarrow> u16 \<Rightarrow> (bool \<times> 'w UdcServerImpl) res" where
  "udcTryBindIPv6 env s port = tryBindIPv6 env port s"

definition udcTryParseAddressIPv4 ::
  "'w platform_api \<Rightarrow> string \<Rightarrow> string \<Rightarrow> 'w Process \<Rightarrow> (UdcAddressIPv4 \<times> u16) option \<times> 'w Process"
  where
  "udcTryParseAddressIPv4 env nodeName serviceName p = stringToIPv4 env nodeName serviceName p"

definition udcTryParseAddressIPv6 ::
  "'w platform_api \<Rightarrow> string \<Rightarrow> string \<Rightarrow> 'w Process \<Rightarrow> (UdcAddressIPv6 \<times> u16) option \<times> 'w Process"
  where
  "udcTryParseAddressIPv6 env nodeName serviceName p = stringToIPv6 env nodeName serviceName p"

text \<open>\<open>system_clock::now()\<close> in milliseconds since the epoch.\<close>

definition current_time :: "'w platform_api \<Rightarrow> 'w UdcServerImpl \<Rightarrow> milliseconds \<times> 'w UdcServerImpl" where
  "current_time env s =
     (let (t, w) = api_now env (os (process s)) in (t, s\<lparr>process := (process s)\<lparr>os := w\<rparr>\<rparr>))"

definition udcTryConnectIPv4 ::
  "'w platform_api \<Rightarrow> 'w UdcServerImpl option \<Rightarrow> UdcAddressIPv4 \<Rightarrow> u16 \<Rightarrow> u32
   \<Rightarrow> (u32 option \<times> 'w UdcServerImpl option) res" where
  "udcTryConnectIPv4 env server ip port timeout =
     (case server of
        None \<Rightarrow> Inr (None, None)
      | Some s \<Rightarrow>
          if timeout = 0 then Inr (None, Some s)
          else
            let (currentTime, s1) = current_time env s;
                address = \<lparr>am_family = UDC_IPV4,
                           am_address = union_set_ipv4 ip (IPv6 0 0 0 0 0 0 0 0), am_port = port\<rparr>;
                (endPointId, s2) = createUniqueId s1;
                (client, s3) = make_shared (UdcClient_ctor endPointId address
                     (int (unat timeout)) (min 500 (int (unat timeout) div 10))) s2
            in bind_r (addPendingClient client currentTime s3) (\<lambda>s4.
               Inr (Some endPointId, Some s4)))"

definition udcTryConnectIPv6 ::
  "'w platform_api \<Rightarrow> 'w UdcServerImpl option \<Rightarrow> UdcAddressIPv6 \<Rightarrow> u16 \<Rightarrow> u32
   \<Rightarrow> (u32 option \<times> 'w UdcServerImpl option) res" where
  "udcTryConnectIPv6 env server ip port timeout =
     (case server of
        None \<Rightarrow> Inr (None, None)
      | Some s \<Rightarrow>
          if timeout = 0 then Inr (None, Some s)
          else
            let (currentTime, s1) = current_time env s;
                address = \<lparr>am_family = UDC_IPV6, am_address = ip, am_port = port\<rparr>;
                (endPointId, s2) = createUniqueId s1;
                (client, s3) = make_shared (UdcClient_ctor endPointId address
                     (int (unat timeout)) (min 500 (int (unat timeout) div 10))) s2
            in bind_r (addPendingClient client currentTime s3) (\<lambda>s4.
               Inr (Some endPointId, Some s4)))"

text \<open>For a server that is not \<open>nullptr\<close>; name resolution runs in the server's process.\<close>

definition udcTryConnect ::
  "'w platform_api \<Rightarrow> 'w UdcServerImpl \<Rightarrow> string \<Rightarrow> string \<Rightarrow> u32
   \<Rightarrow> (u32 option \<times> 'w UdcServerImpl option) res" where
  "udcTryConnect env s nodeName serviceName timeout =
     (let (r6, p1) = stringToIPv6 env nodeName serviceName (process s); s1 = s\<lparr>process := p1\<rparr>
      in case r6 of
           Some (ipv6, port) \<Rightarrow> udcTryConnectIPv6 env (Some s1) ipv6 port timeout
         | None \<Rightarrow>
             let (r4, p2) = stringToIPv4 env nodeName serviceName (process s1);
                 s2 = s1\<lparr>process := p2\<rparr>
             in case r4 of
                  Some (ipv4, port) \<Rightarrow> udcTryConnectIPv4 env (Some s2) ipv4 port timeout
                | None \<Rightarrow> Inr (None, Some s2))"

definition udcGetStatus ::
  "'w platform_api \<Rightarrow> 'w UdcServerImpl \<Rightarrow> u32 \<Rightarrow> (bool \<times> u32) res" where
  "udcGetStatus env s eid =
     bind_r (getEndPointStatus eid s) (\<lambda>result.
       case result of
         Some cping \<Rightarrow> Inr (True, word_of_int cping)
       | None \<Rightarrow> Inr (False, word_of_int (uninit_ping env)))"

definition udcDisconnect :: "'w UdcServerImpl \<Rightarrow> u32 \<Rightarrow> 'w UdcServerImpl res" where
  "udcDisconnect s endPointId = disconnectFromClient endPointId s"

definition udcProcessEvents ::
  "nat \<Rightarrow> 'w platform_api \<Rightarrow> 'w UdcServerImpl \<Rightarrow> (UdcEvent option \<times> 'w UdcServerImpl) res" where
  "udcProcessEvents fuel env s =
     (let (currentTime, s0) = current_time env s
      in bind_r (updatePendingClients env currentTime s0) (\<lambda>(event, s1).
         case event of
           Some e \<Rightarrow> Inr (Some e, s1)
         | None \<Rightarrow> bind_r (updateClientConnectionStatus env currentTime s1) (\<lambda>(event, s2).
             case event of
               Some e \<Rightarrow> Inr (Some e, s2)
             | None \<Rightarrow> receiveMessages fuel env currentTime s2)))"

definition udcSendMessage ::
  "'w platform_api \<Rightarrow> 'w UdcServerImpl \<Rightarrow> u32 \<Rightarrow> byte list \<Rightarrow> u32 \<Rightarrow> UdcMessageType
   \<Rightarrow> (bool \<times> 'w UdcServerImpl) res" where
  "udcSendMessage env s endPointId data dsize reliability =
     (if reliability = UDC_UNRELIABLE_MESSAGE
      then sendUnreliableMessage env endPointId data dsize s
      else sendReliableMessage endPointId data dsize s)"

end
