(* ===== verification/Server_Safety.thy ===== *)
theory Server_Safety
  imports Api
begin

text \<open>
  Safety of the server. \<open>server_inv\<close> is what holds between two calls of the library: the
  message buffer is as large as the server was told and at least the minimum, no reference
  dangles, connected clients are filed under their own id, every queued message fits the
  buffer, and the reliable states are the ones the protocol uses. For every operation:
  started in the invariant it ends without a fault (no access outside a buffer, no dangling
  pointer, no failing \<open>assert\<close>) and keeps the invariant.
\<close>

section \<open>Operations that touch only the buffer, the socket and the process\<close>

definition io_only :: "'w UdcServerImpl \<Rightarrow> 'w UdcServerImpl \<Rightarrow> bool" where
  "io_only s s' \<longleftrightarrow>
     (\<exists>buf mux p. s' = s\<lparr>m_messageBuffer := buf, m_socket := mux, process := p\<rparr> \<and>
        length buf = length (m_messageBuffer s) \<and>
        read_at 0 4 buf = read_at 0 4 (m_messageBuffer s) \<and>
        same_sockets (m_socket s) mux)"

lemma io_onlyI:
  "s' = s\<lparr>m_messageBuffer := buf, m_socket := mux, process := p\<rparr> \<Longrightarrow>
   length buf = length (m_messageBuffer s) \<Longrightarrow>
   read_at 0 4 buf = read_at 0 4 (m_messageBuffer s) \<Longrightarrow>
   same_sockets (m_socket s) mux \<Longrightarrow> io_only s s'"
  by (auto simp: io_only_def)

lemma io_only_refl [simp]: "io_only s s"
  unfolding io_only_def
  by (rule exI [of _ "m_messageBuffer s"], rule exI [of _ "m_socket s"], rule exI [of _ "process s"]) simp

lemma io_only_trans: "io_only a b \<Longrightarrow> io_only b c \<Longrightarrow> io_only a c"
  unfolding io_only_def same_sockets_def by (clarsimp) metis

lemma io_only_length: "io_only s s' \<Longrightarrow> length (m_messageBuffer s') = length (m_messageBuffer s)"
  by (auto simp: io_only_def)

lemma io_only_frame:
  assumes "io_only s s'"
  shows "m_idCounter s' = m_idCounter s" "m_packetSignature s' = m_packetSignature s"
    "m_eventBuffer s' = m_eventBuffer s" "m_pendingClients s' = m_pendingClients s"
    "m_clientsById s' = m_clientsById s" "m_clientsByAddress s' = m_clientsByAddress s"
    "m_reliableStates s' = m_reliableStates s" "m_messageBufferSize s' = m_messageBufferSize s"
    "heap s' = heap s" "heap_next s' = heap_next s"
    "same_sockets (m_socket s) (m_socket s')"
    "read_at 0 4 (m_messageBuffer s') = read_at 0 4 (m_messageBuffer s)"
  using assms by (auto simp: io_only_def)

lemma io_bindI:
  "ok_r m (io_only s) \<Longrightarrow> (\<And>s1. io_only s s1 \<Longrightarrow> ok_r (f s1) (io_only s1)) \<Longrightarrow>
   ok_r (bind_r m f) (io_only s)"
  by (erule ok_r_bindI, rule ok_r_mono, blast, rule io_only_trans)

lemma put_buffer_io:
  assumes "op (m_messageBuffer s) = Inr (write_at d xs (m_messageBuffer s))"
    and "4 \<le> d" and "d + length xs \<le> length (m_messageBuffer s)"
  shows "ok_r (put_buffer op s) (io_only s)"
proof -
  have "read_at 0 4 (write_at d xs (m_messageBuffer s)) = read_at 0 4 (m_messageBuffer s)"
    using assms by (intro read_at_write_before) simp_all
  then show ?thesis
    unfolding put_buffer_def assms(1)
    by (auto simp: io_only_def assms(3) intro!: exI [of _ "m_socket s"] exI [of _ "process s"])
qed

lemma put_id_io:
  "5 \<le> length (m_messageBuffer s) \<Longrightarrow> ok_r (put_buffer (\<lambda>buf. serializeMsgId buf m) s) (io_only s)"
  using put_buffer_io [of "\<lambda>buf. serializeMsgId buf m" s 4 "[UdcMessageId_code m]"]
  by (simp add: codec_simps)

lemma put_word_io:
  assumes "9 \<le> length (m_messageBuffer s)"
  shows "ok_r (put_buffer (\<lambda>buf. msgConnection_serializeEndPointId buf i) s) (io_only s)"
    and "ok_r (put_buffer (\<lambda>buf. msgPingPong_serializeTimeStamp buf i) s) (io_only s)"
    and "ok_r (put_buffer (\<lambda>buf. msgReliable_serializeTimeStamp buf i) s) (io_only s)"
  using assms put_buffer_io [of _ s 5 "u32_bytes i"] by (simp_all add: codec_simps)

lemma put_data_io:
  assumes "unat n \<le> length data"
  shows "5 + unat n \<le> length (m_messageBuffer s) \<Longrightarrow>
           ok_r (put_buffer (\<lambda>buf. msgUnreliable_serializeData buf data n) s) (io_only s)"
    and "9 + unat n \<le> length (m_messageBuffer s) \<Longrightarrow>
           ok_r (put_buffer (\<lambda>buf. msgReliable_serializeData buf data n) s) (io_only s)"
  using assms put_buffer_io [of _ s 5 "take (unat n) data"] put_buffer_io [of _ s 9 "take (unat n) data"]
  by (simp_all add: codec_simps)

lemma server_send_io:
  assumes "unat n \<le> length (m_messageBuffer s)"
  shows "ok_r (server_send env a n s) (io_only s)"
  unfolding server_send_def
  by (rule ok_r_bindI [OF mux_send_ok [OF assms]])
    (clarsimp, rule io_onlyI [where buf = "m_messageBuffer s"], simp_all)

section \<open>The invariant\<close>

definition buffer_ok :: "'w UdcServerImpl \<Rightarrow> bool" where
  "buffer_ok s \<longleftrightarrow>
     9 \<le> unat (m_messageBufferSize s) \<and> fits (m_messageBufferSize s) (m_messageBuffer s)"

text \<open>The longest payload of a reliable message.\<close>

definition max_payload :: "'w UdcServerImpl \<Rightarrow> nat" where
  "max_payload s = unat (m_messageBufferSize s) - 9"

definition refs_ok :: "'w UdcServerImpl \<Rightarrow> bool" where
  "refs_ok s \<longleftrightarrow>
     set (m_pendingClients s) \<union> ran (m_clientsById s) \<union> ran (map_of_nodes (m_clientsByAddress s))
       \<subseteq> dom (heap s)"

definition heap_ok :: "'w UdcServerImpl \<Rightarrow> bool" where
  "heap_ok s \<longleftrightarrow>
     (\<forall>r c. heap s r = Some c \<longrightarrow> r < heap_next s \<and> client_wf (max_payload s) c)"

definition ids_ok :: "'w UdcServerImpl \<Rightarrow> bool" where
  "ids_ok s \<longleftrightarrow>
     finite (dom (m_clientsById s)) \<and>
     (\<forall>i r c. m_clientsById s i = Some r \<longrightarrow> heap s r = Some c \<longrightarrow> m_id c = i)"

definition states_ok :: "'w UdcServerImpl \<Rightarrow> bool" where
  "states_ok s \<longleftrightarrow> ran (map_of_nodes (m_reliableStates s)) \<subseteq> {0, 1}"

definition server_inv :: "'w UdcServerImpl \<Rightarrow> bool" where
  "server_inv s \<longleftrightarrow> buffer_ok s \<and> refs_ok s \<and> heap_ok s \<and> ids_ok s \<and> states_ok s"

lemmas inv_defs = server_inv_def buffer_ok_def refs_ok_def heap_ok_def ids_ok_def states_ok_def
  max_payload_def

lemma server_inv_buffer:
  assumes "server_inv s"
  shows "9 \<le> length (m_messageBuffer s)" "5 \<le> length (m_messageBuffer s)"
    "4 \<le> length (m_messageBuffer s)"
    "9 \<le> unat (m_messageBufferSize s)" "9 \<le> m_messageBufferSize s"
    "unat (m_messageBufferSize s) \<le> length (m_messageBuffer s)"
    "unat (m_messageBufferSize s) < 2147483648"
proof -
  have b: "9 \<le> unat (m_messageBufferSize s)" "unat (m_messageBufferSize s) \<le> length (m_messageBuffer s)"
    "unat (m_messageBufferSize s) < 2147483648"
    using assms by (auto simp: server_inv_def buffer_ok_def fits_iff)
  then show "9 \<le> length (m_messageBuffer s)" "5 \<le> length (m_messageBuffer s)"
    "4 \<le> length (m_messageBuffer s)"
    "9 \<le> unat (m_messageBufferSize s)" "unat (m_messageBufferSize s) \<le> length (m_messageBuffer s)"
    "unat (m_messageBufferSize s) < 2147483648"
    by linarith+
  show "9 \<le> m_messageBufferSize s" using b(1) by (simp add: word_le_nat_alt)
qed

text \<open>
  What no operation on an existing server changes, apart from binding and connecting: its
  sockets, signature and buffer size, the id counter, and which client objects exist under
  which ids.
\<close>

definition object_ids :: "'w UdcServerImpl \<Rightarrow> ref \<rightharpoonup> u32" where
  "object_ids s = map_option m_id \<circ> heap s"

lemma object_ids_simps [simp]:
  "object_ids (s\<lparr>m_socket := mux\<rparr>) = object_ids s"
  "object_ids (s\<lparr>m_eventBuffer := e\<rparr>) = object_ids s"
  "object_ids (s\<lparr>m_pendingClients := rs\<rparr>) = object_ids s"
  "object_ids (s\<lparr>m_clientsById := ids\<rparr>) = object_ids s"
  "object_ids (s\<lparr>m_clientsByAddress := ads\<rparr>) = object_ids s"
  "object_ids (s\<lparr>m_reliableStates := sts\<rparr>) = object_ids s"
  "object_ids (s\<lparr>m_messageBuffer := buf\<rparr>) = object_ids s"
  "object_ids (s\<lparr>process := p\<rparr>) = object_ids s"
  "heap s r = Some c \<Longrightarrow> m_id c' = m_id c \<Longrightarrow>
     object_ids (s\<lparr>heap := (heap s)(r \<mapsto> c')\<rparr>) = object_ids s"
  by (auto simp: object_ids_def fun_eq_iff)

definition kept :: "'w UdcServerImpl \<Rightarrow> 'w UdcServerImpl \<Rightarrow> bool" where
  "kept s s' \<longleftrightarrow>
     same_sockets (m_socket s) (m_socket s') \<and> m_packetSignature s' = m_packetSignature s \<and>
     m_messageBufferSize s' = m_messageBufferSize s \<and>
     length (m_messageBuffer s') = length (m_messageBuffer s) \<and>
     m_idCounter s' = m_idCounter s \<and> heap_next s' = heap_next s \<and> object_ids s' = object_ids s"

lemma kept_refl [simp]: "kept s s"
  by (simp add: kept_def)

lemma kept_trans: "kept a b \<Longrightarrow> kept b c \<Longrightarrow> kept a c"
  by (auto simp: kept_def same_sockets_def)

lemma io_only_kept: "io_only s s' \<Longrightarrow> kept s s'"
  by (auto simp: kept_def io_only_def)

lemma io_only_inv: "io_only s s' \<Longrightarrow> server_inv s \<Longrightarrow> server_inv s'"
  by (auto simp: io_only_def inv_defs fits_def)

lemma deref_ok: "r \<in> dom (heap s) \<Longrightarrow> \<exists>c. deref r s = Inr c \<and> heap s r = Some c"
  by (auto simp: deref_def)

lemma server_inv_store:
  assumes "server_inv s" and "heap s r = Some c" and "client_wf (max_payload s) c'" and "m_id c' = m_id c"
  shows "server_inv (store r c' s)"
  using assms by (auto simp: inv_defs store_def)

lemma object_ids_store [simp]:
  "heap s r = Some c \<Longrightarrow> m_id c' = m_id c \<Longrightarrow> object_ids (store r c' s) = object_ids s"
  by (simp add: store_def)

lemma kept_store [simp]: "heap s' r = Some c \<Longrightarrow> m_id c' = m_id c \<Longrightarrow> kept s (store r c' s') = kept s s'"
  by (simp add: kept_def) (simp add: store_def)

lemma server_inv_client:
  assumes "server_inv s"
  shows "m_clientsById s i = Some r \<Longrightarrow> \<exists>c. deref r s = Inr c \<and> heap s r = Some c \<and> m_id c = i"
    and "UdcAddressMap_find (m_clientsByAddress s) a = Some r \<Longrightarrow> \<exists>c. deref r s = Inr c \<and> heap s r = Some c"
    and "r \<in> set (m_pendingClients s) \<Longrightarrow> \<exists>c. deref r s = Inr c \<and> heap s r = Some c"
proof -
  show "m_clientsById s i = Some r \<Longrightarrow> \<exists>c. deref r s = Inr c \<and> heap s r = Some c \<and> m_id c = i"
  proof -
    assume i: "m_clientsById s i = Some r"
    then have "r \<in> dom (heap s)" using assms by (auto simp: inv_defs ran_def)
    then obtain c where "deref r s = Inr c" "heap s r = Some c" using deref_ok by blast
    with i assms show ?thesis by (auto simp: inv_defs)
  qed
  show "UdcAddressMap_find (m_clientsByAddress s) a = Some r \<Longrightarrow> \<exists>c. deref r s = Inr c \<and> heap s r = Some c"
    using assms address_map.find_ran [of "m_clientsByAddress s" a r]
    by (intro deref_ok) (auto simp: inv_defs)
  show "r \<in> set (m_pendingClients s) \<Longrightarrow> \<exists>c. deref r s = Inr c \<and> heap s r = Some c"
    using assms by (intro deref_ok) (auto simp: inv_defs)
qed

lemma server_inv_wf: "server_inv s \<Longrightarrow> heap s r = Some c \<Longrightarrow> client_wf (max_payload s) c"
  by (auto simp: inv_defs)

lemma server_inv_event [simp]: "server_inv (s\<lparr>m_eventBuffer := e\<rparr>) = server_inv s"
  by (simp add: inv_defs)

lemma kept_event [simp]: "kept s (s'\<lparr>m_eventBuffer := e\<rparr>) = kept s s'"
  by (simp add: kept_def)

lemma ok_emit: "ok_r (emit f s) (\<lambda>(e, s'). P e s') = P (Some (f (m_eventBuffer s))) (s\<lparr>m_eventBuffer := f (m_eventBuffer s)\<rparr>)"
  by (simp add: emit_def)

section \<open>The operations of the class\<close>

text \<open>An operation that only does I/O keeps the invariant.\<close>

lemma io_ok: "ok_r m (io_only s) \<Longrightarrow> server_inv s \<Longrightarrow> ok_r m (\<lambda>s'. server_inv s' \<and> kept s s')"
  by (erule ok_r_mono) (auto intro: io_only_inv io_only_kept)

text \<open>Message composition: id, one word, then the datagram leaves.\<close>

lemma send_id_io:
  assumes "5 \<le> length (m_messageBuffer s)" and "unat n \<le> length (m_messageBuffer s)"
  shows "ok_r (bind_r (put_buffer (\<lambda>buf. serializeMsgId buf m) s) (server_send env a n)) (io_only s)"
  using assms by (intro io_bindI [OF put_id_io] server_send_io) (simp_all add: io_only_length)

lemma send_word_io:
  assumes "9 \<le> length (m_messageBuffer s)" and "unat n \<le> length (m_messageBuffer s)"
  shows "ok_r (bind_r (put_buffer (\<lambda>buf. serializeMsgId buf m) s) (\<lambda>s1.
               bind_r (put_buffer (\<lambda>buf. msgConnection_serializeEndPointId buf i) s1)
               (server_send env a n))) (io_only s)"
    and "ok_r (bind_r (put_buffer (\<lambda>buf. serializeMsgId buf m) s) (\<lambda>s1.
               bind_r (put_buffer (\<lambda>buf. msgPingPong_serializeTimeStamp buf i) s1)
               (server_send env a n))) (io_only s)"
    and "ok_r (bind_r (put_buffer (\<lambda>buf. serializeMsgId buf m) s) (\<lambda>s1.
               bind_r (put_buffer (\<lambda>buf. msgReliable_serializeTimeStamp buf i) s1)
               (server_send env a n))) (io_only s)"
  using assms
  by (intro io_bindI [OF put_id_io] io_bindI [OF put_word_io(1)] io_bindI [OF put_word_io(2)]
      io_bindI [OF put_word_io(3)] server_send_io; simp add: io_only_length)+

text \<open>One step of I/O inside an operation.\<close>

lemma io_step:
  assumes "ok_r m (io_only s)" and "server_inv s"
    and "\<And>s1. io_only s s1 \<Longrightarrow> server_inv s1 \<Longrightarrow> kept s s1 \<Longrightarrow> ok_r (f s1) P"
  shows "ok_r (bind_r m f) P"
  using assms(1) by (rule ok_r_bindI) (auto intro: assms(3) io_only_inv [OF _ assms(2)] io_only_kept)

definition safe_op :: "'w UdcServerImpl \<Rightarrow> ('a \<times> 'w UdcServerImpl) res \<Rightarrow> bool" where
  "safe_op s m \<longleftrightarrow> ok_r m (\<lambda>(_, s'). server_inv s' \<and> kept s s')"

lemma safe_op_Inr [simp]: "safe_op s (Inr (x, s')) = (server_inv s' \<and> kept s s')"
  by (simp add: safe_op_def)

lemma safe_op_io:
  assumes "ok_r m (io_only s0)" and "server_inv s0" and "kept s s0"
    and "\<And>s1. io_only s0 s1 \<Longrightarrow> server_inv s1 \<Longrightarrow> kept s s1 \<Longrightarrow> safe_op s (f s1)"
  shows "safe_op s (bind_r m f)"
  unfolding safe_op_def
  by (rule io_step [OF assms(1,2)]) (use assms(3,4) kept_trans in \<open>auto simp: safe_op_def\<close>)

lemma safe_op_emit [simp]: "safe_op s (emit f s') = (server_inv s' \<and> kept s s')"
  by (simp add: safe_op_def emit_def)

lemma safe_op_assert [simp]: "safe_op s (assert_r c m) = (c \<and> safe_op s m)"
  by (simp add: safe_op_def)

lemma safe_op_no_event [simp]: "safe_op s (no_event m) = ok_r m (\<lambda>s'. server_inv s' \<and> kept s s')"
  by (simp add: safe_op_def no_event_def)

lemma safe_op_bind:
  assumes "safe_op s m" and "\<And>x s1. m = Inr (x, s1) \<Longrightarrow> server_inv s1 \<Longrightarrow> kept s s1 \<Longrightarrow> safe_op s1 (f (x, s1))"
  shows "safe_op s (bind_r m f)"
proof -
  from assms(1) obtain x s1 where m: "m = Inr (x, s1)" and k: "server_inv s1" "kept s s1"
    by (auto simp: safe_op_def ok_r_iff)
  from assms(2) [OF m k] show ?thesis
    using k by (auto simp: m safe_op_def elim!: ok_r_mono intro: kept_trans)
qed

lemma server_inv_pending:
  "server_inv s \<Longrightarrow> set rs \<subseteq> set (m_pendingClients s) \<Longrightarrow> server_inv (s\<lparr>m_pendingClients := rs\<rparr>)"
  unfolding inv_defs by auto

lemma kept_pending [simp]: "kept s (s'\<lparr>m_pendingClients := rs\<rparr>) = kept s s'"
  by (simp add: kept_def)

lemma updatePendingClients_safe: 
  assumes "server_inv s"
  shows "safe_op s (updatePendingClients env time s)"
proof (cases "m_pendingClients s")
  case Nil
  with assms show ?thesis by (simp add: updatePendingClients_def tryGetFirstPendingClient_def)
next
  case (Cons r rs)
  with server_inv_client(3) [OF assms, of r] obtain c where c: "deref r s = Inr c" "heap s r = Some c"
    by auto
  have "server_inv (s\<lparr>m_pendingClients := rs\<rparr>)" using Cons assms by (intro server_inv_pending) auto
  moreover have "server_inv (store r (retryConnecting time c) s)"
    using c server_inv_wf [OF assms c(2)] by (intro server_inv_store [OF assms]) auto
  ultimately show ?thesis
    using Cons c assms
    by (auto simp: updatePendingClients_def tryGetFirstPendingClient_def Let_def
       server_inv_buffer simp del: ok_r_bind
       intro!: safe_op_io [OF put_id_io] safe_op_io [OF put_word_io(1)] safe_op_io [OF server_send_io])
qed

section \<open>Sending\<close>

lemma kept_trans_io: "kept s s0 \<Longrightarrow> io_only s0 s1 \<Longrightarrow> kept s s1"
  using io_only_kept kept_trans by blast

lemma no_wrap:
  fixes n k b :: u32
  assumes "unat n + unat k < 2 ^ 32" and "n + k \<le> b"
  shows "unat n + unat k \<le> unat b"
  using assms by (simp add: word_le_nat_alt unat_word_ariths)

lemma sendUnreliableMessage_safe:
  assumes inv: "server_inv s" and len: "unat dsize \<le> length data" and small: "unat dsize + 5 < 2 ^ 32"
  shows "safe_op s (sendUnreliableMessage env endPointId data dsize s)"
proof (cases "dsize + msgUnreliable_SIZE > m_messageBufferSize s \<or> m_clientsById s endPointId = None")
  case True
  then show ?thesis using inv by (auto simp: sendUnreliableMessage_def tryGetClientById_def)
next
  case False
  then obtain r where r: "m_clientsById s endPointId = Some r" by auto
  from server_inv_client(1) [OF inv r] obtain c where c: "deref r s = Inr c" by blast
  have fit: "unat dsize + 5 \<le> length (m_messageBuffer s)"
    using False no_wrap [of dsize 5 "m_messageBufferSize s"] small server_inv_buffer(6) [OF inv] by (simp add: not_less)
  have sum: "unat (5 + dsize) = 5 + unat dsize"
    using small by (subst unat_add_lem [THEN iffD1]) simp_all
  show ?thesis
    using False r c inv fit len
    by (auto simp: sendUnreliableMessage_def tryGetClientById_def server_inv_buffer io_only_length sum
       simp del: ok_r_bind
       intro!: safe_op_io [OF put_id_io] safe_op_io [OF put_data_io(1)] safe_op_io [OF server_send_io])
qed

lemma sendReliableMessage_safe:
  assumes inv: "server_inv s" and len: "unat dsize \<le> length data" and small: "unat dsize + 9 < 2 ^ 32"
  shows "safe_op s (sendReliableMessage endPointId data dsize s)"
proof (cases "dsize + msgReliable_SIZE > m_messageBufferSize s \<or> m_clientsById s endPointId = None")
  case True
  then show ?thesis using inv by (auto simp: sendReliableMessage_def tryGetClientById_def)
next
  case False
  then obtain r where r: "m_clientsById s endPointId = Some r" by auto
  from server_inv_client(1) [OF inv r] obtain c where c: "deref r s = Inr c" "heap s r = Some c" by blast
  have "unat dsize \<le> max_payload s"
    using False no_wrap [of dsize 9 "m_messageBufferSize s"] small
    by (auto simp: max_payload_def not_less)
  with server_inv_wf [OF inv c(2)] len
  have "server_inv (store r (reliableMessages_push (take (unat dsize) data) c) s)"
    by (intro server_inv_store [OF inv c(2)]) auto
  then show ?thesis
    using False r c len by (auto simp: sendReliableMessage_def tryGetClientById_def)
qed

section \<open>Updating the connected clients\<close>

text \<open>The frame of the loop body: the maps stay, and the objects in the heap.\<close>

definition upd_ok :: "'w UdcServerImpl \<Rightarrow> 'w UdcServerImpl \<Rightarrow> bool" where
  "upd_ok s s' \<longleftrightarrow>
     server_inv s' \<and> kept s s' \<and> m_clientsById s' = m_clientsById s \<and> dom (heap s') = dom (heap s)"

lemma upd_ok_trans: "upd_ok a b \<Longrightarrow> upd_ok b c \<Longrightarrow> upd_ok a c"
  by (auto simp: upd_ok_def intro: kept_trans)

lemma upd_ok_refl: "server_inv s \<Longrightarrow> upd_ok s s"
  by (simp add: upd_ok_def)

lemma upd_ok_inv: "upd_ok s0 s \<Longrightarrow> server_inv s"
  by (simp add: upd_ok_def)

lemma upd_ok_io: "io_only s s' \<Longrightarrow> server_inv s \<Longrightarrow> upd_ok s s'"
  by (simp add: upd_ok_def io_only_inv io_only_kept io_only_frame)

lemma upd_ok_store:
  "upd_ok s0 s \<Longrightarrow> heap s r = Some c \<Longrightarrow> client_wf (max_payload s) c' \<Longrightarrow> m_id c' = m_id c \<Longrightarrow>
   upd_ok s0 (store r c' s)"
  unfolding upd_ok_def using server_inv_store [of s r c c'] by (auto simp: store_def kept_def)

lemma upd_io_bind:
  assumes "ok_r m (io_only s)" and "upd_ok s0 s"
    and "\<And>s1. io_only s s1 \<Longrightarrow> upd_ok s0 s1 \<Longrightarrow> ok_r (f s1) (upd_ok s0)"
  shows "ok_r (bind_r m f) (upd_ok s0)"
  using assms(1)
  by (rule ok_r_bindI)
    (blast intro: assms(3) upd_ok_trans [OF assms(2)] upd_ok_io upd_ok_inv [OF assms(2)])

lemma update_reliable_safe:
  assumes inv: "server_inv s" and r: "r \<in> dom (heap s)"
  shows "ok_r (update_reliable env time r s) (upd_ok s)"
proof -
  from deref_ok [OF r] obtain c where c: "deref r s = Inr c" "heap s r = Some c" by blast
  note wf = server_inv_wf [OF inv c(2)]
  show ?thesis
  proof (cases "m_reliableMessages c")
    case Nil
    then show ?thesis using c inv by (simp add: update_reliable_def upd_ok_refl)
  next
    case (Cons msg rest)
    with wf have msg: "length msg \<le> max_payload s" by (simp add: client_wf_def)
    then have len: "9 + length msg \<le> unat (m_messageBufferSize s)"
      using server_inv_buffer(4) [OF inv] by (simp add: max_payload_def)
    then have small: "length msg < 2 ^ 32" "9 + length msg < 2 ^ 32"
      using unat_bound32 [of "m_messageBufferSize s"] by simp_all
    then have sz: "unat (of_nat (length msg) :: u32) = length msg"
      "unat (of_nat (9 + length msg) :: u32) = 9 + length msg"
      by (simp_all add: unat_of_nat del: of_nat_add)
    note buf = len server_inv_buffer [OF inv]
    have send: "ok_r (bind_r (put_buffer (\<lambda>buf. serializeMsgId buf m) s) (\<lambda>s1.
                bind_r (put_buffer (\<lambda>buf. msgReliable_serializeTimeStamp buf (word_of_int time)) s1) (\<lambda>s2.
                bind_r (put_buffer (\<lambda>buf. msgReliable_serializeData buf msg (of_nat (length msg))) s2) (\<lambda>s3.
                bind_r (server_send env (m_outgoingAddress c) (of_nat (9 + length msg)) s3) (\<lambda>s4.
                Inr (store r (setSendReliable time c) s4)))))) (upd_ok s)" for m
      using buf sz c inv
      by (intro upd_io_bind [OF put_id_io] upd_io_bind [OF put_word_io(3)] upd_io_bind [OF put_data_io(2)]
          upd_io_bind [OF server_send_io])
       (auto simp add: io_only_length io_only_frame max_payload_def upd_ok_refl simp del: of_nat_add
        intro!: upd_ok_store wf [unfolded max_payload_def])
    have reset: "ok_r (bind_r (put_buffer (\<lambda>buf. serializeMsgId buf UDC_MSG_RELIABLE_RESET) s) (\<lambda>s1.
                bind_r (put_buffer (\<lambda>buf. msgReliable_serializeTimeStamp buf (word_of_int time)) s1) (\<lambda>s2.
                server_send env (m_outgoingAddress c) msgReliable_SIZE s2))) (upd_ok s)"
      using buf inv by (intro ok_r_mono [OF send_word_io(3)]) (auto intro: upd_ok_io)
    show ?thesis
      using c Cons send reset len inv wf
      by (auto simp: update_reliable_def upd_ok_refl word_le_nat_alt simp del: ok_r_bind
          intro!: upd_ok_store)
  qed
qed


lemma update_ping_safe:
  assumes inv: "server_inv s" and r: "r \<in> dom (heap s)"
  shows "ok_r (update_ping env time r s) (upd_ok s)"
proof -
  from deref_ok [OF r] obtain c where c: "deref r s = Inr c" by blast
  have "ok_r (bind_r (put_buffer (\<lambda>buf. serializeMsgId buf UDC_MSG_PING) s) (\<lambda>s1.
               bind_r (put_buffer (\<lambda>buf. msgPingPong_serializeTimeStamp buf (word_of_int time)) s1)
               (server_send env (m_outgoingAddress c) msgPingPong_SIZE))) (upd_ok s)"
    using server_inv_buffer [OF inv] inv
    by (intro ok_r_mono [OF send_word_io(2)]) (auto intro: upd_ok_io)
  then show ?thesis
    using c inv server_inv_buffer(5) [OF inv]
    by (simp add: update_ping_def upd_ok_refl del: ok_r_bind split: if_split)
qed

lemma update_lost_safe:
  assumes inv: "server_inv s" and r: "r \<in> dom (heap s)"
  shows "ok_r (update_lost time r s) (\<lambda>(_, s'). upd_ok s s')"
proof -
  from deref_ok [OF r] obtain c where c: "deref r s = Inr c" "heap s r = Some c" by blast
  have "upd_ok s (store r (setConnectionLost c) s)"
    using server_inv_wf [OF inv c(2)] by (intro upd_ok_store [OF upd_ok_refl [OF inv] c(2)]) simp_all
  then show ?thesis
    using c inv by (auto simp: update_lost_def upd_ok_refl ok_emit) (auto simp: upd_ok_def)
qed

lemma update_client_safe:
  assumes inv: "server_inv s" and r: "r \<in> dom (heap s)"
  shows "ok_r (update_client env time r s) (\<lambda>(_, s'). upd_ok s s')"
  unfolding update_client_def
proof (rule ok_r_bindI [OF update_reliable_safe [OF inv r]])
  fix s1 assume u: "upd_ok s s1"
  then have s1: "server_inv s1" "r \<in> dom (heap s1)" using r by (auto simp: upd_ok_def)
  show "ok_r (bind_r (update_ping env time r s1) (update_lost time r)) (\<lambda>(_, s'). upd_ok s s')"
  proof (rule ok_r_bindI [OF update_ping_safe [OF s1]])
    fix s2 assume v: "upd_ok s1 s2"
    with s1 have "ok_r (update_lost time r s2) (\<lambda>(_, s'). upd_ok s2 s')"
      by (intro update_lost_safe) (auto simp: upd_ok_def)
    then show "ok_r (update_lost time r s2) (\<lambda>(_, s'). upd_ok s s')"
      using upd_ok_trans [OF upd_ok_trans [OF u v]] by (elim ok_r_mono) auto
  qed
qed

lemma update_clients_safe:
  assumes "server_inv s" and "set is \<subseteq> dom (m_clientsById s)"
  shows "ok_r (update_clients env time is s) (\<lambda>(_, s'). upd_ok s s')"
  using assms
proof (induction "is" arbitrary: s)
  case Nil
  then show ?case by (simp add: upd_ok_refl)
next
  case (Cons i "is")
  then obtain r where r: "m_clientsById s i = Some r" by auto
  with server_inv_client(1) [OF Cons.prems(1)] have "r \<in> dom (heap s)" by blast
  note step = update_client_safe [OF Cons.prems(1) this, of env time]
  show ?case
  proof (simp add: r del: ok_r_bind, rule ok_r_bindI [OF step], clarsimp split: option.split)
    fix event s1 assume u: "upd_ok s s1"
    then have "ok_r (update_clients env time is s1) (\<lambda>(_, s'). upd_ok s1 s')"
      using Cons.prems by (intro Cons.IH) (auto simp: upd_ok_def)
    then show "ok_r (update_clients env time is s1) (\<lambda>(_, s'). upd_ok s s')"
      using upd_ok_trans [OF u] by (elim ok_r_mono) auto
  qed
qed

text \<open>The documented behaviour of an \<open>unordered_map\<close>: iteration visits every key once.\<close>

definition iteration_documented :: "'w platform_api \<Rightarrow> bool" where
  "iteration_documented env \<longleftrightarrow>
     (\<forall>m. finite (dom m) \<longrightarrow>
        distinct (unordered_order env m) \<and> set (unordered_order env m) = dom m)"

lemma updateClientConnectionStatus_safe:
  assumes "server_inv s" and "iteration_documented env"
  shows "ok_r (updateClientConnectionStatus env time s) (\<lambda>(_, s'). upd_ok s s')"
  unfolding updateClientConnectionStatus_def
  using assms by (intro update_clients_safe) (auto simp: iteration_documented_def inv_defs)

section \<open>The handlers\<close>

lemma processConnectionRequest_safe:
  assumes "server_inv s"
  shows "ok_r (processConnectionRequest env fromAddress s) (io_only s)"
  unfolding processConnectionRequest_def
  using server_inv_buffer [OF assms] by (intro send_id_io) simp_all

lemma processPing_safe:
  assumes "server_inv s"
  shows "ok_r (processPing env fromAddress s) (io_only s)"
  unfolding processPing_def
  using server_inv_buffer [OF assms] by (intro send_id_io) simp_all

lemma ran_upd_subset: "ran m \<subseteq> A \<Longrightarrow> v \<in> A \<Longrightarrow> ran (m(k \<mapsto> v)) \<subseteq> A"
  by (auto simp: ran_def split: if_splits)

lemma server_inv_connect:
  assumes inv: "server_inv s" and r: "m_pendingClients s = r # rs" "heap s r = Some c"
    and wf: "client_wf (max_payload s) c'" and "m_id c' = m_id c"
  shows "server_inv (store r c' s
    \<lparr>m_clientsById := (m_clientsById s)(m_id c \<mapsto> r),
     m_clientsByAddress := UdcAddressMap_insert (m_clientsByAddress s) a r,
     m_pendingClients := rs\<rparr>)"
proof -
  have "server_inv (store r c' s)" using assms by (intro server_inv_store) auto
  moreover have "r \<in> dom (heap (store r c' s))" "m_pendingClients (store r c' s) = r # rs"
    "heap (store r c' s) r = Some c'" "m_id c' = m_id c"
    using assms by (simp_all add: store_def)
  moreover have "m_clientsByAddress (store r c' s) = m_clientsByAddress s"
    "m_clientsById (store r c' s) = m_clientsById s"
    by (simp_all add: store_def)
  ultimately show ?thesis
    by (auto simp: inv_defs address_map.ran_insert_subset ran_upd_subset)
qed

lemma processConnectionHandshake_safe:
  assumes inv: "server_inv s"
  shows "safe_op s (processConnectionHandshake fromAddress time s)"
proof (cases "m_pendingClients s")
  case Nil
  with inv show ?thesis by (simp add: processConnectionHandshake_def tryGetFirstPendingClient_def)
next
  case (Cons r rs)
  with server_inv_client(3) [OF inv, of r] obtain c where c: "deref r s = Inr c" "heap s r = Some c"
    by auto
  have "server_inv (store r (receiveConnectionHandshake time c) s
    \<lparr>m_clientsById := (m_clientsById s)(m_id c \<mapsto> r),
     m_clientsByAddress := UdcAddressMap_insert (m_clientsByAddress s) fromAddress r,
     m_pendingClients := rs\<rparr>)"
    using Cons c server_inv_wf [OF inv c(2)] by (intro server_inv_connect [OF inv]) auto
  then show ?thesis
    using Cons c inv
    by (auto simp: processConnectionHandshake_def tryGetFirstPendingClient_def Let_def
       server_inv_buffer codec_simps store_def kept_def)
qed

lemma processPong_safe:
  assumes inv: "server_inv s"
  shows "safe_op s (processPong fromAddress time s)"
proof (cases "UdcAddressMap_find (m_clientsByAddress s) fromAddress")
  case None
  with inv show ?thesis by (simp add: processPong_def tryGetClientByAddress_def)
next
  case (Some r)
  with server_inv_client(2) [OF inv] obtain c where c: "deref r s = Inr c" "heap s r = Some c"
    by blast
  have "server_inv (store r (snd (receivePong a t c)) s)" for a t
    using server_inv_wf [OF inv c(2)] by (intro server_inv_store [OF inv c(2)]) simp_all
  then show ?thesis
    using Some c inv
    by (auto simp: processPong_def tryGetClientByAddress_def Let_def server_inv_buffer codec_simps
         case_prod_beta)
qed

lemma client_wf_handshake [simp]: "client_wf n c \<Longrightarrow> client_wf n (handshake_client st c)"
  by (auto simp: handshake_client_def next_state_def Let_def)

lemma m_id_handshake [simp]: "m_id (handshake_client st c) = m_id c"
  by (simp add: handshake_client_def Let_def)

lemma processReliableHandshake_safe:
  assumes inv: "server_inv s"
  shows "safe_op s (processReliableHandshake state fromAddress time s)"
proof (cases "UdcAddressMap_find (m_clientsByAddress s) fromAddress")
  case None
  with inv show ?thesis by (simp add: processReliableHandshake_def tryGetClientByAddress_def)
next
  case (Some r)
  with server_inv_client(2) [OF inv] obtain c where c: "deref r s = Inr c" "heap s r = Some c"
    by blast
  have "server_inv (store r (snd (receiveReliableHandshake a t (handshake_client state c))) s)" for a t
    using server_inv_wf [OF inv c(2)] by (intro server_inv_store [OF inv c(2)]) simp_all
  then show ?thesis
    using Some c inv
    by (auto simp: processReliableHandshake_def tryGetClientByAddress_def Let_def server_inv_buffer codec_simps
         case_prod_beta)
qed

lemma server_inv_states:
  assumes "server_inv s" and "v \<in> {0, 1}"
  shows "server_inv (s\<lparr>m_reliableStates := UdcAddressMap_insert (m_reliableStates s) a v\<rparr>)"
  using assms by (simp add: inv_defs address_map.ran_insert_subset)

lemma kept_states [simp]: "kept s (s'\<lparr>m_reliableStates := m\<rparr>) = kept s s'"
  by (simp add: kept_def)

text \<open>Rewrite the id of the message in the buffer and send the buffer back.\<close>

lemma reply_safe:
  assumes inv: "server_inv s0" and kept: "kept s s0"
    and rest: "\<And>s2. io_only s0 s2 \<Longrightarrow> server_inv s2 \<Longrightarrow> kept s s2 \<Longrightarrow> safe_op s (f s2)"
  shows "safe_op s (bind_r (put_buffer (\<lambda>buf. serializeMsgId buf m) s0) (\<lambda>s1.
                    bind_r (server_send env a msgReliable_SIZE s1) f))"
proof (rule safe_op_io [OF put_id_io inv kept])
  show "5 \<le> length (m_messageBuffer s0)" by (rule server_inv_buffer(2) [OF inv])
  fix s1 assume s1: "io_only s0 s1" "server_inv s1" "kept s s1"
  show "safe_op s (bind_r (server_send env a msgReliable_SIZE s1) f)"
    using server_inv_buffer(1) [OF s1(2)] s1
    by (intro safe_op_io [OF server_send_io] rest) (auto intro: io_only_trans)
qed

lemma processReliableMessage_safe:
  assumes inv: "server_inv s"
  shows "safe_op s (processReliableMessage env state fromAddress msgSize s)"
proof (cases "state = -1")
  case True
  define s0 where "s0 = (if UdcAddressMap_find (m_reliableStates s) fromAddress \<noteq> None
    then s\<lparr>m_reliableStates := UdcAddressMap_insert (m_reliableStates s) fromAddress 0\<rparr> else s)"
  have "server_inv s0" "kept s s0"
    using inv by (simp_all add: s0_def server_inv_states)
  then show ?thesis
    unfolding processReliableMessage_def Let_def s0_def [symmetric] using True
    by (simp add: reply_safe del: ok_r_bind SIZE_eqs)
next
  case False
  define s0 where "s0 = s\<lparr>m_reliableStates :=
    UdcAddressMap_insert (m_reliableStates s) fromAddress (next_state state)\<rparr>"
  have "server_inv s0" "kept s s0"
    using inv by (simp_all add: s0_def server_inv_states next_state_def)
  then show ?thesis
    unfolding processReliableMessage_def Let_def s0_def [symmetric] using False
    by (simp add: reply_safe del: ok_r_bind SIZE_eqs)
qed

lemma processUnreliable_safe:
  "server_inv s \<Longrightarrow> safe_op s (processUnreliable fromAddress msgSize s)"
  by (simp add: processUnreliable_def)

lemma safe_op_no_event_io:
  "ok_r m (io_only s) \<Longrightarrow> server_inv s \<Longrightarrow> safe_op s (no_event m)"
  by (simp add: io_ok)

lemma dispatch_safe:
  assumes "server_inv s"
  shows "safe_op s (dispatch env time msgId address msgSize s)"
proof -
  note safe = processUnreliable_safe processReliableMessage_safe processReliableHandshake_safe
    processPong_safe processConnectionHandshake_safe
    safe_op_no_event_io [OF processPing_safe] safe_op_no_event_io [OF processConnectionRequest_safe]
  show ?thesis
    unfolding dispatch_def
    by (simp add: assms safe del: safe_op_no_event split: option.split UdcMessageId.split)
qed

lemma server_inv_prefix:
  "server_inv s \<Longrightarrow> length buf = length (m_messageBuffer s) \<Longrightarrow>
   server_inv (s\<lparr>m_messageBuffer := buf\<rparr>) \<and> kept s (s\<lparr>m_messageBuffer := buf\<rparr>)"
  by (simp add: inv_defs kept_def fits_def)

text \<open>
  A received datagram may have overwritten the signature in the buffer, so the handling of
  one message does not start with the prefix in place; only the length matters here.
\<close>

lemma handle_message_safe:
  assumes inv: "server_inv s"
  shows "safe_op s (handle_message env time address msgSize s)"
proof -
  have "safe_op s (no_event (put_buffer (\<lambda>buf. serializeMsgSignature buf (m_packetSignature s)) s))"
    using inv server_inv_buffer(3) [OF inv] by (simp add: put_buffer_def codec_simps server_inv_prefix)
  then show ?thesis
    using inv dispatch_safe [OF inv] server_inv_buffer [OF inv]
    by (simp add: handle_message_def codec_simps)
qed

end
