(* ===== verification/Receive_Loop.thy ===== *)
theory Receive_Loop
  imports Server_Safety
begin

text \<open>
  The receive loop of \<open>UdcServerImpl::receiveMessages\<close> ends. It runs while some socket has
  a datagram, so it ends when the environment delivers finitely many: \<open>finite_traffic\<close>
  bounds by a function of the operating system's state the datagrams that are still to be
  delivered. With fuel beyond that bound the loop never runs out, faults nowhere and keeps
  the invariant; the same then holds of \<open>udcProcessEvents\<close>.
\<close>

section \<open>Traffic\<close>

definition finite_traffic :: "'w platform_api \<Rightarrow> ('w \<Rightarrow> nat) \<Rightarrow> bool" where
  "finite_traffic env backlog \<longleftrightarrow>
     (\<forall>s len w.
        backlog (snd (api_recvfrom_in env s len w)) \<le> backlog w \<and>
        backlog (snd (api_recvfrom_in6 env s len w)) \<le> backlog w \<and>
        (rr_result (fst (api_recvfrom_in env s len w)) \<notin> {0, SOCKET_ERROR} \<longrightarrow>
           backlog (snd (api_recvfrom_in env s len w)) < backlog w) \<and>
        (rr_result (fst (api_recvfrom_in6 env s len w)) \<notin> {0, SOCKET_ERROR} \<longrightarrow>
           backlog (snd (api_recvfrom_in6 env s len w)) < backlog w)) \<and>
     (\<forall>s d n a w. backlog (snd (api_sendto_in env s d n a w)) \<le> backlog w) \<and>
     (\<forall>s d n a w. backlog (snd (api_sendto_in6 env s d n a w)) \<le> backlog w) \<and>
     (\<forall>w. backlog (snd (api_now env w)) \<le> backlog w)"

text \<open>The backlog as the server sees it.\<close>

definition to_come :: "('w \<Rightarrow> nat) \<Rightarrow> 'w UdcServerImpl \<Rightarrow> nat" where
  "to_come backlog s = backlog (os (process s))"

lemma receive_outcome_code:
  "receive_outcome r a1 p1 a0 p0 buffer bsize = Inr v \<Longrightarrow> rv_code v = 1 \<Longrightarrow>
   rr_result r \<notin> {0, SOCKET_ERROR}"
  by (auto simp: receive_outcome_def bind_r_Inr_iff assert_r_def split: if_splits)

lemma receive_traffic:
  assumes tr: "finite_traffic env backlog"
  shows "receiveIPv4 env sock a4 port buffer bsize p = Inr (v4, p') \<Longrightarrow>
           backlog (os p') \<le> backlog (os p) \<and> (rv_code v4 = 1 \<longrightarrow> backlog (os p') < backlog (os p))"
    and "receiveIPv6 env sock a6 port buffer bsize p = Inr (v6, p') \<Longrightarrow>
           backlog (os p') \<le> backlog (os p) \<and> (rv_code v6 = 1 \<longrightarrow> backlog (os p') < backlog (os p))"
proof -
  note t = tr [unfolded finite_traffic_def, THEN conjunct1, rule_format]
  show "receiveIPv4 env sock a4 port buffer bsize p = Inr (v4, p') \<Longrightarrow>
           backlog (os p') \<le> backlog (os p) \<and> (rv_code v4 = 1 \<longrightarrow> backlog (os p') < backlog (os p))"
    using t [of "us_socket sock" "sint bsize" "os p"]
    by (cases "api_recvfrom_in env (us_socket sock) (sint bsize) (os p)")
      (auto simp: receiveIPv4_def receivePacketIPv4_outcome bind_r_Inr_iff
        dest: receive_outcome_code split: if_splits)
  show "receiveIPv6 env sock a6 port buffer bsize p = Inr (v6, p') \<Longrightarrow>
           backlog (os p') \<le> backlog (os p) \<and> (rv_code v6 = 1 \<longrightarrow> backlog (os p') < backlog (os p))"
    using t [of "us_socket sock" "sint bsize" "os p"]
    by (cases "api_recvfrom_in6 env (us_socket sock) (sint bsize) (os p)")
      (auto simp: receiveIPv6_def receivePacketIPv6_outcome bind_r_Inr_iff
        dest: receive_outcome_code split: if_splits)
qed

lemma mux_receiveIPv4_traffic:
  assumes tr: "finite_traffic env backlog"
  shows "mux_receiveIPv4 env ss a port buffer bsize mux p = Inr (found, a', port', buffer', bsize', mux', p') \<Longrightarrow>
     backlog (os p') \<le> backlog (os p) \<and> (found \<longrightarrow> backlog (os p') < backlog (os p))"
proof (induction ss arbitrary: a port buffer bsize p)
  case (Cons s ss)
  then obtain v p1 where "receiveIPv4 env s a port buffer bsize p = Inr (v, p1)"
    by (auto simp: bind_r_Inr_iff)
  with receive_traffic(1) [OF tr this] Cons show ?case
    by (fastforce simp: bind_r_Inr_iff split: if_splits)
qed simp

lemma mux_receiveIPv6_traffic:
  assumes tr: "finite_traffic env backlog"
  shows "mux_receiveIPv6 env ss a port buffer bsize mux p = Inr (found, a', port', buffer', bsize', mux', p') \<Longrightarrow>
     backlog (os p') \<le> backlog (os p) \<and> (found \<longrightarrow> backlog (os p') < backlog (os p))"
proof (induction ss arbitrary: a port buffer bsize p)
  case (Cons s ss)
  then obtain v p1 where "receiveIPv6 env s a port buffer bsize p = Inr (v, p1)"
    by (auto simp: bind_r_Inr_iff)
  with receive_traffic(2) [OF tr this] Cons show ?case
    by (fastforce simp: bind_r_Inr_iff split: if_splits)
qed simp

lemma server_receive_traffic:
  assumes tr: "finite_traffic env backlog"
    and rcv: "server_receive env address msgSize s = Inr (found, address', msgSize', s')"
  shows "to_come backlog s' \<le> to_come backlog s"
    and "found \<Longrightarrow> to_come backlog s' < to_come backlog s"
  using rcv
  by (auto simp: server_receive_def mux_receive_def bind_r_Inr_iff Let_def to_come_def split: if_splits
      dest!: mux_receiveIPv4_traffic [OF tr] mux_receiveIPv6_traffic [OF tr])

section \<open>Everything but receiving leaves the backlog alone\<close>

lemma server_send_traffic:
  assumes tr: "finite_traffic env backlog" and snd: "server_send env a n s = Inr s'"
  shows "to_come backlog s' \<le> to_come backlog s"
proof -
  have t: "backlog (snd (api_sendto_in env h d m sa w)) \<le> backlog w"
    "backlog (snd (api_sendto_in6 env h d m sb w)) \<le> backlog w" for h d m sa sb w
    using tr by (simp_all add: finite_traffic_def)
  have t4: "sendIPv4 env sock a4 port d n p = Inr (b, p') \<Longrightarrow> backlog (os p') \<le> backlog (os p)"
    for sock a4 port d b p p'
    using t(1) [of "us_socket sock" "take (unat n) d" "sint n" "createAddressIPv4 env a4 port" "os p"]
    by (auto simp: sendIPv4_def sendPacketIPv4_def case_prod_beta Let_def split: if_splits)
  have t6: "sendIPv6 env sock a6 port d n p = Inr (b, p') \<Longrightarrow> backlog (os p') \<le> backlog (os p)"
    for sock a6 port d b p p'
    using t(2) [of "us_socket sock" "take (unat n) d" "sint n" "createAddressIPv6 env a6 port" "os p"]
    by (auto simp: sendIPv6_def sendPacketIPv6_def case_prod_beta Let_def split: if_splits)
  show ?thesis
    using snd
    by (auto simp: server_send_def mux_send_def mux_sendIPv4_def mux_sendIPv6_def bind_r_Inr_iff to_come_def
       split: if_splits list.splits dest!: t4 t6)
qed

lemma put_buffer_traffic: "put_buffer f s = Inr s' \<Longrightarrow> to_come backlog s' = to_come backlog s"
  by (auto simp: put_buffer_def bind_r_Inr_iff to_come_def)

lemma to_come_simps [simp]:
  "to_come backlog (store r c s) = to_come backlog s"
  "to_come backlog (s\<lparr>m_eventBuffer := e\<rparr>) = to_come backlog s"
  "to_come backlog (s\<lparr>m_pendingClients := rs\<rparr>) = to_come backlog s"
  "to_come backlog (s\<lparr>m_reliableStates := m\<rparr>) = to_come backlog s"
  "to_come backlog (s\<lparr>m_clientsById := ids\<rparr>) = to_come backlog s"
  "to_come backlog (s\<lparr>m_clientsByAddress := ads\<rparr>) = to_come backlog s"
  by (simp_all add: to_come_def store_def)

lemma emit_Inr: "emit f s = Inr (e, s') \<longleftrightarrow>
    e = Some (f (m_eventBuffer s)) \<and> s' = s\<lparr>m_eventBuffer := f (m_eventBuffer s)\<rparr>"
  by (auto simp: emit_def)

lemma update_client_traffic:
  assumes tr: "finite_traffic env backlog" 
  shows "update_reliable env time r s = Inr s' \<Longrightarrow> to_come backlog s' \<le> to_come backlog s"
    and "update_ping env time r s = Inr s' \<Longrightarrow> to_come backlog s' \<le> to_come backlog s"
    and "update_lost time r s = Inr (e, s') \<Longrightarrow> to_come backlog s' \<le> to_come backlog s"
proof -
  note sends = put_buffer_traffic [where backlog = backlog] server_send_traffic [OF tr]
  show "to_come backlog s' \<le> to_come backlog s" if u: "update_reliable env time r s = Inr s'"
  proof -
    from u obtain c where c: "deref r s = Inr c" by (auto simp: update_reliable_def bind_r_Inr_iff)
    with u show ?thesis
      by (cases "m_reliableMessages c")
        (auto simp: update_reliable_def bind_r_Inr_iff assert_r_def split: if_splits dest!: sends)
  qed
  show "update_ping env time r s = Inr s' \<Longrightarrow> to_come backlog s' \<le> to_come backlog s"
    by (auto simp: update_ping_def bind_r_Inr_iff assert_r_def split: if_splits dest!: sends)
  show "update_lost time r s = Inr (e, s') \<Longrightarrow> to_come backlog s' \<le> to_come backlog s"
    by (auto simp: update_lost_def bind_r_Inr_iff emit_Inr split: if_splits)
qed

lemma update_clients_traffic:
  assumes tr: "finite_traffic env backlog" 
  shows "update_clients env time is s = Inr (e, s') \<Longrightarrow> to_come backlog s' \<le> to_come backlog s"
proof (induction "is" arbitrary: s)
  case (Cons i "is")
  then show ?case
    by (fastforce simp: update_client_def bind_r_Inr_iff split: option.splits
       dest: update_client_traffic [OF tr])
qed simp

lemma updatePendingClients_traffic:
  assumes tr: "finite_traffic env backlog" 
  shows "updatePendingClients env time s = Inr (e, s') \<Longrightarrow> to_come backlog s' \<le> to_come backlog s"
  by (auto simp: updatePendingClients_def bind_r_Inr_iff assert_r_def emit_Inr Let_def
      split: option.splits if_splits dest!: put_buffer_traffic [where backlog = backlog] server_send_traffic [OF tr])

lemma reply_traffic:
  assumes tr: "finite_traffic env backlog" 
  shows "processConnectionRequest env a s = Inr s' \<Longrightarrow> to_come backlog s' \<le> to_come backlog s"
    and "processPing env a s = Inr s' \<Longrightarrow> to_come backlog s' \<le> to_come backlog s"
    and "processReliableMessage env st a n s = Inr (e, s') \<Longrightarrow> to_come backlog s' \<le> to_come backlog s"
  by (auto simp: processConnectionRequest_def processPing_def processReliableMessage_def
      bind_r_Inr_iff emit_Inr Let_def 
      split: if_splits dest!: put_buffer_traffic [where backlog = backlog] server_send_traffic [OF tr])

lemma no_reply_traffic:
  "processConnectionHandshake a time s = Inr (e, s') \<Longrightarrow> to_come backlog s' = to_come backlog s"
  "processPong a time s = Inr (e, s') \<Longrightarrow> to_come backlog s' = to_come backlog s"
  "processReliableHandshake st a time s = Inr (e, s') \<Longrightarrow> to_come backlog s' = to_come backlog s"
  "processUnreliable a n s = Inr (e, s') \<Longrightarrow> to_come backlog s' = to_come backlog s"
  by (auto simp: processConnectionHandshake_def processPong_def processReliableHandshake_def
      processUnreliable_def bind_r_Inr_iff emit_Inr Let_def case_prod_beta
      split: if_splits option.splits)

lemma dispatch_traffic:
  assumes tr: "finite_traffic env backlog" 
  shows "dispatch env time msgId a n s = Inr (e, s') \<Longrightarrow> to_come backlog s' \<le> to_come backlog s"
  by (auto simp: dispatch_def no_event_def bind_r_Inr_iff
      split: option.splits UdcMessageId.splits if_splits
      dest: no_reply_traffic [where backlog = backlog] reply_traffic [OF tr])

lemma handle_message_traffic:
  assumes tr: "finite_traffic env backlog" 
  shows "handle_message env time a n s = Inr (e, s') \<Longrightarrow> to_come backlog s' \<le> to_come backlog s"
  by (auto simp: handle_message_def no_event_def bind_r_Inr_iff
      split: if_splits dest: put_buffer_traffic [where backlog = backlog] dispatch_traffic [OF tr])

section \<open>The loop\<close>

text \<open>
  \<open>polls_safely\<close>: at most one socket is bound, or the operating system rejects the negative
  length that a truncated datagram leaves for the sockets polled after it.
\<close>

definition polls_safely :: "'w platform_api \<Rightarrow> 'w UdcServerImpl \<Rightarrow> bool" where
  "polls_safely env s \<longleftrightarrow>
     length (m_socketIPv6 (m_socket s)) + length (m_socketIPv4 (m_socket s)) \<le> 1 \<or>
     recvfrom_rejects_negative env"

lemma polls_safely_kept: "kept s s' \<Longrightarrow> polls_safely env s' = polls_safely env s"
  by (simp add: polls_safely_def kept_def same_sockets_def)

lemma server_inv_received:
  "server_inv s \<Longrightarrow> length buf = length (m_messageBuffer s) \<Longrightarrow>
   server_inv (s\<lparr>m_messageBuffer := buf, m_socket := mux, process := p\<rparr>)"
  by (simp add: inv_defs fits_def)

lemma server_receive_safe:
  assumes inv: "server_inv s" and doc: "recvfrom_documented env" and polls: "polls_safely env s"
    and size: "fits msgSize (m_messageBuffer s)"
  shows "ok_r (server_receive env address msgSize s)
     (\<lambda>(found, address', msgSize', s'). server_inv s' \<and> kept s s' \<and>
        (found \<longrightarrow> 0 < unat msgSize' \<and> unat msgSize' \<le> unat msgSize \<and>
           fits msgSize' (m_messageBuffer s')))"
proof -
  have "poll_safe env (length (m_socketIPv6 (m_socket s)) + length (m_socketIPv4 (m_socket s)))
          msgSize (m_messageBuffer s)"
    using size polls by (auto simp: poll_safe_def size_usable_def polls_safely_def le_Suc_eq)
  note rcv = mux_receive_ok [OF doc this]
  show ?thesis
    unfolding server_receive_def
    by (rule ok_r_bindI [OF rcv]) (auto simp: server_inv_received [OF inv] kept_def fits_def)
qed

lemma receive_loop_safe:
  assumes doc: "recvfrom_documented env" and tr: "finite_traffic env backlog"
  shows "server_inv s \<Longrightarrow> polls_safely env s \<Longrightarrow> fits msgSize (m_messageBuffer s) \<Longrightarrow>
    to_come backlog s < fuel \<Longrightarrow> safe_op s (receive_loop fuel env time address msgSize s)"
proof (induction fuel arbitrary: s address msgSize)
  case (Suc fuel)
  note rcv = server_receive_safe [OF Suc.prems(1) doc Suc.prems(2,3), of address]
  then obtain found address1 msgSize1 s1 where
    r: "server_receive env address msgSize s = Inr (found, address1, msgSize1, s1)"
    and s1: "server_inv s1" "kept s s1" "found \<Longrightarrow> fits msgSize1 (m_messageBuffer s1)"
    unfolding ok_r_iff by auto
  show ?case
  proof (cases found)
    case False
    with r s1 show ?thesis by simp
  next
    case True
    from handle_message_safe [OF s1(1), of env time address1 msgSize1]
    obtain event s2 where h: "handle_message env time address1 msgSize1 s1 = Inr (event, s2)"
      and s2: "server_inv s2" "kept s1 s2"
      by (auto simp: safe_op_def ok_r_iff)
    have k: "kept s s2" using s1(2) s2(2) by (rule kept_trans)
    have "to_come backlog s2 < fuel"
      using server_receive_traffic(2) [OF tr r True] handle_message_traffic [OF tr h] Suc.prems(4)
      by linarith
    moreover have "fits msgSize1 (m_messageBuffer s2)"
      using s1(3) [OF True] s2(2) by (simp add: kept_def fits_def)
    ultimately have "safe_op s2 (receive_loop fuel env time address1 msgSize1 s2)"
      using Suc.prems(2) k by (intro Suc.IH s2) (simp_all add: polls_safely_kept)
    then show ?thesis
      using True r h k s2 by (auto simp: safe_op_def elim!: ok_r_mono intro: kept_trans split: option.split)
  qed
qed simp

lemma receiveMessages_safe:
  assumes "recvfrom_documented env" and "finite_traffic env backlog" and "server_inv s"
    and "polls_safely env s" and "to_come backlog s < fuel"
  shows "safe_op s (receiveMessages fuel env time s)"
  unfolding receiveMessages_def
  using assms by (intro receive_loop_safe) (auto simp: inv_defs)

section \<open>One call of \<open>udcProcessEvents\<close>\<close>

lemma current_time_frame:
  assumes "current_time env s = (t, s')"
  shows "server_inv s \<Longrightarrow> server_inv s'" and "kept s s'"
    and "finite_traffic env backlog \<Longrightarrow> to_come backlog s' \<le> to_come backlog s"
  using assms
  by (auto simp: current_time_def inv_defs kept_def to_come_def finite_traffic_def case_prod_beta Let_def)

lemma udcProcessEvents_safe:
  assumes doc: "recvfrom_documented env" "iteration_documented env"
    and tr: "finite_traffic env backlog" and inv: "server_inv s"
    and polls: "polls_safely env s" and fuel: "to_come backlog s < fuel"
  shows "safe_op s (udcProcessEvents fuel env s)"
proof -
  obtain time s0 where t: "current_time env s = (time, s0)" by fastforce
  note s0 = current_time_frame(1) [OF t inv] current_time_frame(2) [OF t]
    current_time_frame(3) [OF t tr]
  obtain e1 s1 where p: "updatePendingClients env time s0 = Inr (e1, s1)"
    and s1: "server_inv s1" "kept s0 s1"
    using updatePendingClients_safe [OF s0(1), of env time] by (auto simp: safe_op_def ok_r_iff)
  obtain e2 s2 where u: "updateClientConnectionStatus env time s1 = Inr (e2, s2)"
    and s2: "server_inv s2" "kept s1 s2"
    using updateClientConnectionStatus_safe [OF s1(1) doc(2), of time]
    by (auto simp: upd_ok_def ok_r_iff)
  have k: "kept s s1" "kept s s2"
    using s0(2) s1(2) s2(2) kept_trans by blast+
  have "to_come backlog s2 < fuel"
    using s0(3) updatePendingClients_traffic [OF tr p]
      update_clients_traffic [OF tr u [unfolded updateClientConnectionStatus_def]] fuel
    by linarith
  then have "safe_op s2 (receiveMessages fuel env time s2)"
    using polls k by (intro receiveMessages_safe [OF doc(1) tr s2(1)]) (simp_all add: polls_safely_kept)
  then show ?thesis
    using t p u k s1 s2
    by (auto simp: udcProcessEvents_def safe_op_def elim!: ok_r_mono intro: kept_trans split: option.split)
qed

section \<open>Fuel does not matter once there is enough\<close>

lemma receive_loop_more_fuel:
  "receive_loop f env time a n s = Inr x \<Longrightarrow> receive_loop (f + k) env time a n s = Inr x"
proof (induction f arbitrary: a n s)
  case (Suc f)
  have rest: "(case event of Some e \<Rightarrow> Inr (Some e, s2) | None \<Rightarrow> receive_loop (f + k) env time a1 n1 s2) = Inr x"
    if "(case event of Some e \<Rightarrow> Inr (Some e, s2) | None \<Rightarrow> receive_loop f env time a1 n1 s2) = Inr x"
    for event s2 a1 n1
    using that Suc.IH by (cases event) simp_all
  from Suc.prems show ?case
    by (simp only: receive_loop.simps add_Suc)
      (erule bind_r_mono, clarify, simp split: if_splits, erule bind_r_mono, clarify, rule rest)
qed simp

lemma udcProcessEvents_more_fuel:
  assumes "udcProcessEvents f env s = Inr x" and "f \<le> f'"
  shows "udcProcessEvents f' env s = Inr x"
proof -
  obtain k where f': "f' = f + k" using assms(2) le_Suc_ex by blast
  have rest: "(case event of Some e \<Rightarrow> Inr (Some e, s2) | None \<Rightarrow> receiveMessages (f + k) env time s2) = Inr x"
    if "(case event of Some e \<Rightarrow> Inr (Some e, s2) | None \<Rightarrow> receiveMessages f env time s2) = Inr x"
    for event time s2
    using that by (cases event) (simp_all add: receiveMessages_def receive_loop_more_fuel)
  obtain time s0 where t: "current_time env s = (time, s0)" by fastforce
  show ?thesis
    using assms(1) unfolding f' udcProcessEvents_def t Let_def prod.case
    by (elim bind_r_mono) (clarsimp split: option.splits, erule bind_r_mono, clarify, rule rest)
qed

end
