(* ===== verification/Lifecycle.thy ===== *)
theory Lifecycle
  imports Receive_Loop
begin

text \<open>
  The life of a server: creation, binding, connecting, disconnecting and status through the
  C interface, and the states a server can reach through any sequence of calls. In every
  reachable state the invariant holds and the client objects carry pairwise distinct ids.
\<close>

section \<open>Creation\<close>

definition initial_server :: "UdcSocketMux \<Rightarrow> UdcSignature \<Rightarrow> byte list \<Rightarrow> u32 \<Rightarrow> 'w Process \<Rightarrow> 'w UdcServerImpl" where
  "initial_server mux signature buffer bsize p =
     \<lparr>m_socket = mux, m_idCounter = 0, m_packetSignature = signature,
      m_eventBuffer = UdcEvent_zero, m_pendingClients = [], m_clientsById = Map.empty,
      m_clientsByAddress = [], m_reliableStates = [],
      m_messageBuffer = write_at 0 (signature_bytes signature) buffer,
      m_messageBufferSize = bsize, heap = Map.empty, heap_next = 0, process = p\<rparr>"

lemma udcCreateServer_eq:
  assumes "fits bsize buffer"
  shows "udcCreateServer env signature buffer bsize logFileName p =
     (if unat bsize < 9 then Inr None
      else Inr (Some (initial_server
        (case logFileName of None \<Rightarrow> UdcSocketMux_ctor | Some name \<Rightarrow> UdcSocketMux_ctor_log env name)
        signature buffer bsize p)))"
proof -
  have "9 \<le> unat bsize \<Longrightarrow> 4 \<le> length buffer" using assms by (simp add: fits_iff)
  then show ?thesis
    by (auto simp: udcCreateServer_def UdcServerImpl_ctor_def put_buffer_def codec_simps
      initial_server_def word_less_nat_alt Let_def)
qed

lemma initial_server_inv:
  "fits bsize buffer \<Longrightarrow> 9 \<le> unat bsize \<Longrightarrow> server_inv (initial_server mux signature buffer bsize p)"
  by (simp add: initial_server_def inv_defs fits_iff map_of_nodes_Nil)

section \<open>Binding\<close>

lemma server_inv_io_fields:
  "server_inv s \<Longrightarrow> server_inv (s\<lparr>m_socket := mux, process := p\<rparr>)"
  by (simp add: inv_defs)

lemma tryBind_inv:
  "server_inv s \<Longrightarrow> tryBindIPv4 env port s = Inr (b, s') \<Longrightarrow> server_inv s'"
  "server_inv s \<Longrightarrow> tryBindIPv6 env port s = Inr (b, s') \<Longrightarrow> server_inv s'"
  by (auto simp: tryBindIPv4_def tryBindIPv6_def bind_r_Inr_iff server_inv_io_fields)

lemma bind_fault_only_RuntimeError:
  "tryBindIPv4 env port s = Inl e \<Longrightarrow> e = RuntimeError"
  "tryBindIPv6 env port s = Inl e \<Longrightarrow> e = RuntimeError"
  by (auto simp: tryBindIPv4_def tryBindIPv6_def mux_tryBindIPv4_def mux_tryBindIPv6_def
    UdcSocket_ctor_def WinSockReference_ctor_def bind_r_def Let_def case_prod_beta split: sum.splits if_splits)

section \<open>Connecting\<close>

text \<open>The client object that a connection attempt creates, and the server after it.\<close>

definition new_client :: "u32 \<Rightarrow> UdcAddressMux \<Rightarrow> u32 \<Rightarrow> milliseconds \<Rightarrow> UdcClient" where
  "new_client eid address timeout time =
     startConnecting time (UdcClient_ctor eid address (int (unat timeout))
       (min 500 (int (unat timeout) div 10)))"

definition with_pending :: "UdcClient \<Rightarrow> 'w UdcServerImpl \<Rightarrow> 'w UdcServerImpl" where
  "with_pending c s =
     s\<lparr>m_idCounter := m_id c, heap := (heap s)(heap_next s \<mapsto> c), heap_next := heap_next s + 1,
       m_pendingClients := m_pendingClients s @ [heap_next s]\<rparr>"

definition mux_of_ipv4 :: "UdcAddressIPv4 \<Rightarrow> u16 \<Rightarrow> UdcAddressMux" where
  "mux_of_ipv4 ip port = \<lparr>am_family = UDC_IPV4,
     am_address = union_set_ipv4 ip (IPv6 0 0 0 0 0 0 0 0), am_port = port\<rparr>"

definition mux_of_ipv6 :: "UdcAddressIPv6 \<Rightarrow> u16 \<Rightarrow> UdcAddressMux" where
  "mux_of_ipv6 ip port = \<lparr>am_family = UDC_IPV6, am_address = ip, am_port = port\<rparr>"

lemma udcTryConnectIPv4_eq:
  "timeout \<noteq> 0 \<Longrightarrow> current_time env s = (time, s1) \<Longrightarrow>
   udcTryConnectIPv4 env (Some s) ip port timeout =
     Inr (Some (m_idCounter s1 + 1),
          Some (with_pending (new_client (m_idCounter s1 + 1) (mux_of_ipv4 ip port) timeout time) s1))"
  by (simp add: udcTryConnectIPv4_def createUniqueId_def make_shared_def addPendingClient_def
    deref_def with_pending_def new_client_def mux_of_ipv4_def store_def startConnecting_def UdcClient_ctor_def)

lemma udcTryConnectIPv6_eq:
  "timeout \<noteq> 0 \<Longrightarrow> current_time env s = (time, s1) \<Longrightarrow>
   udcTryConnectIPv6 env (Some s) ip port timeout =
     Inr (Some (m_idCounter s1 + 1),
          Some (with_pending (new_client (m_idCounter s1 + 1) (mux_of_ipv6 ip port) timeout time) s1))"
  by (simp add: udcTryConnectIPv6_def createUniqueId_def make_shared_def addPendingClient_def
    deref_def with_pending_def new_client_def mux_of_ipv6_def store_def startConnecting_def UdcClient_ctor_def)

lemma server_inv_with_pending:
  assumes inv: "server_inv s" and wf: "client_wf (max_payload s) c"
  shows "server_inv (with_pending c s)"
proof -
  have old: "m_clientsById s i = Some r \<Longrightarrow> r \<noteq> heap_next s" for i r
    using server_inv_client(1) [OF inv, of i r] inv [unfolded server_inv_def heap_ok_def] by blast
  have "refs_ok (with_pending c s)"
    using inv by (auto simp: server_inv_def refs_ok_def with_pending_def)
  moreover have "heap_ok (with_pending c s)"
    using inv wf by (auto simp: server_inv_def heap_ok_def with_pending_def max_payload_def less_Suc_eq)
  moreover have "ids_ok (with_pending c s)"
    using inv old by (auto simp: server_inv_def ids_ok_def with_pending_def)
  moreover have "buffer_ok (with_pending c s)" "states_ok (with_pending c s)"
    using inv by (simp_all add: server_inv_def buffer_ok_def states_ok_def with_pending_def)
  ultimately show ?thesis by (simp add: server_inv_def)
qed

lemma udcTryConnect_inv:
  assumes inv: "server_inv s"
  shows "udcTryConnectIPv4 env (Some s) ip4 port timeout = Inr (eid, Some s') \<Longrightarrow> server_inv s'"
    and "udcTryConnectIPv6 env (Some s) ip6 port timeout = Inr (eid, Some s') \<Longrightarrow> server_inv s'"
proof -
  obtain t s1 where t: "current_time env s = (t, s1)" by fastforce
  note s1 = current_time_frame(1) [OF t inv]
  have "server_inv (with_pending (new_client eid a timeout t) s1)" for eid a
    by (rule server_inv_with_pending [OF s1]) (simp add: new_client_def)
  then show "udcTryConnectIPv4 env (Some s) ip4 port timeout = Inr (eid, Some s') \<Longrightarrow> server_inv s'"
    and "udcTryConnectIPv6 env (Some s) ip6 port timeout = Inr (eid, Some s') \<Longrightarrow> server_inv s'"
    using inv udcTryConnectIPv4_eq [OF _ t] udcTryConnectIPv6_eq [OF _ t]
    by (cases "timeout = 0"; auto simp: udcTryConnectIPv4_def udcTryConnectIPv6_def)+
qed

section \<open>Disconnecting\<close>

lemma erase_pending_eq:
  assumes "set rs \<subseteq> dom (heap s)"
  shows "erase_pending i rs s = Inr (filter (\<lambda>r. object_ids s r \<noteq> Some i) rs)"
  using assms by (induction rs) (auto simp: deref_def object_ids_def)

lemma ran_upd_None_subset: "ran (m(k := None)) \<subseteq> ran m"
  by (auto simp: ran_def)

lemma disconnectFromClient_safe:
  assumes inv: "server_inv s"
  shows "ok_r (disconnectFromClient endPointId s) (\<lambda>s'. server_inv s' \<and> kept s s')"
proof (cases "m_clientsById s endPointId")
  case None
  have "set (m_pendingClients s) \<subseteq> dom (heap s)" using inv by (simp add: inv_defs)
  with None show ?thesis
    using server_inv_pending [OF inv, of "filter (\<lambda>r. object_ids s r \<noteq> Some endPointId) (m_pendingClients s)"]
    by (auto simp: disconnectFromClient_def erase_pending_eq)
next
  case (Some r)
  with server_inv_client(1) [OF inv] obtain c where "deref r s = Inr c" by blast
  moreover have "server_inv (s\<lparr>m_clientsByAddress := UdcAddressMap_erase (m_clientsByAddress s) a,
      m_clientsById := (m_clientsById s)(endPointId := None)\<rparr>)" for a
    using inv address_map.ran_erase [of "m_clientsByAddress s" a] ran_upd_None_subset [of "m_clientsById s" endPointId]
    by (simp add: inv_defs) blast
  ultimately show ?thesis
    using Some by (simp add: disconnectFromClient_def kept_def)
qed

section \<open>The states a server can reach\<close>

text \<open>What the whole library relies on of the platform.\<close>

definition platform_documented :: "'w platform_api \<Rightarrow> ('w \<Rightarrow> nat) \<Rightarrow> bool" where
  "platform_documented env backlog \<longleftrightarrow>
     recvfrom_documented env \<and> recvfrom_rejects_negative env \<and> iteration_documented env \<and>
     finite_traffic env backlog"

text \<open>A message the application may hand to \<open>udcSendMessage\<close>: real data, no wrap of its size.\<close>

definition sendable :: "byte list \<Rightarrow> u32 \<Rightarrow> bool" where
  "sendable data dsize \<longleftrightarrow> unat dsize \<le> length data \<and> unat dsize + 9 < 2 ^ 32"

text \<open>
  \<open>server_reachable env backlog n s\<close>: a server created by \<open>udcCreateServer\<close> is in state \<open>s\<close> after
  a sequence of calls that returned, \<open>n\<close> of them connection attempts; between two calls the
  operating system may change in any way.
\<close>

inductive server_reachable :: "'w platform_api \<Rightarrow> ('w \<Rightarrow> nat) \<Rightarrow> nat \<Rightarrow> 'w UdcServerImpl \<Rightarrow> bool"
  for env :: "'w platform_api" and backlog :: "'w \<Rightarrow> nat" where
  created: "fits bsize buffer \<Longrightarrow>
     udcCreateServer env signature buffer bsize logFileName p = Inr (Some s) \<Longrightarrow>
     server_reachable env backlog 0 s"
| world: "server_reachable env backlog n s \<Longrightarrow> server_reachable env backlog n (s\<lparr>process := p\<rparr>)"
| bind4: "server_reachable env backlog n s \<Longrightarrow> udcTryBindIPv4 env s port = Inr (b, s') \<Longrightarrow>
     server_reachable env backlog n s'"
| bind6: "server_reachable env backlog n s \<Longrightarrow> udcTryBindIPv6 env s port = Inr (b, s') \<Longrightarrow>
     server_reachable env backlog n s'"
| connect4: "server_reachable env backlog n s \<Longrightarrow>
     udcTryConnectIPv4 env (Some s) ip4 port timeout = Inr (Some eid, Some s') \<Longrightarrow>
     server_reachable env backlog (Suc n) s'"
| connect6: "server_reachable env backlog n s \<Longrightarrow>
     udcTryConnectIPv6 env (Some s) ip6 port timeout = Inr (Some eid, Some s') \<Longrightarrow>
     server_reachable env backlog (Suc n) s'"
| disconnect: "server_reachable env backlog n s \<Longrightarrow> udcDisconnect s eid = Inr s' \<Longrightarrow>
     server_reachable env backlog n s'"
| send: "server_reachable env backlog n s \<Longrightarrow> sendable data dsize \<Longrightarrow>
     udcSendMessage env s eid data dsize reliability = Inr (b, s') \<Longrightarrow>
     server_reachable env backlog n s'"
| process: "server_reachable env backlog n s \<Longrightarrow> to_come backlog s < fuel \<Longrightarrow>
     udcProcessEvents fuel env s = Inr (event, s') \<Longrightarrow> server_reachable env backlog n s'"

text \<open>The ids in use are the ones the counter has handed out, each to one object.\<close>

definition ids_issued :: "nat \<Rightarrow> 'w UdcServerImpl \<Rightarrow> bool" where
  "ids_issued n s \<longleftrightarrow>
     m_idCounter s = of_nat n \<and>
     (n < 2 ^ 32 \<longrightarrow>
       (\<forall>r i. object_ids s r = Some i \<longrightarrow> r < heap_next s \<and> 0 < unat i \<and> unat i \<le> n) \<and>
       inj_on (object_ids s) (dom (object_ids s)))"

lemma ids_issued_kept: "kept s s' \<Longrightarrow> ids_issued n s' = ids_issued n s"
  by (simp add: ids_issued_def kept_def)

lemma ids_issued_frame:
  "object_ids s' = object_ids s \<Longrightarrow> heap_next s' = heap_next s \<Longrightarrow> m_idCounter s' = m_idCounter s \<Longrightarrow>
   ids_issued n s' = ids_issued n s"
  by (simp add: ids_issued_def)

lemma object_ids_with_pending:
  "object_ids (with_pending c s) = (object_ids s)(heap_next s \<mapsto> m_id c)"
  by (simp add: object_ids_def with_pending_def fun_eq_iff)

lemma heap_next_with_pending: "heap_next (with_pending c s) = Suc (heap_next s)"
  by (simp add: with_pending_def)

lemma ids_issued_with_pending:
  assumes "ids_issued n s" and "m_id c = m_idCounter s + 1"
  shows "ids_issued (Suc n) (with_pending c s)"
proof -
  have cnt: "m_id c = of_nat (Suc n)" using assms by (simp add: ids_issued_def)
  moreover have "inj_on (object_ids (with_pending c s)) (dom (object_ids (with_pending c s)))"
    "\<forall>r i. object_ids (with_pending c s) r = Some i \<longrightarrow>
       r < heap_next (with_pending c s) \<and> 0 < unat i \<and> unat i \<le> Suc n"
    if small: "Suc n < 2 ^ 32"
  proof -
    have new: "unat (m_id c) = Suc n"
      unfolding cnt using small by (simp add: unat_of_nat del: of_nat_Suc)
    have old: "object_ids s r = Some i \<Longrightarrow> r < heap_next s \<and> 0 < unat i \<and> unat i \<le> n" for r i
      using assms(1) small by (simp add: ids_issued_def)
    show "\<forall>r i. object_ids (with_pending c s) r = Some i \<longrightarrow>
       r < heap_next (with_pending c s) \<and> 0 < unat i \<and> unat i \<le> Suc n"
      using new by (auto simp: object_ids_with_pending heap_next_with_pending less_Suc_eq le_Suc_eq dest: old split: if_splits)
    have "object_ids s r \<noteq> Some (m_id c)" for r
      using old [of r "m_id c"] new by fastforce
    then show "inj_on (object_ids (with_pending c s)) (dom (object_ids (with_pending c s)))"
      using assms(1) small old
      unfolding object_ids_with_pending ids_issued_def by (fastforce simp: inj_on_def dom_def)
  qed
  ultimately show ?thesis by (simp add: ids_issued_def with_pending_def)
qed

lemma with_pending_connect:
  assumes inv: "server_inv s" and ids: "ids_issued n s"
  shows "udcTryConnectIPv4 env (Some s) ip4 port timeout = Inr (Some eid, Some s') \<Longrightarrow> ids_issued (Suc n) s'"
    and "udcTryConnectIPv6 env (Some s) ip6 port timeout = Inr (Some eid, Some s') \<Longrightarrow> ids_issued (Suc n) s'"
proof -
  obtain t s1 where t: "current_time env s = (t, s1)" by fastforce
  have "ids_issued n s1" using ids_issued_kept [OF current_time_frame(2) [OF t]] ids by simp
  then have "ids_issued (Suc n) (with_pending (new_client (m_idCounter s1 + 1) a timeout t) s1)" for a
    by (rule ids_issued_with_pending) (simp add: new_client_def UdcClient_ctor_def startConnecting_def)
  then show "udcTryConnectIPv4 env (Some s) ip4 port timeout = Inr (Some eid, Some s') \<Longrightarrow> ids_issued (Suc n) s'"
    and "udcTryConnectIPv6 env (Some s) ip6 port timeout = Inr (Some eid, Some s') \<Longrightarrow> ids_issued (Suc n) s'"
    using udcTryConnectIPv4_eq [OF _ t] udcTryConnectIPv6_eq [OF _ t]
    by (cases "timeout = 0"; auto simp: udcTryConnectIPv4_def udcTryConnectIPv6_def)+
qed

lemma tryBind_ids:
  "tryBindIPv4 env port s = Inr (b, s') \<Longrightarrow> ids_issued n s' = ids_issued n s"
  "tryBindIPv6 env port s = Inr (b, s') \<Longrightarrow> ids_issued n s' = ids_issued n s"
  by (auto simp: tryBindIPv4_def tryBindIPv6_def bind_r_Inr_iff ids_issued_def)

lemma udcSendMessage_safe:
  assumes "server_inv s" and "sendable data dsize"
  shows "safe_op s (udcSendMessage env s eid data dsize reliability)"
  using assms sendUnreliableMessage_safe [of s dsize data env eid] sendReliableMessage_safe [of s dsize data eid]
  by (simp add: udcSendMessage_def sendable_def)

lemma reachable_inv:
  assumes doc: "platform_documented env backlog"
  shows "server_reachable env backlog n s \<Longrightarrow> server_inv s \<and> ids_issued n s"
proof (induction rule: server_reachable.induct)
  case (created bsize buffer signature logFileName p s)
  then obtain mux where "9 \<le> unat bsize" and s: "s = initial_server mux signature buffer bsize p"
    by (auto simp: udcCreateServer_eq split: if_splits)
  with created have "server_inv s" by (simp add: initial_server_inv)
  moreover have "ids_issued 0 s"
    unfolding s by (simp add: ids_issued_def object_ids_def initial_server_def)
  ultimately show ?case by simp
next
  case (world n s p)
  moreover have "server_inv (s\<lparr>process := p\<rparr>)" if "server_inv s"
    using that by (simp add: inv_defs)
  moreover have "ids_issued n (s\<lparr>process := p\<rparr>) = ids_issued n s" by (rule ids_issued_frame) simp_all
  ultimately show ?case by blast
next
  case (process n s fuel event s')
  with udcProcessEvents_safe [of env backlog s fuel] doc
  have "server_inv s' \<and> kept s s'"
    by (auto simp: platform_documented_def polls_safely_def)
  with process show ?case by (simp add: ids_issued_kept [of s s'])
next
  case (send n s data dsize eid reliability b s')
  with udcSendMessage_safe [of s data dsize env eid reliability]
  show ?case by (simp add: ids_issued_kept [of s s'])
next
  case (disconnect n s eid s')
  with disconnectFromClient_safe [of s eid]
  show ?case by (simp add: ids_issued_kept [of s s'] udcDisconnect_def)
qed (auto simp: udcTryBindIPv4_def udcTryBindIPv6_def tryBind_ids dest: tryBind_inv udcTryConnect_inv
      intro: with_pending_connect)

section \<open>Connecting and asking for the status always return\<close>

lemma udcTryConnect_returns:
  assumes inv: "server_inv s"
  shows "\<exists>e s'. udcTryConnectIPv4 env (Some s) ip4 port timeout = Inr (e, Some s') \<and> server_inv s'"
    and "\<exists>e s'. udcTryConnectIPv6 env (Some s) ip6 port timeout = Inr (e, Some s') \<and> server_inv s'"
proof -
  obtain t s1 where t: "current_time env s = (t, s1)" by fastforce
  note s1 = current_time_frame(1) [OF t inv]
  have new: "server_inv (with_pending (new_client eid a timeout t) s1)" for eid a
    by (rule server_inv_with_pending [OF s1]) (simp add: new_client_def)
  show "\<exists>e s'. udcTryConnectIPv4 env (Some s) ip4 port timeout = Inr (e, Some s') \<and> server_inv s'"
    using inv udcTryConnectIPv4_eq [OF _ t, of timeout ip4 port] new
    by (cases "timeout = 0") (auto simp: udcTryConnectIPv4_def [of env "Some s" _ _ 0])
  show "\<exists>e s'. udcTryConnectIPv6 env (Some s) ip6 port timeout = Inr (e, Some s') \<and> server_inv s'"
    using inv udcTryConnectIPv6_eq [OF _ t, of timeout ip6 port] new
    by (cases "timeout = 0") (auto simp: udcTryConnectIPv6_def [of env "Some s" _ _ 0])
qed

lemma udcGetStatus_returns: "server_inv s \<Longrightarrow> \<exists>st. udcGetStatus env s eid = Inr st"
  using server_inv_client(1) [of s eid]
  by (cases "m_clientsById s eid")
    (auto simp: udcGetStatus_def getEndPointStatus_def tryGetClientById_def)

end
