(* ===== verification/Protocol.thy ===== *)
theory Protocol
  imports Lifecycle
begin

text \<open>
  The protocol above the bytes: the messages two servers exchange, their one encoding, and
  what each operation of the server does in terms of messages. \<open>decode\<close> is the
  specification of the header checks and size checks of \<open>receiveMessages\<close>; \<open>transmits\<close> says
  which bytes an operation hands to the operating system, for which address, and that it
  changes nothing else.
\<close>

section \<open>Messages\<close>

datatype message =
    Request u32
  | Handshake u32
  | Ping u32
  | Pong u32
  | Unreliable "byte list"
  | Reset u32
  | Reliable bool u32 "byte list"
  | ResetAck u32
  | Ack bool u32

fun message_id :: "message \<Rightarrow> UdcMessageId" where
  "message_id (Request _) = UDC_MSG_CONNECTION_REQUEST"
| "message_id (Handshake _) = UDC_MSG_CONNECTION_HANDSHAKE"
| "message_id (Ping _) = UDC_MSG_PING"
| "message_id (Pong _) = UDC_MSG_PONG"
| "message_id (Unreliable _) = UDC_MSG_UNRELIABLE"
| "message_id (Reset _) = UDC_MSG_RELIABLE_RESET"
| "message_id (Reliable b _ _) = (if b then UDC_MSG_RELIABLE_1 else UDC_MSG_RELIABLE_0)"
| "message_id (ResetAck _) = UDC_MSG_RELIABLE_HANDSHAKE_RESET"
| "message_id (Ack b _) = (if b then UDC_MSG_RELIABLE_HANDSHAKE_1 else UDC_MSG_RELIABLE_HANDSHAKE_0)"

fun message_body :: "message \<Rightarrow> byte list" where
  "message_body (Request i) = u32_bytes i"
| "message_body (Handshake i) = u32_bytes i"
| "message_body (Ping t) = u32_bytes t"
| "message_body (Pong t) = u32_bytes t"
| "message_body (Unreliable d) = d"
| "message_body (Reset t) = u32_bytes t"
| "message_body (Reliable b t d) = u32_bytes t @ d"
| "message_body (ResetAck t) = u32_bytes t"
| "message_body (Ack b t) = u32_bytes t"

definition encode :: "UdcSignature \<Rightarrow> message \<Rightarrow> byte list" where
  "encode g m = signature_bytes g @ UdcMessageId_code (message_id m) # message_body m"

text \<open>The body of a message, read for a given id; sizes are checked as the code does.\<close>

definition decode_word :: "(u32 \<Rightarrow> message) \<Rightarrow> byte list \<Rightarrow> message option" where
  "decode_word f body = (if length body = 4 then Some (f (u32_of_bytes body)) else None)"

definition decode_reliable :: "bool \<Rightarrow> byte list \<Rightarrow> message option" where
  "decode_reliable b body =
     (if 4 \<le> length body then Some (Reliable b (u32_of_bytes (take 4 body)) (drop 4 body)) else None)"

definition decode_body :: "UdcMessageId \<Rightarrow> byte list \<Rightarrow> message option" where
  "decode_body i body =
     (case i of
        UDC_MSG_CONNECTION_REQUEST \<Rightarrow> decode_word Request body
      | UDC_MSG_CONNECTION_HANDSHAKE \<Rightarrow> decode_word Handshake body
      | UDC_MSG_PING \<Rightarrow> decode_word Ping body
      | UDC_MSG_PONG \<Rightarrow> decode_word Pong body
      | UDC_MSG_UNRELIABLE \<Rightarrow> Some (Unreliable body)
      | UDC_MSG_RELIABLE_RESET \<Rightarrow> decode_word Reset body
      | UDC_MSG_RELIABLE_0 \<Rightarrow> decode_reliable False body
      | UDC_MSG_RELIABLE_1 \<Rightarrow> decode_reliable True body
      | UDC_MSG_RELIABLE_HANDSHAKE_RESET \<Rightarrow> decode_word ResetAck body
      | UDC_MSG_RELIABLE_HANDSHAKE_0 \<Rightarrow> decode_word (Ack False) body
      | UDC_MSG_RELIABLE_HANDSHAKE_1 \<Rightarrow> decode_word (Ack True) body)"

definition decode :: "UdcSignature \<Rightarrow> byte list \<Rightarrow> message option" where
  "decode g bs =
     (if length bs < 5 \<or> take 4 bs \<noteq> signature_bytes g then None
      else case UdcMessageId_of_code (bs ! 4) of
        None \<Rightarrow> None
      | Some i \<Rightarrow> decode_body i (drop 5 bs))"

lemma u32_of_bytes_inject:
  assumes "length a = 4" and "length b = 4" and "u32_of_bytes a = u32_of_bytes b"
  shows "a = b"
proof -
  have "u32_bytes (u32_of_bytes xs) = xs" if "length xs = 4" for xs :: "byte list"
    using that u32_of_bytes_inverse by (auto simp: length_Suc_conv numeral_eq_Suc simp del: u32_of_bytes.simps)
  then show ?thesis using assms by metis
qed

lemma u32_bytes_of_bytes: "length xs = 4 \<Longrightarrow> u32_bytes (u32_of_bytes xs) = xs"
  by (rule u32_of_bytes_inject) simp_all

lemma decode_word_eq: "decode_word f body = Some m \<longleftrightarrow> (\<exists>w. m = f w \<and> body = u32_bytes w)"
  by (auto simp: decode_word_def u32_bytes_of_bytes split: if_splits
      intro!: exI [of _ "u32_of_bytes body"])

lemma decode_reliable_eq:
  "decode_reliable b body = Some m \<longleftrightarrow> (\<exists>t d. m = Reliable b t d \<and> body = u32_bytes t @ d)"
  by (auto simp: decode_reliable_def u32_bytes_of_bytes split: if_splits)

lemma decode_body_eq: "decode_body i body = Some m \<longleftrightarrow> i = message_id m \<and> body = message_body m"
  by (cases i; cases m) (auto simp: decode_body_def decode_word_eq decode_reliable_eq)

lemma split_header:
  "5 \<le> length bs \<Longrightarrow> bs = take 4 bs @ bs ! 4 # drop 5 bs"
  by (metis Suc_le_lessD append_take_drop_id Cons_nth_drop_Suc numeral_eq_Suc pred_numeral_simps)

lemma decode_eq: "decode g bs = Some m \<longleftrightarrow> bs = encode g m"
proof
  assume d: "decode g bs = Some m"
  then have len: "5 \<le> length bs" and "take 4 bs = signature_bytes g"
    and "bs ! 4 = UdcMessageId_code (message_id m)" and "drop 5 bs = message_body m"
    by (auto simp: decode_def UdcMessageId_of_code_Some decode_body_eq split: if_splits option.splits)
  with split_header [OF len] show "bs = encode g m" by (simp add: encode_def)
next
  assume "bs = encode g m"
  then show "decode g bs = Some m"
    by (simp add: decode_def encode_def nth_append decode_body_eq)
qed

lemma length_encode: "length (encode g m) = 5 + length (message_body m)"
  by (simp add: encode_def)


section \<open>What leaves the server\<close>

text \<open>
  The call of \<open>sendto\<close> that sending the bytes \<open>bs\<close> to an address amounts to: through the
  first socket of the address family, when there is one and it is open.
\<close>

definition wire_out :: "'w platform_api \<Rightarrow> UdcSocketMux \<Rightarrow> UdcAddressMux \<Rightarrow> byte list \<Rightarrow> 'w \<Rightarrow> 'w" where
  "wire_out env mux a bs w =
     (case end_point_of a of
        EP_IPv6 ip port \<Rightarrow>
          (case m_socketIPv6 mux of
             [] \<Rightarrow> w
           | sock # _ \<Rightarrow>
               if us_socket sock = INVALID_SOCKET then w
               else snd (api_sendto_in6 env (us_socket sock) bs (int (length bs))
                           (createAddressIPv6 env ip port) w))
      | EP_IPv4 ip port \<Rightarrow>
          (case m_socketIPv4 mux of
             [] \<Rightarrow> w
           | sock # _ \<Rightarrow>
               if us_socket sock = INVALID_SOCKET then w
               else snd (api_sendto_in env (us_socket sock) bs (int (length bs))
                           (createAddressIPv4 env ip port) w)))"

text \<open>
  \<open>transmits env a bs s s'\<close>: the bytes \<open>bs\<close> were composed at the start of the message buffer
  and handed to the operating system for the address \<open>a\<close>; beside the buffer, the log and
  the operating system's state nothing changed.
\<close>

definition transmits ::
  "'w platform_api \<Rightarrow> UdcAddressMux \<Rightarrow> byte list \<Rightarrow> 'w UdcServerImpl \<Rightarrow> 'w UdcServerImpl \<Rightarrow> bool" where
  "transmits env a bs s s' \<longleftrightarrow>
     length bs \<le> length (m_messageBuffer s) \<and>
     (\<exists>mux. same_sockets (m_socket s) mux \<and>
        s' = s\<lparr>m_messageBuffer := write_at 0 bs (m_messageBuffer s), m_socket := mux,
               process := (process s)\<lparr>os := wire_out env (m_socket s) a bs (os (process s))\<rparr>\<rparr>)"

lemma mux_send_wire:
  assumes "fits n buf"
  shows "ok_r (mux_send env a buf n mux p)
    (\<lambda>(sent, mux', p'). same_sockets mux mux' \<and>
       p' = p\<lparr>os := wire_out env mux a (take (unat n) buf) (os p)\<rparr>)"
proof -
  from assms have len: "unat n \<le> length buf" and sint: "sint n = int (unat n)"
    by (auto simp: fits_iff sint_cases32)
  note logs = log_if_ok [OF log_lines_ok(1) [OF len]] log_if_ok [OF log_lines_ok(2) [OF len]]
  show ?thesis
    using len
    by (cases "am_family a"; cases "m_socketIPv4 mux"; cases "m_socketIPv6 mux")
      (auto simp: mux_send_def mux_sendIPv4_def mux_sendIPv6_def sendIPv4_def sendIPv6_def
        sendPacketIPv4_def sendPacketIPv6_def wire_out_def end_point_of_def sint case_prod_beta Let_def min_def
        simp del: ok_r_bind intro!: ok_r_bindI [OF logs(1)] ok_r_bindI [OF logs(2)])
qed

lemma server_send_wire:
  assumes "fits n (m_messageBuffer s)"
  shows "ok_r (server_send env a n s) (transmits env a (take (unat n) (m_messageBuffer s)) s)"
  unfolding server_send_def
  by (rule ok_r_bindI [OF mux_send_wire [OF assms]])
    (use assms in \<open>auto simp: transmits_def fits_iff write_at_def\<close>)

section \<open>Composing a message in the buffer\<close>

text \<open>
  The first four bytes of the message buffer are the signature \<open>g\<close>: every message composed there
  carries it. Between calls this is the server's own signature unless a short datagram spoilt it.
\<close>

definition stamped :: "UdcSignature \<Rightarrow> 'w UdcServerImpl \<Rightarrow> bool" where
  "stamped g s \<longleftrightarrow> read_at 0 4 (m_messageBuffer s) = signature_bytes g"

abbreviation signed :: "'w UdcServerImpl \<Rightarrow> bool" where
  "signed s \<equiv> stamped (m_packetSignature s) s"

lemma write_at_take: "4 \<le> length buf \<Longrightarrow> read_at 0 4 buf = g \<Longrightarrow> 4 + length xs \<le> length buf \<Longrightarrow>
  write_at 4 xs buf = write_at 0 (g @ xs) buf"
  by (auto simp: write_at_def read_at_def)

lemma write_at_adjacent:
  "d + length xs + length ys \<le> length buf \<Longrightarrow>
   write_at (d + length xs) ys (write_at d xs buf) = write_at d (xs @ ys) buf"
  by (cases xs) (auto simp: write_at_def min_def ac_simps)

lemma write_message:
  assumes "read_at 0 4 buf = signature_bytes g" and "5 + length body \<le> length buf"
  shows "write_at 5 body (write_at 4 [c] buf) = write_at 0 (signature_bytes g @ c # body) buf"
  using assms write_at_adjacent [of 4 "[c]" body buf]
    write_at_take [of buf "signature_bytes g" "c # body"] by simp

lemma write_reliable:
  assumes "read_at 0 4 buf = signature_bytes g" and "9 + length d \<le> length buf"
  shows "write_at 9 d (write_at 5 (u32_bytes t) (write_at 4 [c] buf))
       = write_at 0 (signature_bytes g @ c # u32_bytes t @ d) buf"
  using assms write_at_adjacent [of 5 "u32_bytes t" d "write_at 4 [c] buf"]
    write_message [of buf g "u32_bytes t @ d" c] by simp

lemma transmits_composed:
  assumes "ok_r (server_send env a n (s\<lparr>m_messageBuffer := write_at 0 bs (m_messageBuffer s)\<rparr>))
      (transmits env a bs (s\<lparr>m_messageBuffer := write_at 0 bs (m_messageBuffer s)\<rparr>))"
    and "length bs \<le> length (m_messageBuffer s)"
  shows "ok_r (server_send env a n (s\<lparr>m_messageBuffer := write_at 0 bs (m_messageBuffer s)\<rparr>))
      (transmits env a bs s)"
  using assms(1)
  by (rule ok_r_mono) (use assms(2) in \<open>auto simp: transmits_def write_at_write_same\<close>)

lemma send_composed:
  assumes "unat n = length bs" and "length bs \<le> length (m_messageBuffer s)" and "unat n < 2147483648"
  shows "ok_r (server_send env a n (s\<lparr>m_messageBuffer := write_at 0 bs (m_messageBuffer s)\<rparr>))
      (transmits env a bs s)"
proof (rule transmits_composed)
  have "read_at 0 (length bs) (write_at 0 bs (m_messageBuffer s)) = bs"
    using assms(2) by simp
  then have "take (unat n) (write_at 0 bs (m_messageBuffer s)) = bs"
    using assms(1) by (simp add: take_eq_read_at)
  then show "ok_r (server_send env a n (s\<lparr>m_messageBuffer := write_at 0 bs (m_messageBuffer s)\<rparr>))
      (transmits env a bs (s\<lparr>m_messageBuffer := write_at 0 bs (m_messageBuffer s)\<rparr>))"
    using server_send_wire [of n "s\<lparr>m_messageBuffer := write_at 0 bs (m_messageBuffer s)\<rparr>" env a] assms
    by (simp add: fits_iff)
qed (rule assms(2))

lemma put_buffer_eq: "put (m_messageBuffer s) = Inr buf \<Longrightarrow> put_buffer put s = Inr (s\<lparr>m_messageBuffer := buf\<rparr>)"
  by (simp add: put_buffer_def)

text \<open>The four ways the server composes a message and sends it.\<close>

lemma send_word_message:
  assumes sg: "stamped g s" and len: "9 \<le> length (m_messageBuffer s)"
    and body: "message_body m = u32_bytes w"
  shows "ok_r (bind_r (put_buffer (\<lambda>buf. serializeMsgId buf (message_id m)) s) (\<lambda>s1.
               bind_r (put_buffer (\<lambda>buf. msgConnection_serializeEndPointId buf w) s1)
               (server_send env a 9))) (transmits env a (encode g m) s)"
    and "ok_r (bind_r (put_buffer (\<lambda>buf. serializeMsgId buf (message_id m)) s) (\<lambda>s1.
               bind_r (put_buffer (\<lambda>buf. msgPingPong_serializeTimeStamp buf w) s1)
               (server_send env a 9))) (transmits env a (encode g m) s)"
    and "ok_r (bind_r (put_buffer (\<lambda>buf. serializeMsgId buf (message_id m)) s) (\<lambda>s1.
               bind_r (put_buffer (\<lambda>buf. msgReliable_serializeTimeStamp buf w) s1)
               (server_send env a 9))) (transmits env a (encode g m) s)"
proof -
  have eq: "write_at 5 (u32_bytes w) (write_at 4 [UdcMessageId_code (message_id m)] (m_messageBuffer s))
      = write_at 0 (encode g m) (m_messageBuffer s)"
    using write_message [of "m_messageBuffer s" g "u32_bytes w" "UdcMessageId_code (message_id m)"]
      sg len by (simp add: encode_def body stamped_def)
  have "length (encode g m) = 9" by (simp add: length_encode body)
  then have snd: "ok_r (server_send env a 9 (s\<lparr>m_messageBuffer := write_at 0 (encode g m) (m_messageBuffer s)\<rparr>))
      (transmits env a (encode g m) s)"
    using len by (intro send_composed) simp_all
  show "ok_r (bind_r (put_buffer (\<lambda>buf. serializeMsgId buf (message_id m)) s) (\<lambda>s1.
               bind_r (put_buffer (\<lambda>buf. msgConnection_serializeEndPointId buf w) s1)
               (server_send env a 9))) (transmits env a (encode g m) s)"
    and "ok_r (bind_r (put_buffer (\<lambda>buf. serializeMsgId buf (message_id m)) s) (\<lambda>s1.
               bind_r (put_buffer (\<lambda>buf. msgPingPong_serializeTimeStamp buf w) s1)
               (server_send env a 9))) (transmits env a (encode g m) s)"
    and "ok_r (bind_r (put_buffer (\<lambda>buf. serializeMsgId buf (message_id m)) s) (\<lambda>s1.
               bind_r (put_buffer (\<lambda>buf. msgReliable_serializeTimeStamp buf w) s1)
               (server_send env a 9))) (transmits env a (encode g m) s)"
    using snd len by (simp_all add: put_buffer_def codec_simps eq del: ok_r_bind)
qed

lemma send_unreliable_message:
  assumes sg: "stamped g s" and fit: "fits (5 + n) (m_messageBuffer s)" and n: "unat (5 + n) = 5 + unat n"
    and data: "unat n \<le> length data"
  shows "ok_r (bind_r (put_buffer (\<lambda>buf. serializeMsgId buf UDC_MSG_UNRELIABLE) s) (\<lambda>s1.
               bind_r (put_buffer (\<lambda>buf. msgUnreliable_serializeData buf data n) s1)
               (server_send env a (5 + n)))) (transmits env a (encode g (Unreliable (take (unat n) data))) s)"
proof -
  have len: "5 + unat n \<le> length (m_messageBuffer s)" using fit n by (simp add: fits_iff)
  have eq: "write_at 5 (take (unat n) data) (write_at 4 [UdcMessageId_code UDC_MSG_UNRELIABLE] (m_messageBuffer s))
      = write_at 0 (encode g (Unreliable (take (unat n) data))) (m_messageBuffer s)"
    using write_message [of "m_messageBuffer s" g "take (unat n) data" "UdcMessageId_code UDC_MSG_UNRELIABLE"]
      sg len data by (simp add: encode_def stamped_def)
  have "length (encode g (Unreliable (take (unat n) data))) = 5 + unat n"
    using data by (simp add: length_encode)
  then have "ok_r (server_send env a (5 + n)
        (s\<lparr>m_messageBuffer := write_at 0 (encode g (Unreliable (take (unat n) data))) (m_messageBuffer s)\<rparr>))
      (transmits env a (encode g (Unreliable (take (unat n) data))) s)"
    using len n fit by (intro send_composed) (simp_all add: fits_iff)
  then show ?thesis
    using len data eq by (simp add: put_buffer_def codec_simps del: ok_r_bind)
qed

lemma send_reliable_message:
  assumes sg: "stamped g s" and fit: "fits n (m_messageBuffer s)" and n: "unat n = 9 + length d"
    and k: "unat k = length d"
  shows "ok_r (bind_r (put_buffer (\<lambda>buf. serializeMsgId buf
                 (if b then UDC_MSG_RELIABLE_1 else UDC_MSG_RELIABLE_0)) s) (\<lambda>s1.
               bind_r (put_buffer (\<lambda>buf. msgReliable_serializeTimeStamp buf w) s1) (\<lambda>s2.
               bind_r (put_buffer (\<lambda>buf. msgReliable_serializeData buf d k) s2)
               (server_send env a n)))) (transmits env a (encode g (Reliable b w d)) s)"
proof -
  have len: "9 + length d \<le> length (m_messageBuffer s)" using fit n by (simp add: fits_iff)
  have eq: "write_at 9 d (write_at 5 (u32_bytes w) (write_at 4
        [UdcMessageId_code (if b then UDC_MSG_RELIABLE_1 else UDC_MSG_RELIABLE_0)] (m_messageBuffer s)))
      = write_at 0 (encode g (Reliable b w d)) (m_messageBuffer s)"
    using write_reliable [of "m_messageBuffer s" g d w] sg len by (simp add: encode_def stamped_def)
  have "length (encode g (Reliable b w d)) = 9 + length d"
    by (simp add: length_encode)
  then have "ok_r (server_send env a n
        (s\<lparr>m_messageBuffer := write_at 0 (encode g (Reliable b w d)) (m_messageBuffer s)\<rparr>))
      (transmits env a (encode g (Reliable b w d)) s)"
    using len n fit by (intro send_composed) (simp_all add: fits_iff)
  then show ?thesis
    using len k eq by (simp add: put_buffer_def codec_simps del: ok_r_bind)
qed

text \<open>Answering: the id of the received message is replaced and its first nine bytes return.\<close>

lemma write_id_over:
  assumes "read_at 0 n buf = signature_bytes g @ c # w @ rest" and "length w = 4"
  shows "write_at 4 [c'] buf = write_at 0 (signature_bytes g @ c' # w) buf"
proof -
  have "buf = read_at 0 n buf @ drop n buf" by (simp add: read_at_def)
  then have "buf = signature_bytes g @ c # w @ rest @ drop n buf" using assms(1) by simp
  then obtain tail where "buf = signature_bytes g @ c # w @ tail" by blast
  with assms(2) show ?thesis by (simp add: write_at_def)
qed

lemma reply_message:
  assumes recv: "read_at 0 (unat n) (m_messageBuffer s) = encode (m_packetSignature s) m"
    and len: "unat n \<le> length (m_messageBuffer s)"
    and body: "message_body m = u32_bytes w @ rest" "message_body m' = u32_bytes w"
    and g: "g = m_packetSignature s"
  shows "ok_r (bind_r (put_buffer (\<lambda>buf. serializeMsgId buf (message_id m')) s) (server_send env a 9))
     (transmits env a (encode g m') s)"
proof -
  have "length (encode g m) = unat n" using recv len g by (metis diff_zero length_read_at le_add_diff_inverse add_0)
  then have n: "9 \<le> unat n" by (simp add: length_encode body)
  have eq: "write_at 4 [UdcMessageId_code (message_id m')] (m_messageBuffer s)
      = write_at 0 (encode g m') (m_messageBuffer s)"
    using write_id_over [of "unat n" "m_messageBuffer s" g "UdcMessageId_code (message_id m)" "u32_bytes w" rest]
      recv by (simp add: encode_def body g)
  have "length (encode g m') = 9" by (simp add: length_encode body)
  then have "ok_r (server_send env a 9 (s\<lparr>m_messageBuffer := write_at 0 (encode g m') (m_messageBuffer s)\<rparr>))
      (transmits env a (encode g m') s)"
    using n len by (intro send_composed) simp_all
  then show ?thesis
    using n len eq by (simp add: put_buffer_def codec_simps del: ok_r_bind)
qed

section \<open>Handling a message that has been received\<close>

text \<open>The message in the buffer after a datagram of \<open>n\<close> bytes has been received.\<close>

definition received :: "u32 \<Rightarrow> 'w UdcServerImpl \<Rightarrow> message option" where
  "received n s = decode (m_packetSignature s) (read_at 0 (unat n) (m_messageBuffer s))"

lemma received_size:
  assumes "received n s = Some m" and "unat n \<le> length (m_messageBuffer s)"
  shows "unat n = 5 + length (message_body m)"
    and "read_at 0 (unat n) (m_messageBuffer s) = encode (m_packetSignature s) m"
  using assms length_encode [of "m_packetSignature s" m]
  by (auto simp: received_def decode_eq) (metis add_0 length_read_at)

lemma size_eqs:
  "unat (n :: u32) = 9 \<longleftrightarrow> n = 9" "9 \<le> unat n \<longleftrightarrow> 9 \<le> n" "5 \<le> unat n \<longleftrightarrow> 5 \<le> n"
  by (simp_all add: word_unat_eq_iff word_le_nat_alt)

lemma read_prefix: "k \<le> n \<Longrightarrow> take k (read_at 0 n buf) = read_at 0 k buf"
  by (simp add: read_at_def min_def)

lemma nth_read_at: "d + k < n + d \<Longrightarrow> read_at d n buf ! k = (drop d buf) ! k"
  by (simp add: read_at_def)

lemma handle_message_decoded:
  assumes rcv: "received n s = Some m" and len: "unat n \<le> length (m_messageBuffer s)"
  shows "handle_message env time a n s = dispatch env time (Some (message_id m)) a n s"
proof -
  note sz = received_size [OF assms]
  have five: "5 \<le> unat n" using sz by simp
  have "take 4 (encode (m_packetSignature s) m) = read_at 0 4 (m_messageBuffer s)"
    unfolding sz(2) [symmetric] using five by (simp add: read_prefix)
  then have sig: "read_at 0 4 (m_messageBuffer s) = signature_bytes (m_packetSignature s)"
    by (simp add: encode_def)
  have "encode (m_packetSignature s) m ! 4 = m_messageBuffer s ! 4"
    unfolding sz(2) [symmetric] using five by (simp add: nth_read_at)
  then have "read_at 4 1 (m_messageBuffer s) = [UdcMessageId_code (message_id m)]"
    using five len by (simp add: read_at_one [unfolded One_nat_def] encode_def nth_append)
  moreover have "\<not> n < 5" using five by (simp add: size_eqs not_less)
  ultimately show ?thesis
    using sig five len by (simp add: handle_message_def codec_simps)
qed

lemma handle_message_ignored:
  assumes rcv: "received n s = None" and inv: "server_inv s" and len: "unat n \<le> length (m_messageBuffer s)"
  shows "handle_message env time a n s =
    Inr (None, if 5 \<le> n \<and> \<not> signed s
               then s\<lparr>m_messageBuffer := write_at 0 (signature_bytes (m_packetSignature s)) (m_messageBuffer s)\<rparr>
               else s)"
proof -
  note buf = server_inv_buffer [OF inv]
  define bs where "bs = read_at 0 (unat n) (m_messageBuffer s)"
  have bs: "length bs = unat n" using len by (simp add: bs_def)
  show ?thesis
  proof (cases "5 \<le> n \<and> signed s")
    case False
    with buf show ?thesis
      by (auto simp: handle_message_def codec_simps stamped_def no_event_def put_buffer_def not_less
          signature_bytes_of_bytes)
  next
    case True
    then have five: "5 \<le> unat n" by (simp add: size_eqs)
    have sig: "take 4 bs = signature_bytes (m_packetSignature s)"
      using True five by (simp add: bs_def read_prefix stamped_def)
    have id: "read_at 4 1 (m_messageBuffer s) = [bs ! 4]"
      using five len by (simp add: bs_def nth_read_at read_at_one [unfolded One_nat_def])
    have none: "(case UdcMessageId_of_code (bs ! 4) of None \<Rightarrow> None | Some i \<Rightarrow> decode_body i (drop 5 bs)) = None"
      using rcv five sig bs by (simp add: received_def bs_def [symmetric] decode_def)
    have "dispatch env time (UdcMessageId_of_code (bs ! 4)) a n s = Inr (None, s)"
    proof (cases "UdcMessageId_of_code (bs ! 4)")
      case None
      then show ?thesis by (simp add: dispatch_def)
    next
      case (Some i)
      with none have d: "decode_body i (drop 5 bs) = None" by simp
      have "length (drop 5 bs) = 4 \<longleftrightarrow> n = 9" "4 \<le> length (drop 5 bs) \<longleftrightarrow> 9 \<le> n"
        using bs five by (auto simp: size_eqs [symmetric])
      with d Some show ?thesis
        by (cases i) (auto simp: dispatch_def decode_body_def decode_word_def decode_reliable_def split: if_splits)
    qed
    then show ?thesis
      using True id buf
      by (simp add: handle_message_def codec_simps stamped_def not_less signature_bytes_of_bytes)
  qed
qed

lemma received_word:
  assumes rcv: "received n s = Some m" and len: "unat n \<le> length (m_messageBuffer s)"
    and body: "message_body m = u32_bytes w @ rest"
  shows "read_at 5 4 (m_messageBuffer s) = u32_bytes w" and "9 \<le> length (m_messageBuffer s)"
proof -
  note sz = received_size [OF rcv len]
  show "9 \<le> length (m_messageBuffer s)" using sz len by (simp add: body)
  have "read_at 5 4 (m_messageBuffer s) = take 4 (drop 5 (read_at 0 (unat n) (m_messageBuffer s)))"
    using sz(1) by (simp add: read_at_def drop_take body)
  then show "read_at 5 4 (m_messageBuffer s) = u32_bytes w"
    unfolding sz(2) by (simp add: encode_def body)
qed

lemma dispatch_decoded:
  assumes rcv: "received n s = Some m" and len: "unat n \<le> length (m_messageBuffer s)"
  shows "dispatch env time (Some (message_id m)) a n s =
    (case m of
       Request _ \<Rightarrow> no_event (processConnectionRequest env a s)
     | Handshake _ \<Rightarrow> processConnectionHandshake a time s
     | Ping _ \<Rightarrow> no_event (processPing env a s)
     | Pong _ \<Rightarrow> processPong a time s
     | Unreliable _ \<Rightarrow> processUnreliable a n s
     | Reset _ \<Rightarrow> processReliableMessage env (-1) a n s
     | Reliable b _ _ \<Rightarrow> processReliableMessage env (if b then 1 else 0) a n s
     | ResetAck _ \<Rightarrow> processReliableHandshake (-1) a time s
     | Ack b _ \<Rightarrow> processReliableHandshake (if b then 1 else 0) a time s)"
proof -
  note sz = received_size(1) [OF assms]
  have "length (message_body m) = 4 \<Longrightarrow> n = 9" "4 \<le> length (message_body m) \<Longrightarrow> 9 \<le> n" "5 \<le> n"
    using sz by (simp_all add: size_eqs [symmetric])
  then show ?thesis
    by (cases m) (simp_all add: dispatch_def)
qed

section \<open>The effect of each message\<close>

lemma handle_request:
  assumes rcv: "received n s = Some (Request i)" and len: "unat n \<le> length (m_messageBuffer s)"
  shows "ok_r (handle_message env time a n s)
    (\<lambda>(e, s'). e = None \<and> transmits env a (encode (m_packetSignature s) (Handshake i)) s s')"
  using reply_message [of n s "Request i" i "[]" "Handshake i" "m_packetSignature s" env a]
    received_size(2) [OF rcv len] len
  by (auto simp: handle_message_decoded [OF rcv len, simplified] dispatch_decoded [OF rcv len, simplified]
      no_event_def processConnectionRequest_def)

lemma handle_ping:
  assumes rcv: "received n s = Some (Ping t)" and len: "unat n \<le> length (m_messageBuffer s)"
  shows "ok_r (handle_message env time a n s)
    (\<lambda>(e, s'). e = None \<and> transmits env a (encode (m_packetSignature s) (Pong t)) s s')"
  using reply_message [of n s "Ping t" t "[]" "Pong t" "m_packetSignature s" env a]
    received_size(2) [OF rcv len] len
  by (auto simp: handle_message_decoded [OF rcv len, simplified] dispatch_decoded [OF rcv len, simplified]
      no_event_def processPing_def)

definition bit_state :: "bool \<Rightarrow> int" where
  "bit_state b = (if b then 1 else 0)"

lemma next_bit_state: "next_state (bit_state b) = bit_state (\<not> b)"
  by (simp add: next_state_def bit_state_def)

lemma bit_state_inject [simp]: "bit_state a = bit_state b \<longleftrightarrow> a = b"
  by (simp add: bit_state_def)

lemma bit_state_range [simp]: "bit_state b \<noteq> -1" "-1 \<noteq> bit_state b" "bit_state b \<in> {0, 1}" "bit_state b \<in> {-1, 0, 1}"
  by (simp_all add: bit_state_def)

definition with_reliable_state :: "UdcAddressMux \<Rightarrow> int \<Rightarrow> 'w UdcServerImpl \<Rightarrow> 'w UdcServerImpl" where
  "with_reliable_state a v s = s\<lparr>m_reliableStates := UdcAddressMap_insert (m_reliableStates s) a v\<rparr>"

text \<open>
  A reliable message is acknowledged whether or not it is delivered; it is delivered when
  its bit is the expected one or when nothing is known of the sender.
\<close>

lemma handle_reliable:
  assumes rcv: "received n s = Some (Reliable b t d)" and len: "unat n \<le> length (m_messageBuffer s)"
  shows "ok_r (handle_message env time a n s)
    (\<lambda>(e, s'). \<exists>s1. transmits env a (encode (m_packetSignature s) (Ack b t))
          (with_reliable_state a (bit_state (\<not> b)) s) s1 \<and>
        (if UdcAddressMap_find (m_reliableStates s) a \<in> {None, Some (bit_state b)}
         then e = Some (message_event a 9 (n - 9) (m_eventBuffer s)) \<and>
              s' = s1\<lparr>m_eventBuffer := message_event a 9 (n - 9) (m_eventBuffer s)\<rparr>
         else e = None \<and> s' = s1))"
proof -
  define s0 where "s0 = with_reliable_state a (bit_state (\<not> b)) s"
  have frame: "m_messageBuffer s0 = m_messageBuffer s" "m_packetSignature s0 = m_packetSignature s"
    "m_eventBuffer s0 = m_eventBuffer s"
    by (simp_all add: s0_def with_reliable_state_def)
  have ev: "m_eventBuffer s1 = m_eventBuffer s0" if "transmits env a bs s0 s1" for bs s1
    using that by (auto simp: transmits_def)
  have "ok_r (bind_r (put_buffer (\<lambda>buf. serializeMsgId buf (message_id (Ack b t))) s0) (server_send env a 9))
     (transmits env a (encode (m_packetSignature s) (Ack b t)) s0)"
    by (rule reply_message [of n s0 "Reliable b t d" t d])
      (simp_all only: frame received_size(2) [OF rcv len] len message_body.simps)
  then obtain s1 where snd: "bind_r (put_buffer (\<lambda>buf. serializeMsgId buf (message_id (Ack b t))) s0)
      (server_send env a 9) = Inr s1" and tr: "transmits env a (encode (m_packetSignature s) (Ack b t)) s0 s1"
    unfolding ok_r_iff by blast
  then obtain sm where m: "put_buffer (\<lambda>buf. serializeMsgId buf (message_id (Ack b t))) s0 = Inr sm"
    and m1: "server_send env a 9 sm = Inr s1"
    by (auto simp: bind_r_Inr_iff)
  have s0: "s\<lparr>m_reliableStates := UdcAddressMap_insert (m_reliableStates s) a
      (next_state (if b then 1 else 0))\<rparr> = s0"
    by (simp add: s0_def with_reliable_state_def bit_state_def next_state_def)
  have "handle_message env time a n s = processReliableMessage env (if b then 1 else 0) a n s"
    using dispatch_decoded [OF rcv len] by (simp add: handle_message_decoded [OF rcv len])
  also have "\<dots> = (if UdcAddressMap_find (m_reliableStates s) a \<in> {None, Some (bit_state b)}
       then emit (message_event a 9 (n - 9)) s1 else Inr (None, s1))"
    unfolding processReliableMessage_def Let_def s0
    using m m1 by (cases b) (auto simp: bit_state_def)
  finally show ?thesis
    using tr ev [OF tr] frame(3) by (auto simp: s0_def [symmetric] emit_def)
qed

lemma handle_reset:
  assumes rcv: "received n s = Some (Reset t)" and len: "unat n \<le> length (m_messageBuffer s)"
  shows "ok_r (handle_message env time a n s)
    (\<lambda>(e, s'). e = None \<and> transmits env a (encode (m_packetSignature s) (ResetAck t))
       (if UdcAddressMap_find (m_reliableStates s) a = None then s else with_reliable_state a 0 s) s')"
proof -
  define s0 where "s0 = (if UdcAddressMap_find (m_reliableStates s) a = None then s else with_reliable_state a 0 s)"
  have frame: "m_messageBuffer s0 = m_messageBuffer s" "m_packetSignature s0 = m_packetSignature s"
    by (simp_all add: s0_def with_reliable_state_def)
  have "ok_r (bind_r (put_buffer (\<lambda>buf. serializeMsgId buf (message_id (ResetAck t))) s0) (server_send env a 9))
     (transmits env a (encode (m_packetSignature s) (ResetAck t)) s0)"
    by (rule reply_message [of n s0 "Reset t" t "[]"])
      (simp_all only: frame received_size(2) [OF rcv len] len message_body.simps append_Nil2)
  then obtain s1 sm where m: "put_buffer (\<lambda>buf. serializeMsgId buf (message_id (ResetAck t))) s0 = Inr sm"
    and m1: "server_send env a 9 sm = Inr s1" and tr: "transmits env a (encode (m_packetSignature s) (ResetAck t)) s0 s1"
    by (auto simp: ok_r_iff bind_r_Inr_iff simp del: ok_r_bind message_id.simps)
  have s0: "(if UdcAddressMap_find (m_reliableStates s) a \<noteq> None
             then s\<lparr>m_reliableStates := UdcAddressMap_insert (m_reliableStates s) a 0\<rparr> else s) = s0"
    by (simp add: s0_def with_reliable_state_def)
  have "handle_message env time a n s = processReliableMessage env (-1) a n s"
    using dispatch_decoded [OF rcv len] by (simp add: handle_message_decoded [OF rcv len])
  also have "\<dots> = Inr (None, s1)"
    unfolding processReliableMessage_def Let_def s0 using m m1 by simp
  finally show ?thesis using tr by (simp add: s0_def)
qed

lemma handle_unreliable:
  assumes rcv: "received n s = Some (Unreliable d)" and len: "unat n \<le> length (m_messageBuffer s)"
  shows "handle_message env time a n s = emit (message_event a 5 (n - 5)) s"
  using dispatch_decoded [OF rcv len] by (simp add: handle_message_decoded [OF rcv len] processUnreliable_def)

text \<open>The payload of a message event is where the event says.\<close>

lemma payload_in_buffer:
  assumes rcv: "received n s = Some m" and len: "unat n \<le> length (m_messageBuffer s)"
  shows "m = Unreliable d \<Longrightarrow> read_at 5 (unat (n - 5)) (m_messageBuffer s) = d"
    and "m = Reliable b t d \<Longrightarrow> read_at 9 (unat (n - 9)) (m_messageBuffer s) = d"
proof -
  note sz = received_size [OF rcv len]
  have cut: "read_at k (unat (n - of_nat k)) (m_messageBuffer s) = drop k (encode (m_packetSignature s) m)"
    if "k \<le> unat n" "k < 2 ^ 32" for k
  proof -
    have "unat (of_nat k :: u32) = k" using that by (simp add: unat_of_nat)
    then have "unat (n - of_nat k) = unat n - k" using that by (simp add: unat_sub word_le_nat_alt)
    then show ?thesis unfolding sz(2) [symmetric] by (simp add: read_at_def drop_take)
  qed
  show "m = Unreliable d \<Longrightarrow> read_at 5 (unat (n - 5)) (m_messageBuffer s) = d"
    using cut [of 5] sz(1) by (simp add: encode_def)
  show "m = Reliable b t d \<Longrightarrow> read_at 9 (unat (n - 9)) (m_messageBuffer s) = d"
    using cut [of 9] sz(1) by (simp add: encode_def)
qed

section \<open>What the server sends on its own\<close>

lemma deref_Some: "heap s r = Some c \<Longrightarrow> deref r s = Inr c"
  by (simp add: deref_def)

lemma update_ping_effect:
  assumes inv: "server_inv s" and sg: "stamped g s" and c: "heap s r = Some c"
  shows "ok_r (update_ping env time r s) (\<lambda>s'.
    if needsPing c time
    then transmits env (m_outgoingAddress c) (encode g (Ping (word_of_int time))) s s'
    else s' = s)"
  using send_word_message(2) [OF sg server_inv_buffer(1) [OF inv], of "Ping (word_of_int time)" "word_of_int time"
      env "m_outgoingAddress c"] server_inv_buffer(5) [OF inv]
  by (simp add: update_ping_def deref_Some [OF c] del: ok_r_bind)

text \<open>What is sent for a client's reliable messages at a given time.\<close>

definition transmission :: "milliseconds \<Rightarrow> UdcClient \<Rightarrow> message option" where
  "transmission time c =
     (case m_reliableMessages c of
        [] \<Rightarrow> None
      | msg # _ \<Rightarrow>
          if m_reliableState c = -1 then Some (Reset (word_of_int time))
          else if needsReliableReset c time then None
          else Some (Reliable (m_reliableState c \<noteq> 0) (word_of_int time) msg))"

definition after_transmission :: "milliseconds \<Rightarrow> UdcClient \<Rightarrow> UdcClient" where
  "after_transmission time c =
     (if m_reliableMessages c = [] \<or> m_reliableState c = -1 then c
      else if needsReliableReset c time then resetSendReliable (setReliableState (-1) c)
      else setSendReliable time c)"

lemma transmits_keeps:
  assumes "transmits env a bs s s'"
  shows "heap s' = heap s" "m_clientsById s' = m_clientsById s" "m_clientsByAddress s' = m_clientsByAddress s"
    "m_reliableStates s' = m_reliableStates s" "m_pendingClients s' = m_pendingClients s"
    "m_eventBuffer s' = m_eventBuffer s" "m_packetSignature s' = m_packetSignature s"
    "m_idCounter s' = m_idCounter s" "heap_next s' = heap_next s"
    "m_messageBufferSize s' = m_messageBufferSize s"
    "length (m_messageBuffer s') = length (m_messageBuffer s)"
    "same_sockets (m_socket s) (m_socket s')"
  using assms by (auto simp: transmits_def)

lemma transmits_stamped: "transmits env a (encode g m) s s' \<Longrightarrow> stamped g s'"
  by (auto simp: transmits_def stamped_def encode_def read_at_def write_at_def)

lemma store_same: "heap s r = Some c \<Longrightarrow> store r c s = s"
  by (simp add: store_def fun_upd_idem)

lemma update_reliable_effect:
  assumes inv: "server_inv s" and sg: "stamped g s" and c: "heap s r = Some c"
  shows "ok_r (update_reliable env time r s) (\<lambda>s'. \<exists>s1.
    (case transmission time c of
       None \<Rightarrow> s1 = s
     | Some m \<Rightarrow> transmits env (m_outgoingAddress c) (encode g m) s s1) \<and>
    s' = store r (after_transmission time c) s1)"
proof (cases "m_reliableMessages c")
  case Nil
  then show ?thesis
    by (simp add: update_reliable_def deref_Some [OF c] transmission_def after_transmission_def store_same [OF c])
next
  case (Cons msg rest)
  let ?a = "m_outgoingAddress c" and ?g = g and ?t = "word_of_int time :: u32"
  have "length msg \<le> max_payload s"
    using server_inv_wf [OF inv c] Cons by (simp add: client_wf_def)
  then have len: "9 + length msg \<le> unat (m_messageBufferSize s)"
    using server_inv_buffer(4) [OF inv] by (simp add: max_payload_def)
  have sz: "unat (of_nat (length msg) :: u32) = length msg" "unat (of_nat (9 + length msg) :: u32) = 9 + length msg"
    using len unat_bound32 [of "m_messageBufferSize s"] by (simp_all add: unat_of_nat del: of_nat_add)
  have fit: "fits (of_nat (9 + length msg)) (m_messageBuffer s)"
    unfolding fits_iff sz using len server_inv_buffer [OF inv] by linarith
  note rel = send_reliable_message [OF sg fit sz(2) sz(1), of "m_reliableState c \<noteq> 0" ?t env ?a]
  have rst: "ok_r (bind_r (put_buffer (\<lambda>buf. serializeMsgId buf UDC_MSG_RELIABLE_RESET) s) (\<lambda>s1.
                bind_r (put_buffer (\<lambda>buf. msgReliable_serializeTimeStamp buf ?t) s1)
                (server_send env ?a 9))) (transmits env ?a (encode ?g (Reset ?t)) s)"
    using send_word_message(3) [OF sg server_inv_buffer(1) [OF inv], of "Reset ?t" ?t env ?a] by simp
  consider "m_reliableState c = -1" | "m_reliableState c \<noteq> -1" "needsReliableReset c time"
    | "m_reliableState c \<noteq> -1" "\<not> needsReliableReset c time" by blast
  then show ?thesis
  proof cases
    case 1
    have same: "store r c s1 = s1" if "transmits env ?a bs s s1" for bs s1
      using that c by (intro store_same) (simp add: transmits_keeps(1))
    from 1 Cons rst server_inv_buffer(5) [OF inv] same show ?thesis
      by (auto simp: update_reliable_def deref_Some [OF c] transmission_def after_transmission_def
          simp del: ok_r_bind elim!: ok_r_mono)
  next
    case 2
    with Cons show ?thesis
      by (simp add: update_reliable_def deref_Some [OF c] transmission_def after_transmission_def)
  next
    case 3
    from rel obtain s1 where s1: "transmits env ?a (encode ?g (Reliable (m_reliableState c \<noteq> 0) ?t msg)) s s1"
      and snd: "bind_r (put_buffer (\<lambda>buf. serializeMsgId buf
                 (if m_reliableState c \<noteq> 0 then UDC_MSG_RELIABLE_1 else UDC_MSG_RELIABLE_0)) s) (\<lambda>s1.
               bind_r (put_buffer (\<lambda>buf. msgReliable_serializeTimeStamp buf ?t) s1) (\<lambda>s2.
               bind_r (put_buffer (\<lambda>buf. msgReliable_serializeData buf msg (of_nat (length msg))) s2)
               (server_send env ?a (of_nat (9 + length msg))))) = Inr s1"
      unfolding ok_r_iff by blast
    have "update_reliable env time r s = Inr (store r (setSendReliable time c) s1)"
      using 3 Cons len snd
      by (auto simp: update_reliable_def deref_Some [OF c] bind_r_Inr_iff split: if_splits)
    with s1 3 Cons show ?thesis
      by (auto simp: transmission_def after_transmission_def)
  qed
qed

lemma updatePendingClients_effect:
  assumes inv: "server_inv s" and sg: "stamped g s"
    and p: "m_pendingClients s = r # rs" and c: "heap s r = Some c"
  shows "ok_r (updatePendingClients env time s) (\<lambda>(e, s').
    if needsConnectionTimeoutEvent c time then
      e = Some ((m_eventBuffer s)\<lparr>ev_type := UDC_EVENT_CONNECTION_TIMEOUT, ev_endPointId := m_id c\<rparr>) \<and>
      s' = s\<lparr>m_pendingClients := rs, m_eventBuffer := the e\<rparr>
    else if needsConnectionAttempt c time then
      e = None \<and>
      transmits env (m_outgoingAddress c) (encode g (Request (m_id c)))
        (store r (retryConnecting time c) s) s'
    else e = None \<and> s' = s)"
proof -
  define s0 where "s0 = store r (retryConnecting time c) s"
  have "stamped g s0" "9 \<le> length (m_messageBuffer s0)"
    "m_messageBufferSize s0 = m_messageBufferSize s"
    using sg server_inv_buffer(1) [OF inv] by (simp_all add: s0_def store_def stamped_def)
  then show ?thesis
    using send_word_message(1) [of g s0 "Request (m_id c)" "m_id c" env "m_outgoingAddress c"]
      server_inv_buffer(5) [OF inv] p
    by (auto simp: updatePendingClients_def tryGetFirstPendingClient_def deref_Some [OF c]
        s0_def [symmetric] emit_def Let_def)
qed

lemma sendUnreliableMessage_effect:
  assumes inv: "server_inv s" and sg: "stamped g s" and r: "m_clientsById s eid = Some r" and c: "heap s r = Some c"
    and size: "5 + unat dsize \<le> unat (m_messageBufferSize s)" and data: "unat dsize \<le> length data"
    and conn: "m_isConnected c"
  shows "ok_r (sendUnreliableMessage env eid data dsize s) (\<lambda>(b, s'). b \<and>
     transmits env (m_outgoingAddress c)
       (encode g (Unreliable (take (unat dsize) data))) s s')"
proof -
  have sum: "unat (5 + dsize) = 5 + unat dsize"
    using size unat_bound32 [of "m_messageBufferSize s"] by (subst unat_add_lem [THEN iffD1]) simp_all
  then have fit: "fits (5 + dsize) (m_messageBuffer s)" and le: "dsize + 5 \<le> m_messageBufferSize s"
    using size server_inv_buffer [OF inv] by (simp_all add: fits_iff word_le_nat_alt add.commute)
  from send_unreliable_message [OF sg fit sum data, of env "m_outgoingAddress c"] le conn
  show ?thesis
    by (auto simp: sendUnreliableMessage_def tryGetClientById_def r deref_Some [OF c] connected_def
        not_less [symmetric])
qed

section \<open>What answers to the server's own messages do\<close>

definition connection_event :: "UdcEventType \<Rightarrow> u32 \<Rightarrow> UdcEvent \<Rightarrow> UdcEvent" where
  "connection_event ty eid e = e\<lparr>ev_type := ty, ev_endPointId := eid\<rparr>"

text \<open>A client object replaced, and the event that reports its connection regained.\<close>

definition regain :: "bool \<Rightarrow> ref \<Rightarrow> UdcClient \<Rightarrow> 'w UdcServerImpl \<Rightarrow> UdcEvent option \<times> 'w UdcServerImpl" where
  "regain regained r c s =
     (if regained
      then let e = connection_event UDC_EVENT_CONNECTION_REGAINED (m_id c) (m_eventBuffer s)
           in (Some e, store r c s\<lparr>m_eventBuffer := e\<rparr>)
      else (None, store r c s))"

lemma handle_pong:
  assumes rcv: "received n s = Some (Pong t)" and len: "unat n \<le> length (m_messageBuffer s)"
    and r: "tryGetClientByAddress a s = Some r" and c: "heap s r = Some c"
  shows "handle_message env time a n s =
    Inr (if time < int (unat t) then (None, s)
         else regain (\<not> m_isConnected c) r (snd (receivePong (int (unat t)) time c)) s)"
  using dispatch_decoded [OF rcv len] received_word [OF rcv len, of t "[]"] r
  by (simp add: handle_message_decoded [OF rcv len] processPong_def deref_Some [OF c] codec_simps
      Let_def case_prod_beta receivePong_fst regain_def connection_event_def emit_def)
    (simp add: store_def)

lemma handle_ack:
  assumes rcv: "received n s = Some m" and m: "m = Ack b t \<and> st = bit_state b \<or> m = ResetAck t \<and> st = -1"
    and len: "unat n \<le> length (m_messageBuffer s)"
    and r: "tryGetClientByAddress a s = Some r" and c: "heap s r = Some c"
  shows "handle_message env time a n s =
    Inr (if time < int (unat t) then (None, s)
         else regain (\<not> m_isConnected c) r
           (snd (receivePong (int (unat t)) time (handshake_client st c))) s)"
proof -
  have "handle_message env time a n s = processReliableHandshake st a time s"
    using m dispatch_decoded [OF rcv len]
    by (auto simp: handle_message_decoded [OF rcv len] bit_state_def)
  moreover have "m_isConnected (handshake_client st c) = m_isConnected c"
    by (simp add: handshake_client_def client_op_defs Let_def)
  moreover have "message_body m = u32_bytes t @ []" using m by auto
  ultimately show ?thesis
    using received_word [OF rcv len, of t "[]"] r
    by (simp add: processReliableHandshake_def deref_Some [OF c] codec_simps receiveReliableHandshake_def
        Let_def case_prod_beta receivePong_fst regain_def connection_event_def emit_def)
      (simp add: store_def)
qed

lemma handle_handshake:
  assumes rcv: "received n s = Some (Handshake i)" and len: "unat n \<le> length (m_messageBuffer s)"
    and p: "m_pendingClients s = r # rs" and c: "heap s r = Some c"
  shows "handle_message env time a n s =
    Inr (if m_id c = i \<and> tryGetClientByAddress a s = None
         then (let e = connection_event UDC_EVENT_CONNECTION_SUCCESS i (m_eventBuffer s)
               in (Some e, s\<lparr>heap := (heap s)(r \<mapsto> receiveConnectionHandshake time c),
                     m_clientsById := (m_clientsById s)(i \<mapsto> r),
                     m_clientsByAddress := UdcAddressMap_insert (m_clientsByAddress s) a r,
                     m_pendingClients := rs, m_eventBuffer := e\<rparr>))
         else (None, s))"
  using dispatch_decoded [OF rcv len] received_word [OF rcv len, of i "[]"] p
  by (auto simp: handle_message_decoded [OF rcv len] processConnectionHandshake_def deref_Some [OF c] codec_simps
      tryGetFirstPendingClient_def tryGetClientByAddress_def Let_def connection_event_def emit_def store_def)

text \<open>Answers that no client or pending connection waits for are ignored.\<close>

lemma handle_unexpected:
  assumes rcv: "received n s = Some m" and len: "unat n \<le> length (m_messageBuffer s)"
    and m: "m = Pong t \<or> m = Ack b t \<or> m = ResetAck t" and r: "tryGetClientByAddress a s = None"
  shows "handle_message env time a n s = Inr (None, s)"
  using m r dispatch_decoded [OF rcv len]
  by (auto simp: handle_message_decoded [OF rcv len] processPong_def processReliableHandshake_def)

end
