(* ===== verification/Reliable.thy ===== *)
theory Reliable
  imports Protocol
begin

text \<open>
  Reliable messages. The sender keeps a queue and one bit per client (\<open>m_reliableState\<close>), the
  receiver one bit per address (\<open>m_reliableStates\<close>): the alternating bit protocol. The locale
  \<open>alternating_bit\<close> states what the protocol needs of a sender and a receiver and proves its
  invariant over channels that lose and duplicate; the interpretation is on \<open>UdcClient\<close> and
  \<open>UdcAddressMap\<close>. \<open>link_step\<close> then runs the server's own functions over such channels.
\<close>

section \<open>The alternating bit invariant\<close>

text \<open>
  \<open>sb\<close>, \<open>q\<close>: bit and queue of the sender; \<open>ex\<close>: the bit the receiver expects, \<open>None\<close> when it knows
  nothing of the sender; \<open>fw\<close>: bits and payloads under way; \<open>bw\<close>: bits of the acknowledgements
  under way. Channels are in order: an old message never follows a current one.
\<close>

definition fw_ok :: "bool \<Rightarrow> 'm list \<Rightarrow> (bool \<times> 'm) list \<Rightarrow> bool" where
  "fw_ok sb q fw \<longleftrightarrow>
     sorted_wrt (\<lambda>x y. fst x = sb \<longrightarrow> fst y = sb) fw \<and>
     list_all (\<lambda>(b, d). b = sb \<longrightarrow> q \<noteq> [] \<and> d = hd q) fw"

definition bw_ok :: "bool \<Rightarrow> bool list \<Rightarrow> bool" where
  "bw_ok sb bw \<longleftrightarrow> sorted_wrt (\<lambda>x y. x = sb \<longrightarrow> y = sb) bw"

definition abp_inv ::
  "bool \<Rightarrow> 'm list \<Rightarrow> bool option \<Rightarrow> (bool \<times> 'm) list \<Rightarrow> bool list \<Rightarrow> 'm list \<Rightarrow> 'm list \<Rightarrow> bool" where
  "abp_inv sb q ex fw bw pushed delivered \<longleftrightarrow>
     (if ex = Some (\<not> sb)
      then q \<noteq> [] \<and> list_all (\<lambda>m. m = (sb, hd q)) fw \<and> bw_ok sb bw \<and> delivered @ tl q = pushed
      else fw_ok sb q fw \<and> list_all (\<lambda>b. b = (\<not> sb)) bw \<and> delivered @ q = pushed \<and>
           (ex = None \<longrightarrow> \<not> sb \<and> list_all (\<lambda>m. fst m = sb) fw))"

lemma sorted_wrt_remove: "sorted_wrt P (xs @ y # zs) \<Longrightarrow> sorted_wrt P (xs @ zs)"
  by (auto simp: sorted_wrt_append)

lemma sorted_wrt_repeat: "P y y \<Longrightarrow> sorted_wrt P (xs @ y # zs) \<Longrightarrow> sorted_wrt P (xs @ y # y # zs)"
  by (auto simp: sorted_wrt_append)

lemma sorted_wrt_all: "(\<And>x y. x \<in> set xs \<Longrightarrow> y \<in> set xs \<Longrightarrow> P x y) \<Longrightarrow> sorted_wrt P xs"
  by (induction xs) auto

lemma abp_lose:
  "abp_inv sb q ex (xs @ y # zs) bw p d \<Longrightarrow> abp_inv sb q ex (xs @ zs) bw p d"
  "abp_inv sb q ex fw (us @ v # ws) p d \<Longrightarrow> abp_inv sb q ex fw (us @ ws) p d"
  by (auto simp: abp_inv_def fw_ok_def bw_ok_def dest: sorted_wrt_remove split: if_splits)

lemma abp_repeat:
  "abp_inv sb q ex (xs @ y # zs) bw p d \<Longrightarrow> abp_inv sb q ex (xs @ y # y # zs) bw p d"
  "abp_inv sb q ex fw (us @ v # ws) p d \<Longrightarrow> abp_inv sb q ex fw (us @ v # v # ws) p d"
  by (auto simp: abp_inv_def fw_ok_def bw_ok_def intro: sorted_wrt_repeat split: if_splits)

lemma abp_init: "abp_inv False [] None [] [] [] []"
  by (simp add: abp_inv_def fw_ok_def)

lemma abp_push: "abp_inv sb q ex fw bw p d \<Longrightarrow> abp_inv sb (q @ [m]) ex fw bw (p @ [m]) d"
  by (auto simp: abp_inv_def fw_ok_def list_all_iff split: if_splits)

lemma abp_transmit: "abp_inv sb (m # q) ex fw bw p d \<Longrightarrow> abp_inv sb (m # q) ex (fw @ [(sb, m)]) bw p d"
  by (auto simp: abp_inv_def fw_ok_def sorted_wrt_append split: if_splits)

lemma fw_ok_current:
  "fw_ok sb q ((sb, m) # fw) \<Longrightarrow> q \<noteq> [] \<and> m = hd q \<and> list_all (\<lambda>x. x = (sb, hd q)) fw"
  by (fastforce simp: fw_ok_def list_all_iff)

lemma fw_ok_tail: "fw_ok sb q (x # fw) \<Longrightarrow> fw_ok sb q fw"
  by (simp add: fw_ok_def)

lemma bw_ok_snoc: "bw_ok sb bw \<Longrightarrow> bw_ok sb (bw @ [sb])"
  by (simp add: bw_ok_def sorted_wrt_append)

lemma old_acks: "list_all (\<lambda>b. b = (\<not> sb)) bw \<Longrightarrow> bw_ok sb bw"
  unfolding bw_ok_def by (rule sorted_wrt_all) (auto simp: list_all_iff)

lemma abp_receive:
  assumes "abp_inv sb q ex ((b, m) # fw) bw p d"
  shows "abp_inv sb q (Some (\<not> b)) fw (bw @ [b]) p (if ex \<in> {None, Some b} then d @ [m] else d)"
proof (cases "ex = Some (\<not> sb)")
  case True
  with assms show ?thesis by (auto simp: abp_inv_def bw_ok_snoc)
next
  case False
  with assms have inv: "fw_ok sb q ((b, m) # fw)" "list_all (\<lambda>b. b = (\<not> sb)) bw" "d @ q = p"
    and none: "ex = None \<Longrightarrow> b = sb"
    by (auto simp: abp_inv_def)
  show ?thesis
  proof (cases "b = sb")
    case True
    have "ex \<in> {None, Some b}" using False True by (cases ex) auto
    with inv True fw_ok_current [of sb q m fw] show ?thesis
      by (cases q) (auto simp: abp_inv_def bw_ok_snoc old_acks)
  next
    case old: False
    with none False have "ex = Some sb" by (cases ex) auto
    with old inv show ?thesis
      by (auto simp: abp_inv_def dest: fw_ok_tail)
  qed
qed

lemma abp_ack:
  assumes "abp_inv sb q ex fw (b # bw) p d"
  shows "abp_inv (if b = sb then \<not> sb else sb) (if b = sb then tl q else q) ex fw bw p d"
proof (cases "ex = Some (\<not> sb)")
  case False
  with assms show ?thesis by (auto simp: abp_inv_def)
next
  case True
  with assms have inv: "list_all (\<lambda>m. m = (sb, hd q)) fw" "bw_ok sb (b # bw)" "d @ tl q = p" "q \<noteq> []"
    by (auto simp: abp_inv_def)
  show ?thesis
  proof (cases "b = sb")
    case True
    have bits: "x \<in> set fw \<Longrightarrow> fst x = sb" for x
      using inv(1) by (auto simp: list_all_iff)
    have "sorted_wrt (\<lambda>x y. fst x = (\<not> sb) \<longrightarrow> fst y = (\<not> sb)) fw"
      by (rule sorted_wrt_all) (simp add: bits)
    then have "fw_ok (\<not> sb) (tl q) fw"
      using inv(1) by (auto simp: fw_ok_def list_all_iff)
    moreover have "list_all (\<lambda>b. b = sb) bw"
      using inv(2) True by (auto simp: bw_ok_def list_all_iff)
    ultimately show ?thesis
      using True inv \<open>ex = Some (\<not> sb)\<close> by (simp add: abp_inv_def)
  next
    case False
    with inv \<open>ex = Some (\<not> sb)\<close> show ?thesis by (simp add: abp_inv_def bw_ok_def)
  qed
qed

lemma abp_result:
  "abp_inv sb q ex fw bw p d \<Longrightarrow> d @ q = p \<or> q \<noteq> [] \<and> d @ tl q = p"
  by (auto simp: abp_inv_def split: if_splits)

section \<open>The contract of the two ends\<close>

locale alternating_bit =
  fixes bit :: "'s \<Rightarrow> bool"
    and queue :: "'s \<Rightarrow> 'm list"
    and synchronised :: "'s \<Rightarrow> bool"
    and push :: "'m \<Rightarrow> 's \<Rightarrow> 's"
    and ack :: "bool \<Rightarrow> 's \<Rightarrow> 's"
    and expected :: "'r \<Rightarrow> bool option"
    and accept :: "bool \<Rightarrow> 'r \<Rightarrow> 'r"
  assumes push_laws: "bit (push m s) = bit s" "queue (push m s) = queue s @ [m]"
      "synchronised (push m s) = synchronised s"
    and ack_laws: "synchronised s \<Longrightarrow> bit (ack b s) = (if b = bit s then \<not> bit s else bit s)"
      "synchronised s \<Longrightarrow> queue (ack b s) = (if b = bit s then tl (queue s) else queue s)"
      "synchronised s \<Longrightarrow> synchronised (ack b s)"
    and accept_law: "expected (accept b r) = Some (\<not> b)"
begin

lemma push_inv:
  "abp_inv (bit s) (queue s) ex fw bw p d \<Longrightarrow>
   abp_inv (bit (push m s)) (queue (push m s)) ex fw bw (p @ [m]) d"
  by (simp add: push_laws abp_push)

lemma transmit_inv:
  "abp_inv (bit s) (queue s) ex fw bw p d \<Longrightarrow> queue s \<noteq> [] \<Longrightarrow>
   abp_inv (bit s) (queue s) ex (fw @ [(bit s, hd (queue s))]) bw p d"
  using abp_transmit [of "bit s" "hd (queue s)" "tl (queue s)"] by simp

lemma receive_inv:
  "abp_inv sb q (expected r) ((b, m) # fw) bw p d \<Longrightarrow>
   abp_inv sb q (expected (accept b r)) fw (bw @ [b]) p (if expected r \<in> {None, Some b} then d @ [m] else d)"
  unfolding accept_law by (rule abp_receive)

lemma ack_inv:
  "abp_inv (bit s) (queue s) ex fw (b # bw) p d \<Longrightarrow> synchronised s \<Longrightarrow>
   abp_inv (bit (ack b s)) (queue (ack b s)) ex fw bw p d"
  using abp_ack [of "bit s" "queue s"] by (simp add: ack_laws)

end

text \<open>The bit of a client that is not waiting for a reset, and the bit expected from an address.\<close>

definition client_bit :: "UdcClient \<Rightarrow> bool" where
  "client_bit c \<longleftrightarrow> m_reliableState c \<noteq> 0"

definition synchronised :: "UdcClient \<Rightarrow> bool" where
  "synchronised c \<longleftrightarrow> m_reliableState c \<in> {0, 1}"

definition expected_bit :: "UdcAddressMux \<Rightarrow> int UdcAddressMap \<Rightarrow> bool option" where
  "expected_bit a m = map_option (\<lambda>v. v \<noteq> 0) (UdcAddressMap_find m a)"

definition accept_bit :: "UdcAddressMux \<Rightarrow> bool \<Rightarrow> int UdcAddressMap \<Rightarrow> int UdcAddressMap" where
  "accept_bit a b m = UdcAddressMap_insert m a (bit_state (\<not> b))"

interpretation reliable: alternating_bit client_bit m_reliableMessages synchronised
    reliableMessages_push "\<lambda>b. handshake_client (bit_state b)" "expected_bit a" "accept_bit a" for a
  by unfold_locales
    (auto simp: client_bit_def synchronised_def expected_bit_def accept_bit_def bit_state_def
      address_map.find_insert handshake_client_def next_state_def client_op_defs Let_def)

section \<open>Frames of the operations, from their results\<close>

lemma put_buffer_Inr: "put_buffer f s = Inr s' \<Longrightarrow> \<exists>buf. s' = s\<lparr>m_messageBuffer := buf\<rparr>"
  by (auto simp: put_buffer_def bind_r_Inr_iff)

lemma server_send_Inr: "server_send env a n s = Inr s' \<Longrightarrow> \<exists>mux p. s' = s\<lparr>m_socket := mux, process := p\<rparr>"
  by (auto simp: server_send_def bind_r_Inr_iff)

definition sender_view :: "ref \<Rightarrow> u32 \<Rightarrow> UdcAddressMux \<Rightarrow> 'w UdcServerImpl \<Rightarrow> ref option \<times> ref option \<times> UdcClient option" where
  "sender_view r eid a s = (m_clientsById s eid, tryGetClientByAddress a s, heap s r)"

lemma update_reliable_view:
  assumes u: "update_reliable env time r s = Inr s'" and c: "heap s r = Some c"
  shows "sender_view r eid a s' =
    (m_clientsById s eid, tryGetClientByAddress a s, Some (after_transmission time c))"
proof (cases "m_reliableMessages c")
  case Nil
  with u c show ?thesis
    by (auto simp: update_reliable_def deref_Some [OF c] after_transmission_def sender_view_def)
next
  case (Cons msg rest)
  with u c show ?thesis
    by (auto simp: update_reliable_def deref_Some [OF c] after_transmission_def bind_r_Inr_iff
        assert_r_def sender_view_def store_def tryGetClientByAddress_def split: if_splits
        dest!: put_buffer_Inr server_send_Inr)
qed

section \<open>A link between two servers\<close>

text \<open>
  The messages under way from a sender to a receiver and back, the payloads the application
  has handed to the sender and those the receiver has delivered.
\<close>

record 'w link =
  l_sender :: "'w UdcServerImpl"
  l_receiver :: "'w UdcServerImpl"
  l_fwd :: "message list"
  l_back :: "message list"
  l_pushed :: "byte list list"
  l_delivered :: "byte list list"

fun answer :: "message \<Rightarrow> message list" where
  "answer (Request i) = [Handshake i]"
| "answer (Ping t) = [Pong t]"
| "answer (Reset t) = [ResetAck t]"
| "answer (Reliable b t _) = [Ack b t]"
| "answer _ = []"

text \<open>What the application reads for an event: the payload in the message buffer.\<close>

definition event_payload :: "UdcEvent option \<Rightarrow> 'w UdcServerImpl \<Rightarrow> byte list list" where
  "event_payload event s =
     (case event of
        None \<Rightarrow> []
      | Some e \<Rightarrow> [read_at (unat (ev_msgIndex e)) (unat (ev_msgSize e)) (m_messageBuffer s)])"

text \<open>A datagram of \<open>n\<close> bytes that carries \<open>m\<close> has just been received into the buffer.\<close>

definition arrived :: "message \<Rightarrow> u32 \<Rightarrow> 'w UdcServerImpl \<Rightarrow> 'w UdcServerImpl \<Rightarrow> bool" where
  "arrived m n s s0 \<longleftrightarrow>
     (\<exists>buf. s0 = s\<lparr>m_messageBuffer := buf\<rparr> \<and> unat n \<le> length buf) \<and> received n s0 = Some m"

text \<open>Two views of a sender that agree on how the client is filed and on its reliable state and queue.\<close>

definition same_reliable ::
  "ref option \<times> ref option \<times> UdcClient option \<Rightarrow> ref option \<times> ref option \<times> UdcClient option \<Rightarrow> bool" where
  "same_reliable v v' \<longleftrightarrow>
     fst v' = fst v \<and> fst (snd v') = fst (snd v) \<and>
     map_option (\<lambda>c. (m_reliableState c, m_reliableMessages c)) (snd (snd v')) =
       map_option (\<lambda>c. (m_reliableState c, m_reliableMessages c)) (snd (snd v))"

lemma same_reliable_refl [simp]: "same_reliable v v"
  by (simp add: same_reliable_def)

lemma same_reliable_Some:
  "same_reliable (x, y, Some c) v' \<longleftrightarrow>
   (\<exists>c'. v' = (x, y, Some c') \<and> m_reliableState c' = m_reliableState c \<and>
      m_reliableMessages c' = m_reliableMessages c)"
  by (cases v') (auto simp: same_reliable_def)

text \<open>
  One step: the sender's application queues a message; the sender's update sends or resends the
  front of the queue (no reset of the link is due); a message or an acknowledgement
  arrives from the other server's end point; the network loses or repeats a datagram; either server does anything else that
  leaves the state of this link alone.
\<close>

inductive link_step ::
  "'w platform_api \<Rightarrow> 'w platform_api \<Rightarrow> ref \<Rightarrow> u32 \<Rightarrow> UdcAddressMux \<Rightarrow> UdcAddressMux \<Rightarrow> 'w link \<Rightarrow> 'w link \<Rightarrow> bool"
  for envS envR :: "'w platform_api" and r :: ref and eid :: u32 and addrS addrR :: UdcAddressMux
  where
  queue: "sendReliableMessage eid data n (l_sender L) = Inr (True, s') \<Longrightarrow>
     link_step envS envR r eid addrS addrR L
       (L\<lparr>l_sender := s', l_pushed := l_pushed L @ [take (unat n) data]\<rparr>)"
| transmit: "heap (l_sender L) r = Some c \<Longrightarrow> \<not> needsReliableReset c time \<Longrightarrow>
     update_reliable envS time r (l_sender L) = Inr s' \<Longrightarrow>
     link_step envS envR r eid addrS addrR L
       (L\<lparr>l_sender := s', l_fwd := l_fwd L @ (case transmission time c of None \<Rightarrow> [] | Some m \<Rightarrow> [m])\<rparr>)"
| receive: "l_fwd L = m # rest \<Longrightarrow> arrived m n (l_receiver L) s0 \<Longrightarrow>
     end_point_of a = end_point_of addrS \<Longrightarrow> handle_message envR time a n s0 = Inr (event, s') \<Longrightarrow>
     link_step envS envR r eid addrS addrR L
       (L\<lparr>l_receiver := s', l_fwd := rest, l_back := l_back L @ answer m,
          l_delivered := l_delivered L @ event_payload event s'\<rparr>)"
| acknowledge: "l_back L = m # rest \<Longrightarrow> arrived m n (l_sender L) s0 \<Longrightarrow>
     end_point_of a = end_point_of addrR \<Longrightarrow> handle_message envS time a n s0 = Inr (event, s') \<Longrightarrow>
     link_step envS envR r eid addrS addrR L (L\<lparr>l_sender := s', l_back := rest\<rparr>)"
| lose_fwd: "l_fwd L = xs @ m # ys \<Longrightarrow>
     link_step envS envR r eid addrS addrR L (L\<lparr>l_fwd := xs @ ys\<rparr>)"
| lose_back: "l_back L = xs @ m # ys \<Longrightarrow>
     link_step envS envR r eid addrS addrR L (L\<lparr>l_back := xs @ ys\<rparr>)"
| repeat_fwd: "l_fwd L = xs @ m # ys \<Longrightarrow>
     link_step envS envR r eid addrS addrR L (L\<lparr>l_fwd := xs @ m # m # ys\<rparr>)"
| repeat_back: "l_back L = xs @ m # ys \<Longrightarrow>
     link_step envS envR r eid addrS addrR L (L\<lparr>l_back := xs @ m # m # ys\<rparr>)"
| other: "same_reliable (sender_view r eid addrR (l_sender L)) (sender_view r eid addrR s') \<Longrightarrow>
     UdcAddressMap_find (m_reliableStates t') addrS = UdcAddressMap_find (m_reliableStates (l_receiver L)) addrS \<Longrightarrow>
     link_step envS envR r eid addrS addrR L (L\<lparr>l_sender := s', l_receiver := t'\<rparr>)"

text \<open>A fresh link: client and receiver know nothing of each other's messages yet.\<close>

definition link_fresh :: "ref \<Rightarrow> u32 \<Rightarrow> UdcAddressMux \<Rightarrow> UdcAddressMux \<Rightarrow> 'w link \<Rightarrow> bool" where
  "link_fresh r eid addrS addrR L \<longleftrightarrow>
     (\<exists>c. sender_view r eid addrR (l_sender L) = (Some r, Some r, Some c) \<and>
        m_reliableState c = 0 \<and> m_reliableMessages c = []) \<and>
     UdcAddressMap_find (m_reliableStates (l_receiver L)) addrS = None \<and>
     l_fwd L = [] \<and> l_back L = [] \<and> l_pushed L = [] \<and> l_delivered L = []"

inductive link_reachable ::
  "'w platform_api \<Rightarrow> 'w platform_api \<Rightarrow> ref \<Rightarrow> u32 \<Rightarrow> UdcAddressMux \<Rightarrow> UdcAddressMux \<Rightarrow> 'w link \<Rightarrow> bool"
  for envS envR r eid addrS addrR where
  fresh: "link_fresh r eid addrS addrR L \<Longrightarrow> link_reachable envS envR r eid addrS addrR L"
| step: "link_reachable envS envR r eid addrS addrR L \<Longrightarrow> link_step envS envR r eid addrS addrR L L' \<Longrightarrow>
     link_reachable envS envR r eid addrS addrR L'"

section \<open>The invariant of a link\<close>

lemma message_event_simps [simp]:
  "ev_msgIndex (message_event a i k e) = i" "ev_msgSize (message_event a i k e) = k"
  "ev_port (message_event a i k e) = am_port a"
  by (simp_all add: message_event_def Let_def)

lemma view_of_message_event:
  "view_of (message_event a i k e) = MessageEvent (end_point_of a) i k"
  by (cases "am_family a") (simp_all add: message_event_def Let_def view_of_def end_point_of_def)

lemma sender_view_buffer [simp]:
  "sender_view r eid a (s\<lparr>m_messageBuffer := buf\<rparr>) = sender_view r eid a s"
  by (simp add: sender_view_def tryGetClientByAddress_def)

lemma sender_view_store [simp]:
  "sender_view r eid a (store r c s) = (m_clientsById s eid, tryGetClientByAddress a s, Some c)"
  by (simp add: sender_view_def tryGetClientByAddress_def store_def)

lemma queue_effect:
  assumes "sendReliableMessage eid data n s = Inr (True, s')" and "sender_view r eid a s = (Some r, x, Some c)"
  shows "sender_view r eid a s' = (Some r, x, Some (reliableMessages_push (take (unat n) data) c))"
  using assms
  by (auto simp: sendReliableMessage_def tryGetClientById_def sender_view_def bind_r_Inr_iff deref_Some
      store_def tryGetClientByAddress_def split: if_splits)

lemma receive_effect:
  assumes arr: "arrived (Reliable b t d) n s s0" and h: "handle_message env time a n s0 = Inr (event, s')"
    and st: "UdcAddressMap_find (m_reliableStates s) a \<in> {None, Some 0, Some 1}"
  shows "m_reliableStates s' = accept_bit a b (m_reliableStates s)"
    and "event_payload event s' =
      (if expected_bit a (m_reliableStates s) \<in> {None, Some b} then [d] else [])"
proof -
  from arr have rcv: "received n s0 = Some (Reliable b t d)" and len: "unat n \<le> length (m_messageBuffer s0)"
    and states: "m_reliableStates s0 = m_reliableStates s"
    by (auto simp: arrived_def)
  let ?w = "with_reliable_state a (bit_state (\<not> b)) s0"
  from handle_reliable [OF rcv len, of env time a] h obtain s1 where
    tr: "transmits env a (encode (m_packetSignature s0) (Ack b t)) ?w s1" and
    out: "if UdcAddressMap_find (m_reliableStates s0) a \<in> {None, Some (bit_state b)}
      then event = Some (message_event a 9 (n - 9) (m_eventBuffer s0)) \<and>
           s' = s1\<lparr>m_eventBuffer := message_event a 9 (n - 9) (m_eventBuffer s0)\<rparr>
      else event = None \<and> s' = s1"
    by auto
  have "m_reliableStates s1 = accept_bit a b (m_reliableStates s)"
    using transmits_keeps(4) [OF tr] states by (simp add: accept_bit_def with_reliable_state_def)
  then show "m_reliableStates s' = accept_bit a b (m_reliableStates s)"
    using out by (auto split: if_splits)
  have n: "unat n = 9 + length d" using received_size(1) [OF rcv len] by simp
  have "read_at 9 (unat (n - 9)) (m_messageBuffer s1) = read_at 9 (unat (n - 9)) (m_messageBuffer s0)"
    using tr len n by (auto simp: transmits_def with_reliable_state_def length_encode read_at_write_after)
  then have payload: "read_at 9 (unat (n - 9)) (m_messageBuffer s1) = d"
    using payload_in_buffer(2) [OF rcv len] by simp
  have "UdcAddressMap_find (m_reliableStates s) a \<in> {None, Some (bit_state b)} \<longleftrightarrow>
      expected_bit a (m_reliableStates s) \<in> {None, Some b}"
    using st by (auto simp: expected_bit_def bit_state_def)
  then show "event_payload event s' =
      (if expected_bit a (m_reliableStates s) \<in> {None, Some b} then [d] else [])"
    using out payload states by (auto simp: event_payload_def split: if_splits)
qed

lemma regain_view:
  "regain g r c s = (event, s') \<Longrightarrow>
   sender_view r eid a s' = (m_clientsById s eid, tryGetClientByAddress a s, Some c)"
  by (auto simp: regain_def Let_def sender_view_def tryGetClientByAddress_def store_def split: if_splits)

lemma acknowledge_effect:
  assumes arr: "arrived (Ack b t) n s s0" and h: "handle_message env time a n s0 = Inr (event, s')"
    and v: "sender_view r eid a s = (x, Some r, Some c)"
  shows "\<exists>c'. sender_view r eid a s' = (x, Some r, Some c') \<and>
     (c' = c \<or> m_reliableState c' = m_reliableState (handshake_client (bit_state b) c) \<and>
        m_reliableMessages c' = m_reliableMessages (handshake_client (bit_state b) c))"
proof -
  from arr have rcv: "received n s0 = Some (Ack b t)" and len: "unat n \<le> length (m_messageBuffer s0)"
    and v0: "sender_view r eid a s0 = (x, Some r, Some c)"
    using v by (auto simp: arrived_def)
  then have r: "tryGetClientByAddress a s0 = Some r" and c: "heap s0 r = Some c" and x: "m_clientsById s0 eid = x"
    by (auto simp: sender_view_def)
  note res = handle_ack [OF rcv _ len r c, of b t "bit_state b", simplified]
  show ?thesis
  proof (cases "time < int (unat t)")
    case True
    with res [of env time] h v0 show ?thesis by auto
  next
    case False
    with res [of env time] h have "regain (\<not> m_isConnected c) r
        (snd (receivePong (int (unat t)) time (handshake_client (bit_state b) c))) s0 = (event, s')"
      by simp
    from regain_view [OF this, of eid a] show ?thesis
      by (simp add: r x)
  qed
qed

definition fwd_messages :: "(bool \<times> u32 \<times> byte list) list \<Rightarrow> message list" where
  "fwd_messages F = map (\<lambda>(b, t, d). Reliable b t d) F"

definition back_messages :: "(bool \<times> u32) list \<Rightarrow> message list" where
  "back_messages B = map (\<lambda>(b, t). Ack b t) B"

definition link_inv :: "ref \<Rightarrow> u32 \<Rightarrow> UdcAddressMux \<Rightarrow> UdcAddressMux \<Rightarrow> 'w link \<Rightarrow> bool" where
  "link_inv r eid addrS addrR L \<longleftrightarrow>
     (\<exists>c F B. sender_view r eid addrR (l_sender L) = (Some r, Some r, Some c) \<and> synchronised c \<and>
        UdcAddressMap_find (m_reliableStates (l_receiver L)) addrS \<in> {None, Some 0, Some 1} \<and>
        l_fwd L = fwd_messages F \<and> l_back L = back_messages B \<and>
        abp_inv (client_bit c) (m_reliableMessages c)
          (expected_bit addrS (m_reliableStates (l_receiver L)))
          (map (\<lambda>(b, t, d). (b, d)) F) (map fst B) (l_pushed L) (l_delivered L))"

lemma link_invI:
  assumes "sender_view r eid addrR (l_sender L) = (Some r, Some r, Some c)" and "synchronised c"
    and "UdcAddressMap_find (m_reliableStates (l_receiver L)) addrS \<in> {None, Some 0, Some 1}"
    and "l_fwd L = fwd_messages F" and "l_back L = back_messages B"
    and "abp_inv (client_bit c) (m_reliableMessages c)
          (expected_bit addrS (m_reliableStates (l_receiver L)))
          (map (\<lambda>(b, t, d). (b, d)) F) (map fst B) (l_pushed L) (l_delivered L)"
  shows "link_inv r eid addrS addrR L"
  using assms unfolding link_inv_def by blast

lemma fwd_messages_simps [simp]:
  "fwd_messages [] = []" "fwd_messages ((b, t, d) # F) = Reliable b t d # fwd_messages F"
  "fwd_messages (F @ G) = fwd_messages F @ fwd_messages G"
  by (simp_all add: fwd_messages_def)

lemma back_messages_simps [simp]:
  "back_messages [] = []" "back_messages ((b, t) # B) = Ack b t # back_messages B"
  "back_messages (B @ C) = back_messages B @ back_messages C"
  by (simp_all add: back_messages_def)

lemma map_split:
  "map f zs = xs @ m # ys \<Longrightarrow> \<exists>X z Y. zs = X @ z # Y \<and> xs = map f X \<and> m = f z \<and> ys = map f Y"
proof (induction xs arbitrary: zs)
  case Nil
  then obtain z Y where "zs = z # Y" "m = f z" "ys = map f Y" by (cases zs) auto
  then show ?case by (intro exI [of _ "[]"] exI [of _ z] exI [of _ Y]) simp
next
  case (Cons x xs)
  then obtain z' zs' where zs: "zs = z' # zs'" "x = f z'" "map f zs' = xs @ m # ys" by (cases zs) auto
  with Cons.IH [OF zs(3)] obtain X z Y where "zs' = X @ z # Y" "xs = map f X" "m = f z" "ys = map f Y"
    by blast
  with zs show ?case by (intro exI [of _ "z' # X"] exI [of _ z] exI [of _ Y]) simp
qed

lemma fwd_messages_split:
  assumes "fwd_messages F = xs @ m # ys"
  obtains X b t d Y where "F = X @ (b, t, d) # Y" "xs = fwd_messages X" "m = Reliable b t d"
    "ys = fwd_messages Y"
  using map_split [OF assms [unfolded fwd_messages_def]] that unfolding fwd_messages_def by auto

lemma back_messages_split:
  assumes "back_messages B = xs @ m # ys"
  obtains X b t Y where "B = X @ (b, t) # Y" "xs = back_messages X" "m = Ack b t" "ys = back_messages Y"
  using map_split [OF assms [unfolded back_messages_def]] that unfolding back_messages_def by auto

lemma link_fresh_inv: "link_fresh r eid addrS addrR L \<Longrightarrow> link_inv r eid addrS addrR L"
  by (auto simp: link_fresh_def synchronised_def client_bit_def expected_bit_def abp_init
      fwd_messages_def back_messages_def intro!: link_invI [where F = "[]" and B = "[]"])

lemma synchronised_cong: "m_reliableState c' = m_reliableState c \<Longrightarrow>
    synchronised c' = synchronised c \<and> client_bit c' = client_bit c"
  by (simp add: synchronised_def client_bit_def)

lemma transmission_synchronised:
  assumes "synchronised c" and "\<not> needsReliableReset c time"
  shows "(case transmission time c of None \<Rightarrow> [] | Some m \<Rightarrow> [m]) =
      (if m_reliableMessages c = [] then []
       else [Reliable (client_bit c) (word_of_int time) (hd (m_reliableMessages c))])"
    and "m_reliableState (after_transmission time c) = m_reliableState c"
    and "m_reliableMessages (after_transmission time c) = m_reliableMessages c"
  using assms
  by (auto simp: transmission_def after_transmission_def synchronised_def client_bit_def setSendReliable_def
      split: list.split)

lemma address_cong:
  assumes "end_point_of a = end_point_of b"
  shows "UdcAddressMap_find m a = UdcAddressMap_find m b" "expected_bit a = expected_bit b"
    "UdcAddressMap_find (accept_bit a v ms) b = UdcAddressMap_find (accept_bit b v ms) b"
    "sender_view r eid a = sender_view r eid b"
  using assms
  by (simp_all add: fun_eq_iff expected_bit_def accept_bit_def address_map.find_insert sender_view_def
      tryGetClientByAddress_def address_map.find_cong [OF assms])

lemma accept_bit_range: "UdcAddressMap_find (accept_bit a b m) a \<in> {None, Some 0, Some 1}"
  by (simp add: accept_bit_def address_map.find_insert bit_state_def)

lemma link_invE:
  assumes "link_inv r eid addrS addrR L"
  obtains c F B where "sender_view r eid addrR (l_sender L) = (Some r, Some r, Some c)" "synchronised c"
    "UdcAddressMap_find (m_reliableStates (l_receiver L)) addrS \<in> {None, Some 0, Some 1}"
    "l_fwd L = fwd_messages F" "l_back L = back_messages B"
    "abp_inv (client_bit c) (m_reliableMessages c)
          (expected_bit addrS (m_reliableStates (l_receiver L)))
          (map (\<lambda>(b, t, d). (b, d)) F) (map fst B) (l_pushed L) (l_delivered L)"
  using assms unfolding link_inv_def by blast

lemma link_queue_inv:
  assumes "link_inv r eid addrS addrR L"
    and "sendReliableMessage eid data n (l_sender L) = Inr (True, s')"
  shows "link_inv r eid addrS addrR (L\<lparr>l_sender := s', l_pushed := l_pushed L @ [take (unat n) data]\<rparr>)"
  using assms(1)
proof (rule link_invE)
  fix c F B assume v: "sender_view r eid addrR (l_sender L) = (Some r, Some r, Some c)"
    and sy: "synchronised c"
    and st: "UdcAddressMap_find (m_reliableStates (l_receiver L)) addrS \<in> {None, Some 0, Some 1}"
    and F: "l_fwd L = fwd_messages F" and B: "l_back L = back_messages B"
    and abp: "abp_inv (client_bit c) (m_reliableMessages c)
          (expected_bit addrS (m_reliableStates (l_receiver L)))
          (map (\<lambda>(b, t, d). (b, d)) F) (map fst B) (l_pushed L) (l_delivered L)"
  from queue_effect [OF assms(2) v] show ?thesis
    using sy st F B reliable.push_inv [OF abp] reliable.push_laws(1,3)
    by (intro link_invI [of _ _ _ _ "reliableMessages_push (take (unat n) data) c" _ F B]) simp_all
qed

lemma link_transmit_inv:
  assumes "link_inv r eid addrS addrR L" and c0: "heap (l_sender L) r = Some c0"
    and quiet: "\<not> needsReliableReset c0 time"
    and u: "update_reliable envS time r (l_sender L) = Inr s'"
  shows "link_inv r eid addrS addrR (L\<lparr>l_sender := s',
    l_fwd := l_fwd L @ (case transmission time c0 of None \<Rightarrow> [] | Some m \<Rightarrow> [m])\<rparr>)"
  using assms(1)
proof (rule link_invE)
  fix c F B assume v: "sender_view r eid addrR (l_sender L) = (Some r, Some r, Some c)"
    and sy: "synchronised c"
    and st: "UdcAddressMap_find (m_reliableStates (l_receiver L)) addrS \<in> {None, Some 0, Some 1}"
    and F: "l_fwd L = fwd_messages F" and B: "l_back L = back_messages B"
    and abp: "abp_inv (client_bit c) (m_reliableMessages c)
          (expected_bit addrS (m_reliableStates (l_receiver L)))
          (map (\<lambda>(b, t, d). (b, d)) F) (map fst B) (l_pushed L) (l_delivered L)"
  from v c0 have eq: "c0 = c" by (simp add: sender_view_def)
  note tx = transmission_synchronised [OF sy quiet [unfolded eq]]
  note cong = synchronised_cong [OF tx(2)]
  have v': "sender_view r eid addrR s' = (Some r, Some r, Some (after_transmission time c))"
    using update_reliable_view [OF u c0, of eid addrR] v eq by (simp add: sender_view_def)
  show ?thesis
  proof (cases "m_reliableMessages c = []")
    case True
    then show ?thesis
      using v' sy st F B tx cong abp
      by (intro link_invI [of _ _ _ _ "after_transmission time c" _ F B]) (simp_all add: eq)
  next
    case False
    then show ?thesis
      using v' sy st F B tx cong reliable.transmit_inv [OF abp]
      by (intro link_invI [of _ _ _ _ "after_transmission time c" _
            "F @ [(client_bit c, word_of_int time, hd (m_reliableMessages c))]" B]) (simp_all add: eq)
  qed
qed

lemma link_receive_inv:
  assumes "link_inv r eid addrS addrR L" and fwd: "l_fwd L = m # rest"
    and arr: "arrived m n (l_receiver L) s0" and a: "end_point_of a = end_point_of addrS"
    and h: "handle_message envR time a n s0 = Inr (event, s')"
  shows "link_inv r eid addrS addrR (L\<lparr>l_receiver := s', l_fwd := rest, l_back := l_back L @ answer m,
          l_delivered := l_delivered L @ event_payload event s'\<rparr>)"
  using assms(1)
proof (rule link_invE)
  fix c F B assume v: "sender_view r eid addrR (l_sender L) = (Some r, Some r, Some c)"
    and sy: "synchronised c"
    and st: "UdcAddressMap_find (m_reliableStates (l_receiver L)) addrS \<in> {None, Some 0, Some 1}"
    and F: "l_fwd L = fwd_messages F" and B: "l_back L = back_messages B"
    and abp: "abp_inv (client_bit c) (m_reliableMessages c)
          (expected_bit addrS (m_reliableStates (l_receiver L)))
          (map (\<lambda>(b, t, d). (b, d)) F) (map fst B) (l_pushed L) (l_delivered L)"
  from fwd F have "fwd_messages F = [] @ m # rest" by simp
  then obtain b t d F' where m: "F = (b, t, d) # F'" "m = Reliable b t d" "rest = fwd_messages F'"
    by (elim fwd_messages_split) (auto simp: fwd_messages_def)
  note eff = receive_effect [OF arr [unfolded m(2)] h, unfolded address_cong(1) [OF a], OF st]
  have find: "UdcAddressMap_find (m_reliableStates s') addrS =
      UdcAddressMap_find (accept_bit addrS b (m_reliableStates (l_receiver L))) addrS"
    unfolding eff(1) by (rule address_cong(3) [OF a])
  then have bit: "expected_bit addrS (m_reliableStates s') =
      expected_bit addrS (accept_bit addrS b (m_reliableStates (l_receiver L)))"
    by (simp add: expected_bit_def)
  show ?thesis
    using v sy B m eff(2) bit find reliable.receive_inv [OF abp [unfolded m(1), simplified]]
    by (intro link_invI [of _ _ _ _ c _ F' "B @ [(b, t)]"])
      (auto simp: accept_bit_range [simplified] address_cong(2) [OF a] split: if_splits)
qed

lemma link_acknowledge_inv:
  assumes "link_inv r eid addrS addrR L" and bk: "l_back L = m # rest"
    and arr: "arrived m n (l_sender L) s0" and a: "end_point_of a = end_point_of addrR"
    and h: "handle_message envS time a n s0 = Inr (event, s')"
  shows "link_inv r eid addrS addrR (L\<lparr>l_sender := s', l_back := rest\<rparr>)"
  using assms(1)
proof (rule link_invE)
  fix c F B assume v: "sender_view r eid addrR (l_sender L) = (Some r, Some r, Some c)"
    and sy: "synchronised c"
    and st: "UdcAddressMap_find (m_reliableStates (l_receiver L)) addrS \<in> {None, Some 0, Some 1}"
    and F: "l_fwd L = fwd_messages F" and B: "l_back L = back_messages B"
    and abp: "abp_inv (client_bit c) (m_reliableMessages c)
          (expected_bit addrS (m_reliableStates (l_receiver L)))
          (map (\<lambda>(b, t, d). (b, d)) F) (map fst B) (l_pushed L) (l_delivered L)"
  from bk B have "back_messages B = [] @ m # rest" by simp
  then obtain b t B' where m: "B = (b, t) # B'" "m = Ack b t" "rest = back_messages B'"
    by (elim back_messages_split) (auto simp: back_messages_def)
  let ?h = "handshake_client (bit_state b) c"
  from acknowledge_effect [OF arr [unfolded m(2)] h, of r eid, unfolded address_cong(4) [OF a], OF v]
  obtain c' where v': "sender_view r eid addrR s' = (Some r, Some r, Some c')"
    and c': "c' = c \<or> m_reliableState c' = m_reliableState ?h \<and> m_reliableMessages c' = m_reliableMessages ?h"
    by blast
  note acked = reliable.ack_inv [OF abp [unfolded m(1), simplified] sy] reliable.ack_laws(3) [OF sy, of b]
  have "synchronised c' \<and> abp_inv (client_bit c') (m_reliableMessages c')
          (expected_bit addrS (m_reliableStates (l_receiver L)))
          (map (\<lambda>(b, t, d). (b, d)) F) (map fst B') (l_pushed L) (l_delivered L)"
    using c' sy acked synchronised_cong [of c' ?h] abp_lose(2) [of _ _ _ _ "[]" b "map fst B'"] abp m(1)
    by auto
  then show ?thesis
    using v' st F m by (intro link_invI [of _ _ _ _ c' _ F B']) simp_all
qed

text \<open>Loss and repetition of a datagram under way.\<close>

lemma link_fwd_inv:
  assumes "link_inv r eid addrS addrR L" and fwd: "l_fwd L = xs @ m # ys"
  shows "link_inv r eid addrS addrR (L\<lparr>l_fwd := xs @ ys\<rparr>)"
    and "link_inv r eid addrS addrR (L\<lparr>l_fwd := xs @ m # m # ys\<rparr>)"
proof -
  from assms(1) obtain c F B where v: "sender_view r eid addrR (l_sender L) = (Some r, Some r, Some c)"
      "synchronised c"
    and st: "UdcAddressMap_find (m_reliableStates (l_receiver L)) addrS \<in> {None, Some 0, Some 1}"
    and F: "l_fwd L = fwd_messages F" and B: "l_back L = back_messages B"
    and abp: "abp_inv (client_bit c) (m_reliableMessages c)
          (expected_bit addrS (m_reliableStates (l_receiver L)))
          (map (\<lambda>(b, t, d). (b, d)) F) (map fst B) (l_pushed L) (l_delivered L)"
    by (rule link_invE)
  from fwd F have "fwd_messages F = xs @ m # ys" by simp
  then obtain X b t d Y where m: "F = X @ (b, t, d) # Y" "xs = fwd_messages X" "m = Reliable b t d"
      "ys = fwd_messages Y"
    by (elim fwd_messages_split) auto
  note abp' = abp_lose(1) [OF abp [unfolded m(1), simplified]] abp_repeat(1) [OF abp [unfolded m(1), simplified]]
  show "link_inv r eid addrS addrR (L\<lparr>l_fwd := xs @ ys\<rparr>)"
    using v st B m abp'(1) by (intro link_invI [of _ _ _ _ c _ "X @ Y" B]) simp_all
  show "link_inv r eid addrS addrR (L\<lparr>l_fwd := xs @ m # m # ys\<rparr>)"
    using v st B m abp'(2)
    by (intro link_invI [of _ _ _ _ c _ "X @ (b, t, d) # (b, t, d) # Y" B]) simp_all
qed

lemma link_back_inv:
  assumes "link_inv r eid addrS addrR L" and bk: "l_back L = xs @ m # ys"
  shows "link_inv r eid addrS addrR (L\<lparr>l_back := xs @ ys\<rparr>)"
    and "link_inv r eid addrS addrR (L\<lparr>l_back := xs @ m # m # ys\<rparr>)"
proof -
  from assms(1) obtain c F B where v: "sender_view r eid addrR (l_sender L) = (Some r, Some r, Some c)"
      "synchronised c"
    and st: "UdcAddressMap_find (m_reliableStates (l_receiver L)) addrS \<in> {None, Some 0, Some 1}"
    and F: "l_fwd L = fwd_messages F" and B: "l_back L = back_messages B"
    and abp: "abp_inv (client_bit c) (m_reliableMessages c)
          (expected_bit addrS (m_reliableStates (l_receiver L)))
          (map (\<lambda>(b, t, d). (b, d)) F) (map fst B) (l_pushed L) (l_delivered L)"
    by (rule link_invE)
  from bk B have "back_messages B = xs @ m # ys" by simp
  then obtain X b t Y where m: "B = X @ (b, t) # Y" "xs = back_messages X" "m = Ack b t" "ys = back_messages Y"
    by (elim back_messages_split) auto
  note abp' = abp_lose(2) [OF abp [unfolded m(1), simplified]] abp_repeat(2) [OF abp [unfolded m(1), simplified]]
  show "link_inv r eid addrS addrR (L\<lparr>l_back := xs @ ys\<rparr>)"
    using v st F m abp'(1) by (intro link_invI [of _ _ _ _ c _ F "X @ Y"]) simp_all
  show "link_inv r eid addrS addrR (L\<lparr>l_back := xs @ m # m # ys\<rparr>)"
    using v st F m abp'(2)
    by (intro link_invI [of _ _ _ _ c _ F "X @ (b, t) # (b, t) # Y"]) simp_all
qed

lemma link_other_inv:
  assumes "link_inv r eid addrS addrR L"
    and same: "same_reliable (sender_view r eid addrR (l_sender L)) (sender_view r eid addrR s')"
    and "UdcAddressMap_find (m_reliableStates t') addrS = UdcAddressMap_find (m_reliableStates (l_receiver L)) addrS"
  shows "link_inv r eid addrS addrR (L\<lparr>l_sender := s', l_receiver := t'\<rparr>)"
  using assms(1)
proof (rule link_invE)
  fix c F B assume v: "sender_view r eid addrR (l_sender L) = (Some r, Some r, Some c)"
    and sy: "synchronised c"
    and st: "UdcAddressMap_find (m_reliableStates (l_receiver L)) addrS \<in> {None, Some 0, Some 1}"
    and F: "l_fwd L = fwd_messages F" and B: "l_back L = back_messages B"
    and abp: "abp_inv (client_bit c) (m_reliableMessages c)
          (expected_bit addrS (m_reliableStates (l_receiver L)))
          (map (\<lambda>(b, t, d). (b, d)) F) (map fst B) (l_pushed L) (l_delivered L)"
  from same obtain c' where c': "sender_view r eid addrR s' = (Some r, Some r, Some c')"
    "m_reliableState c' = m_reliableState c" "m_reliableMessages c' = m_reliableMessages c"
    by (auto simp: v same_reliable_Some)
  show ?thesis
    by (rule link_invI [of _ _ _ _ c' _ F B])
      (use c' sy st F B abp assms(3) synchronised_cong [OF c'(2)] in \<open>simp_all add: expected_bit_def\<close>)
qed

lemma link_step_inv:
  "link_step envS envR r eid addrS addrR L L' \<Longrightarrow> link_inv r eid addrS addrR L \<Longrightarrow>
   link_inv r eid addrS addrR L'"
proof (induction rule: link_step.induct)
  case (transmit L c time s')
  then show ?case by (intro link_transmit_inv)
qed (simp_all only: link_queue_inv link_receive_inv link_acknowledge_inv
      link_fwd_inv link_back_inv link_other_inv)

lemma link_reachable_inv:
  "link_reachable envS envR r eid addrS addrR L \<Longrightarrow> link_inv r eid addrS addrR L"
  by (induction rule: link_reachable.induct) (auto intro: link_fresh_inv link_step_inv)

section \<open>One undisturbed round\<close>

lemma arrived_exists:
  assumes "unat n = 5 + length (message_body m)" and "unat n \<le> length (m_messageBuffer s)"
    and "g = m_packetSignature s"
  shows "arrived m n s (s\<lparr>m_messageBuffer := write_at 0 (encode g m) (m_messageBuffer s)\<rparr>)"
  using assms
  by (auto simp: arrived_def received_def decode_eq length_encode
      intro!: exI [of _ "write_at 0 (encode g m) (m_messageBuffer s)"])

lemma round_transmit:
  assumes "server_inv (l_sender L)" and "signed (l_sender L)" and "heap (l_sender L) r = Some c"
    and "synchronised c" and "m_reliableMessages c = msg # q" and "\<not> needsReliableReset c time"
  shows "\<exists>L1 c1. link_step envS envR r eid addrS addrR L L1 \<and>
    l_fwd L1 = l_fwd L @ [Reliable (client_bit c) (word_of_int time) msg] \<and>
    l_back L1 = l_back L \<and> l_delivered L1 = l_delivered L \<and> l_receiver L1 = l_receiver L \<and>
    sender_view r eid addrR (l_sender L1) = (m_clientsById (l_sender L) eid, tryGetClientByAddress addrR (l_sender L), Some c1) \<and>
    m_reliableMessages c1 = msg # q \<and> m_reliableState c1 = m_reliableState c \<and>
    length (m_messageBuffer (l_sender L1)) = length (m_messageBuffer (l_sender L)) \<and>
    m_packetSignature (l_sender L1) = m_packetSignature (l_sender L) \<and> server_inv (l_sender L1)"
proof -
  note tx = transmission_synchronised [OF assms(4,6)]
  from update_reliable_effect [OF assms(1,2,3), of envS time] obtain s1 where
    u: "update_reliable envS time r (l_sender L) = Inr (store r (after_transmission time c) s1)" and
    m: "case transmission time c of None \<Rightarrow> s1 = l_sender L
        | Some m \<Rightarrow> transmits envS (m_outgoingAddress c) (encode (m_packetSignature (l_sender L)) m) (l_sender L) s1"
    by (auto simp: ok_r_iff)
  have keeps: "length (m_messageBuffer s1) = length (m_messageBuffer (l_sender L))"
    "m_packetSignature s1 = m_packetSignature (l_sender L)"
    using m by (auto simp: transmits_keeps split: option.splits)
  have "server_inv (store r (after_transmission time c) s1)"
    using update_reliable_safe [OF assms(1), of r envS time] assms(3) u by (auto simp: upd_ok_def)
  then show ?thesis
    using link_step.transmit [OF assms(3,6) u, of envR eid addrS addrR] tx assms(5) keeps
      update_reliable_view [OF u assms(3), of eid addrR]
    by (intro exI [of _ "L\<lparr>l_sender := store r (after_transmission time c) s1,
        l_fwd := l_fwd L @ (case transmission time c of None \<Rightarrow> [] | Some m \<Rightarrow> [m])\<rparr>"]
        exI [of _ "after_transmission time c"]) (simp add: store_def)
qed

lemma round_receive:
  assumes fwd: "l_fwd L = [Reliable b t msg]" and len: "9 + length msg \<le> length (m_messageBuffer (l_receiver L))"
    and small: "9 + length msg < 2 ^ 32"
    and ex: "UdcAddressMap_find (m_reliableStates (l_receiver L)) addrS \<in> {None, Some (bit_state b)}"
  shows "\<exists>L1. link_step envS envR r eid addrS addrR L L1 \<and> l_fwd L1 = [] \<and>
    l_back L1 = l_back L @ [Ack b t] \<and> l_delivered L1 = l_delivered L @ [msg] \<and> l_sender L1 = l_sender L \<and>
    UdcAddressMap_find (m_reliableStates (l_receiver L1)) addrS = Some (bit_state (\<not> b)) \<and>
    length (m_messageBuffer (l_receiver L1)) = length (m_messageBuffer (l_receiver L))"
proof -
  let ?R = "l_receiver L" and ?n = "of_nat (9 + length msg) :: u32"
  let ?Rm = "?R\<lparr>m_messageBuffer := write_at 0 (encode (m_packetSignature ?R) (Reliable b t msg)) (m_messageBuffer ?R)\<rparr>"
  have n: "unat ?n = 9 + length msg" using small by (simp add: unat_of_nat del: of_nat_add)
  have arr: "arrived (Reliable b t msg) ?n ?R ?Rm"
    by (rule arrived_exists) (use n len in \<open>simp_all del: of_nat_add\<close>)
  then have rcv: "received ?n ?Rm = Some (Reliable b t msg)" by (simp add: arrived_def)
  have size: "unat ?n \<le> length (m_messageBuffer ?Rm)"
    using len unfolding n by (simp add: length_encode)
  obtain event R' s1 where h: "handle_message envR 0 addrS ?n ?Rm = Inr (event, R')"
    and tr: "transmits envR addrS (encode (m_packetSignature ?Rm) (Ack b t))
        (with_reliable_state addrS (bit_state (\<not> b)) ?Rm) s1"
    and R': "m_messageBuffer R' = m_messageBuffer s1"
    using handle_reliable [OF rcv size, of envR 0 addrS] by (force simp: ok_r_iff split: if_splits)
  have "length (m_messageBuffer ?Rm) = length (m_messageBuffer ?R)" using len by (simp add: length_encode)
  then have blen: "length (m_messageBuffer R') = length (m_messageBuffer ?R)"
    using transmits_keeps(11) [OF tr] R' by (simp add: with_reliable_state_def)
  have "UdcAddressMap_find (m_reliableStates ?R) addrS \<in> {None, Some 0, Some 1}"
    using ex by (auto simp: bit_state_def)
  note eff = receive_effect [OF arr h this]
  from eff(2) ex have "event_payload event R' = [msg]"
    by (auto simp: expected_bit_def bit_state_def)
  moreover have "UdcAddressMap_find (m_reliableStates R') addrS = Some (bit_state (\<not> b))"
    using eff(1) by (simp add: accept_bit_def address_map.find_insert)
  moreover note blen
  ultimately show ?thesis
    using link_step.receive [OF fwd arr refl h, of envS r eid addrR]
    by (intro exI [of _ "L\<lparr>l_receiver := R', l_fwd := [], l_back := l_back L @ answer (Reliable b t msg),
          l_delivered := l_delivered L @ event_payload event R'\<rparr>"]) simp
qed

lemma round_acknowledge:
  assumes bk: "l_back L = [Ack b t]" and len: "9 \<le> length (m_messageBuffer (l_sender L))"
    and v: "sender_view r eid addrR (l_sender L) = (x, Some r, Some c)"
    and bit: "m_reliableState c = bit_state b" and time: "int (unat t) \<le> time"
    and inv: "server_inv (l_sender L)"
  shows "\<exists>L1 c1. link_step envS envR r eid addrS addrR L L1 \<and> l_back L1 = [] \<and> l_fwd L1 = l_fwd L \<and>
    l_delivered L1 = l_delivered L \<and> sender_view r eid addrR (l_sender L1) = (x, Some r, Some c1) \<and>
    m_reliableMessages c1 = tl (m_reliableMessages c) \<and> m_reliableState c1 = bit_state (\<not> b) \<and>
    m_reliableSentTime c1 = 0 \<and> l_receiver L1 = l_receiver L \<and> server_inv (l_sender L1) \<and> signed (l_sender L1) \<and>
    length (m_messageBuffer (l_sender L1)) = length (m_messageBuffer (l_sender L))"
proof -
  let ?S = "l_sender L"
  let ?Sm = "?S\<lparr>m_messageBuffer := write_at 0 (encode (m_packetSignature ?S) (Ack b t)) (m_messageBuffer ?S)\<rparr>"
  have arr: "arrived (Ack b t) 9 ?S ?Sm" by (rule arrived_exists) (use len in simp_all)
  then have rcv: "received 9 ?Sm = Some (Ack b t)" by (simp add: arrived_def)
  have size: "unat (9 :: u32) \<le> length (m_messageBuffer ?Sm)"
    using len by (simp add: length_encode)
  have r: "tryGetClientByAddress addrR ?Sm = Some r" "heap ?Sm r = Some c" "m_clientsById ?Sm eid = x"
    using v by (auto simp: sender_view_def tryGetClientByAddress_def)
  let ?c = "snd (receivePong (int (unat t)) time (handshake_client (bit_state b) c))"
  obtain event S' where g: "regain (\<not> m_isConnected c) r ?c ?Sm = (event, S')" by fastforce
  then have h: "handle_message envS time addrR 9 ?Sm = Inr (event, S')"
    using handle_ack [OF rcv _ size r(1,2), of b t "bit_state b" envS time] time by simp
  have "sender_view r eid addrR S' = (x, Some r, Some ?c)" using regain_view [OF g] r by simp
  moreover have "m_reliableMessages ?c = tl (m_reliableMessages c)" "m_reliableState ?c = bit_state (\<not> b)"
    "m_reliableSentTime ?c = 0"
    using bit by (auto simp: handshake_client_def client_op_defs Let_def next_bit_state)
  moreover have blen: "length (m_messageBuffer ?Sm) = length (m_messageBuffer ?S)"
    using len by (simp add: length_encode)
  have "m_messageBuffer S' = m_messageBuffer ?Sm" "m_packetSignature S' = m_packetSignature ?S"
    using g by (auto simp: regain_def Let_def store_def split: if_splits)
  then have "signed S'" "length (m_messageBuffer S') = length (m_messageBuffer ?S)"
    using len blen by (simp_all add: stamped_def encode_def read_at_def write_at_def)
  moreover have "server_inv S'"
    using server_inv_prefix [OF inv blen [simplified]] handle_message_safe [of ?Sm envS time addrR 9] h by simp
  ultimately show ?thesis
    using link_step.acknowledge [OF bk arr refl h, of envR r eid addrS]
    by (intro exI [of _ "L\<lparr>l_sender := S', l_back := []\<rparr>"] exI [of _ ?c]) simp
qed

text \<open>What is assumed of a link at the start of a round.\<close>

definition link_ready :: "ref \<Rightarrow> UdcAddressMux \<Rightarrow> UdcAddressMux \<Rightarrow> UdcClient \<Rightarrow> 'w link \<Rightarrow> bool" where
  "link_ready r addrS addrR c L \<longleftrightarrow>
     server_inv (l_sender L) \<and> signed (l_sender L) \<and> heap (l_sender L) r = Some c \<and>
     tryGetClientByAddress addrR (l_sender L) = Some r \<and> synchronised c \<and>
     length (m_messageBuffer (l_sender L)) \<le> length (m_messageBuffer (l_receiver L)) \<and>
     UdcAddressMap_find (m_reliableStates (l_receiver L)) addrS \<in> {None, Some (m_reliableState c)} \<and>
     l_fwd L = [] \<and> l_back L = []"

lemma link_round:
  assumes ready: "link_ready r addrS addrR c L" and q: "m_reliableMessages c = msg # q"
    and quiet: "\<not> needsReliableReset c time" and time: "0 \<le> time"
  shows "\<exists>L' c'. (link_step envS envR r eid addrS addrR)\<^sup>*\<^sup>* L L' \<and> link_ready r addrS addrR c' L' \<and>
    m_reliableMessages c' = q \<and> m_reliableSentTime c' = 0 \<and> l_delivered L' = l_delivered L @ [msg]"
proof -
  let ?b = "client_bit c" and ?t = "word_of_int time :: u32"
  from ready have inv: "server_inv (l_sender L)" and c: "heap (l_sender L) r = Some c"
    and sy: "synchronised c" and sg: "signed (l_sender L)"
    by (simp_all add: link_ready_def)
  have bit: "m_reliableState c = bit_state ?b"
    using sy by (auto simp: synchronised_def client_bit_def bit_state_def)
  have "length msg \<le> max_payload (l_sender L)" using server_inv_wf [OF inv c] q by (simp add: client_wf_def)
  then have len: "9 + length msg \<le> length (m_messageBuffer (l_sender L))" "9 + length msg < 2 ^ 32"
    using server_inv_buffer [OF inv] by (simp_all add: max_payload_def)
  from round_transmit [OF inv sg c sy q quiet, of envS envR eid addrS addrR] ready
  obtain L1 c1 where st1: "link_step envS envR r eid addrS addrR L L1"
    and l1: "l_fwd L1 = [Reliable ?b ?t msg]" "l_back L1 = []" "l_delivered L1 = l_delivered L"
      "l_receiver L1 = l_receiver L" "length (m_messageBuffer (l_sender L1)) = length (m_messageBuffer (l_sender L))"
      "server_inv (l_sender L1)"
    and v1: "sender_view r eid addrR (l_sender L1) = (m_clientsById (l_sender L) eid, Some r, Some c1)"
    and c1: "m_reliableMessages c1 = msg # q" "m_reliableState c1 = bit_state ?b"
    by (auto simp: link_ready_def bit)
  from round_receive [OF l1(1), of addrS envS envR r eid addrR] ready len l1 bit
  obtain L2 where st2: "link_step envS envR r eid addrS addrR L1 L2"
    and l2: "l_fwd L2 = []" "l_back L2 = [Ack ?b ?t]" "l_delivered L2 = l_delivered L @ [msg]" "l_sender L2 = l_sender L1"
      "UdcAddressMap_find (m_reliableStates (l_receiver L2)) addrS = Some (bit_state (\<not> ?b))"
      "length (m_messageBuffer (l_receiver L2)) = length (m_messageBuffer (l_receiver L))"
    by (auto simp: link_ready_def)
  have "int (unat ?t) \<le> time"
    using time by (simp add: uint_word_of_int uint_nat [symmetric] zmod_le_nonneg_dividend)
  from round_acknowledge [OF l2(2) _ v1 [folded l2(4)] c1(2) this _, of envS envR addrS] len l1 l2 c1
  obtain L3 c3 where st3: "link_step envS envR r eid addrS addrR L2 L3"
    and l3: "l_back L3 = []" "l_fwd L3 = []" "l_delivered L3 = l_delivered L @ [msg]"
      "sender_view r eid addrR (l_sender L3) = (m_clientsById (l_sender L) eid, Some r, Some c3)"
      "m_reliableMessages c3 = q" "m_reliableState c3 = bit_state (\<not> ?b)" "m_reliableSentTime c3 = 0"
      "l_receiver L3 = l_receiver L2" "server_inv (l_sender L3)" "signed (l_sender L3)"
      "length (m_messageBuffer (l_sender L3)) = length (m_messageBuffer (l_sender L))"
    by auto
  have "(link_step envS envR r eid addrS addrR)\<^sup>*\<^sup>* L L3"
    using st1 st2 st3 by (meson converse_rtranclp_into_rtranclp r_into_rtranclp)
  moreover have "link_ready r addrS addrR c3 L3"
    using ready l2 l3 by (auto simp: link_ready_def sender_view_def synchronised_def bit_state_def)
  ultimately show ?thesis using l3 by blast
qed

text \<open>Round after round the whole queue is delivered.\<close>

lemma link_drains:
  assumes "link_ready r addrS addrR c L" and "\<not> needsReliableReset c time" and "0 \<le> time"
  shows "\<exists>L' c'. (link_step envS envR r eid addrS addrR)\<^sup>*\<^sup>* L L' \<and> heap (l_sender L') r = Some c' \<and>
    m_reliableMessages c' = [] \<and> l_delivered L' = l_delivered L @ m_reliableMessages c"
  using assms
proof (induction "m_reliableMessages c" arbitrary: c L)
  case Nil
  then show ?case by (intro exI [of _ L] exI [of _ c]) (simp add: link_ready_def)
next
  case (Cons msg q)
  from link_round [OF Cons(3) Cons(2) [symmetric] Cons(4,5), of envS envR eid]
  obtain L1 c1 where st: "(link_step envS envR r eid addrS addrR)\<^sup>*\<^sup>* L L1"
    and r1: "link_ready r addrS addrR c1 L1" "m_reliableMessages c1 = q" "m_reliableSentTime c1 = 0"
      "l_delivered L1 = l_delivered L @ [msg]" by blast
  have "\<not> needsReliableReset c1 time" using r1(3) by (simp add: needsReliableReset_def)
  from Cons(1) [OF r1(2) [symmetric] r1(1) this Cons(5)] obtain L2 c2 where
    "(link_step envS envR r eid addrS addrR)\<^sup>*\<^sup>* L1 L2" "heap (l_sender L2) r = Some c2"
    "m_reliableMessages c2 = []" "l_delivered L2 = l_delivered L1 @ m_reliableMessages c1" by blast
  with st r1 Cons(2) show ?case
    by (intro exI [of _ L2] exI [of _ c2]) (auto intro: rtranclp_trans)
qed

lemma link_reachable_steps:
  "(link_step envS envR r eid addrS addrR)\<^sup>*\<^sup>* L L' \<Longrightarrow> link_reachable envS envR r eid addrS addrR L \<Longrightarrow>
   link_reachable envS envR r eid addrS addrR L'"
  by (induction rule: rtranclp_induct) (auto intro: link_reachable.step)

end
