(* ===== verification/Traffic.thy ===== *)
theory Traffic
  imports Reliable
begin

text \<open>
  The datagrams a server exchanges with its operating system. \<open>traffic_documented\<close> is the
  hypothesis: a history of the operating system's state to which \<open>sendto\<close> adds the datagram it
  is given (or nothing, when it fails) and a successful \<open>recvfrom\<close> the datagram it returns.
  Every call of the interface is then a sequence of actions of the server, each with at most one datagram
  received and answered; \<open>action\<close> lists them with the code's own functions.
\<close>

section \<open>The history of datagrams\<close>

datatype io = Sent end_point "byte list" | Got end_point "byte list"

definition from_in :: "'w platform_api \<Rightarrow> sockaddr_in \<Rightarrow> end_point" where
  "from_in env a = EP_IPv4 (convertInaddrToIPv4 (sin_addr a)) (api_ntohs env (sin_port a))"

definition from_in6 :: "'w platform_api \<Rightarrow> sockaddr_in6 \<Rightarrow> end_point" where
  "from_in6 env a = EP_IPv6 (convertInaddrToIPv6 (sin6_addr a)) (api_ntohs env (sin6_port a))"

definition taken :: "'a recv_result \<Rightarrow> end_point \<Rightarrow> io list" where
  "taken r e = (if rr_result r = 0 \<or> rr_result r = SOCKET_ERROR then [] else [Got e (rr_written r)])"

definition traffic_documented :: "'w platform_api \<Rightarrow> ('w \<Rightarrow> io list) \<Rightarrow> bool" where
  "traffic_documented env traffic \<longleftrightarrow>
     (\<forall>h d n ip port w. traffic (snd (api_sendto_in env h d n (createAddressIPv4 env ip port) w))
        \<in> {traffic w, traffic w @ [Sent (EP_IPv4 ip port) d]}) \<and>
     (\<forall>h d n ip port w. traffic (snd (api_sendto_in6 env h d n (createAddressIPv6 env ip port) w))
        \<in> {traffic w, traffic w @ [Sent (EP_IPv6 ip port) d]}) \<and>
     (\<forall>h len w. traffic (snd (api_recvfrom_in env h len w)) =
        traffic w @ taken (fst (api_recvfrom_in env h len w)) (from_in env (rr_from (fst (api_recvfrom_in env h len w))))) \<and>
     (\<forall>h len w. traffic (snd (api_recvfrom_in6 env h len w)) =
        traffic w @ taken (fst (api_recvfrom_in6 env h len w)) (from_in6 env (rr_from (fst (api_recvfrom_in6 env h len w))))) \<and>
     (\<forall>w. traffic (snd (api_now env w)) = traffic w) \<and>
     (\<forall>w. traffic (snd (api_WSAStartup env w)) = traffic w) \<and>
     (\<forall>a b c w. traffic (snd (api_socket env a b c w)) = traffic w) \<and>
     (\<forall>h w. traffic (api_closesocket env h w) = traffic w) \<and>
     (\<forall>h a w. traffic (snd (api_bind_in env h a w)) = traffic w) \<and>
     (\<forall>h a w. traffic (snd (api_bind_in6 env h a w)) = traffic w) \<and>
     (\<forall>h x w. traffic (snd (api_ioctlsocket_FIONBIO env h x w)) = traffic w) \<and>
     (\<forall>h x w. traffic (snd (api_setsockopt_IPV6_V6ONLY env h x w)) = traffic w) \<and>
     (\<forall>n s a b c w. traffic (snd (api_getaddrinfo env n s a b c w)) = traffic w)"

definition history :: "('w \<Rightarrow> io list) \<Rightarrow> 'w UdcServerImpl \<Rightarrow> io list" where
  "history traffic s = traffic (os (process s))"

lemma history_simps [simp]:
  "history traffic (s\<lparr>m_messageBuffer := buf\<rparr>) = history traffic s"
  "history traffic (s\<lparr>m_socket := mux\<rparr>) = history traffic s"
  "history traffic (s\<lparr>m_eventBuffer := e\<rparr>) = history traffic s"
  "history traffic (s\<lparr>m_pendingClients := rs\<rparr>) = history traffic s"
  "history traffic (s\<lparr>m_clientsById := ids\<rparr>) = history traffic s"
  "history traffic (s\<lparr>m_clientsByAddress := ads\<rparr>) = history traffic s"
  "history traffic (s\<lparr>m_reliableStates := sts\<rparr>) = history traffic s"
  "history traffic (s\<lparr>heap := h\<rparr>) = history traffic s"
  "history traffic (s\<lparr>process := p\<rparr>) = traffic (os p)"
  "history traffic (store r c s) = history traffic s"
  "history traffic (with_reliable_state a v s) = history traffic s"
  by (simp_all add: history_def store_def with_reliable_state_def)

text \<open>What an operation that sends one datagram adds.\<close>

lemma transmits_history:
  assumes "traffic_documented env traffic" and "transmits env a bs s s'"
  shows "history traffic s' \<in> {history traffic s, history traffic s @ [Sent (end_point_of a) bs]}"
proof -
  have wire: "traffic (wire_out env mux a bs w) \<in> {traffic w, traffic w @ [Sent (end_point_of a) bs]}" for mux w
    using assms(1) unfolding traffic_documented_def wire_out_def
    by (simp split: end_point.split list.split)
  show ?thesis
    using wire [of "m_socket s" "os (process s)"] assms(2) by (auto simp: transmits_def history_def)
qed

section \<open>Receiving adds the datagram that is reported\<close>

lemma receive_outcome_taken:
  assumes "fits bsize buffer \<Longrightarrow> recv_result_fits (sint bsize) r"
    and "\<not> fits bsize buffer \<Longrightarrow> bsize = -1 \<and> rr_result r = SOCKET_ERROR \<and> rr_written r = []"
    and out: "receive_outcome r a1 p1 a0 p0 buffer bsize = Inr v"
  shows "taken r e = (if rv_code v = 1 then [Got e (read_at 0 (unat (rv_size v)) (rv_buffer v))] else [])"
    and "rv_code v = 1 \<Longrightarrow> rv_address v = a1 \<and> rv_port v = p1"
proof -
  show "rv_code v = 1 \<Longrightarrow> rv_address v = a1 \<and> rv_port v = p1"
    using out by (auto simp: receive_outcome_def bind_r_Inr_iff assert_r_def split: if_splits)
  show "taken r e = (if rv_code v = 1 then [Got e (read_at 0 (unat (rv_size v)) (rv_buffer v))] else [])"
  proof (cases "rr_result r = 0 \<or> rr_result r = -1")
    case True
    with out show ?thesis
      by (auto simp: receive_outcome_def bind_r_Inr_iff assert_r_def taken_def split: if_splits)
  next
    case False
    with assms(2) have fit: "fits bsize buffer" by auto
    note doc = assms(1) [OF fit]
    note len = recv_result_size [OF doc fit]
    from doc False have n: "rr_result r = int (length (rr_written r))" "0 < length (rr_written r)"
      by (auto simp: recv_result_fits_def)
    note sz = result_as_size(1) [OF n(2) len(1) fit]
    with False out n len show ?thesis
      by (auto simp: receive_outcome_def memcpy_def taken_def assert_r_def split: if_splits)
  qed
qed

lemma receive_history:
  assumes doc: "recvfrom_documented env" and tr: "traffic_documented env traffic" and use: "size_usable env bsize buffer"
  shows "receiveIPv4 env sock a4 port buffer bsize p = Inr (v4, p') \<Longrightarrow>
      traffic (os p') = traffic (os p) @ (if rv_code v4 = 1
        then [Got (EP_IPv4 (rv_address v4) (rv_port v4)) (read_at 0 (unat (rv_size v4)) (rv_buffer v4))] else [])"
    and "receiveIPv6 env sock a6 port buffer bsize p = Inr (v6, p') \<Longrightarrow>
      traffic (os p') = traffic (os p) @ (if rv_code v6 = 1
        then [Got (EP_IPv6 (rv_address v6) (rv_port v6)) (read_at 0 (unat (rv_size v6)) (rv_buffer v6))] else [])"
proof -
  note u = recvfrom_usable [OF doc use]
  show "traffic (os p') = traffic (os p) @ (if rv_code v4 = 1
        then [Got (EP_IPv4 (rv_address v4) (rv_port v4)) (read_at 0 (unat (rv_size v4)) (rv_buffer v4))] else [])"
    if "receiveIPv4 env sock a4 port buffer bsize p = Inr (v4, p')"
  proof (cases "us_socket sock = INVALID_SOCKET")
    case True
    with that show ?thesis by (auto simp: receiveIPv4_def)
  next
    case False
    obtain r w where rw: "api_recvfrom_in env (us_socket sock) (sint bsize) (os p) = (r, w)" by fastforce
    with False that have o: "receive_outcome r (convertInaddrToIPv4 (sin_addr (rr_from r)))
        (api_ntohs env (sin_port (rr_from r))) a4 port buffer bsize = Inr v4" and p': "p' = p\<lparr>os := w\<rparr>"
      by (auto simp: receiveIPv4_def receivePacketIPv4_outcome bind_r_Inr_iff)
    have "traffic w = traffic (os p) @ taken r (from_in env (rr_from r))"
      using tr rw unfolding traffic_documented_def by (metis fst_conv snd_conv)
    with receive_outcome_taken [OF _ _ o] u(1,3) [of "us_socket sock" "os p", unfolded rw fst_conv]
    show ?thesis by (auto simp: p' from_in_def)
  qed
  show "traffic (os p') = traffic (os p) @ (if rv_code v6 = 1
        then [Got (EP_IPv6 (rv_address v6) (rv_port v6)) (read_at 0 (unat (rv_size v6)) (rv_buffer v6))] else [])"
    if "receiveIPv6 env sock a6 port buffer bsize p = Inr (v6, p')"
  proof (cases "us_socket sock = INVALID_SOCKET")
    case True
    with that show ?thesis by (auto simp: receiveIPv6_def)
  next
    case False
    obtain r w where rw: "api_recvfrom_in6 env (us_socket sock) (sint bsize) (os p) = (r, w)" by fastforce
    with False that have o: "receive_outcome r (convertInaddrToIPv6 (sin6_addr (rr_from r)))
        (api_ntohs env (sin6_port (rr_from r))) a6 port buffer bsize = Inr v6" and p': "p' = p\<lparr>os := w\<rparr>"
      by (auto simp: receiveIPv6_def receivePacketIPv6_outcome bind_r_Inr_iff)
    have "traffic w = traffic (os p) @ taken r (from_in6 env (rr_from r))"
      using tr rw unfolding traffic_documented_def by (metis fst_conv snd_conv)
    with receive_outcome_taken [OF _ _ o] u(2,4) [of "us_socket sock" "os p", unfolded rw fst_conv]
    show ?thesis by (auto simp: p' from_in6_def)
  qed
qed

lemma mux_receiveIPv4_history:
  assumes doc: "recvfrom_documented env" and tr: "traffic_documented env traffic"
  shows "poll_safe env (length ss + k) bsize buffer \<Longrightarrow>
    mux_receiveIPv4 env ss a port buffer bsize mux p = Inr (found, a', port', buffer', bsize', mux', p') \<Longrightarrow>
    traffic (os p') = traffic (os p) @ (if found then [Got (EP_IPv4 a' port') (read_at 0 (unat bsize') buffer')] else [])"
proof (induction ss arbitrary: a port buffer bsize p)
  case (Cons s ss)
  from Cons.prems(1) have use: "size_usable env bsize buffer" by (simp add: poll_safe_def)
  from Cons.prems(2) obtain v p1 where v: "receiveIPv4 env s a port buffer bsize p = Inr (v, p1)"
    by (auto simp: bind_r_Inr_iff)
  note h = receive_history(1) [OF doc tr use v]
  show ?case
  proof (cases "rv_code v = 1")
    case True
    with Cons.prems(2) v h show ?thesis by (auto simp: bind_r_Inr_iff)
  next
    case False
    have "received_ok buffer bsize v" using ok_r_Inr [OF receiveIPv4_ok [OF doc use] v] by simp
    with Cons.prems(1) False have "poll_safe env (length ss + k) (rv_size v) (rv_buffer v)"
      by (intro poll_safe_step) auto
    from Cons.IH [OF this] Cons.prems(2) v h False show ?thesis by simp
  qed
qed simp

lemma mux_receiveIPv6_history:
  assumes doc: "recvfrom_documented env" and tr: "traffic_documented env traffic"
  shows "poll_safe env (length ss + k) bsize buffer \<Longrightarrow>
    mux_receiveIPv6 env ss a port buffer bsize mux p = Inr (found, a', port', buffer', bsize', mux', p') \<Longrightarrow>
    traffic (os p') = traffic (os p) @ (if found then [Got (EP_IPv6 a' port') (read_at 0 (unat bsize') buffer')] else [])"
proof (induction ss arbitrary: a port buffer bsize p)
  case (Cons s ss)
  from Cons.prems(1) have use: "size_usable env bsize buffer" by (simp add: poll_safe_def)
  from Cons.prems(2) obtain v p1 where v: "receiveIPv6 env s a port buffer bsize p = Inr (v, p1)"
    by (auto simp: bind_r_Inr_iff)
  note h = receive_history(2) [OF doc tr use v]
  show ?case
  proof (cases "rv_code v = 1")
    case True
    with Cons.prems(2) v h show ?thesis by (auto simp: bind_r_Inr_iff)
  next
    case False
    have "received_ok buffer bsize v" using ok_r_Inr [OF receiveIPv6_ok [OF doc use] v] by simp
    with Cons.prems(1) False have "poll_safe env (length ss + k) (rv_size v) (rv_buffer v)"
      by (intro poll_safe_step) auto
    from Cons.IH [OF this] Cons.prems(2) v h False show ?thesis by simp
  qed
qed simp

lemma mux_receive_history:
  assumes doc: "recvfrom_documented env" and tr: "traffic_documented env traffic"
    and ps: "poll_safe env (length (m_socketIPv6 mux) + length (m_socketIPv4 mux)) bsize buffer"
    and call: "mux_receive env address buffer bsize mux p = Inr (found, address', buffer', bsize', mux', p')"
  shows "traffic (os p') = traffic (os p) @
    (if found then [Got (end_point_of address') (read_at 0 (unat bsize') buffer')] else [])"
proof -
  from call obtain found6 ipv6 port6 buffer1 bsize1 mux1 p1 where
    call6: "mux_receiveIPv6 env (m_socketIPv6 mux) (am_address address) (am_port address) buffer bsize mux p
      = Inr (found6, ipv6, port6, buffer1, bsize1, mux1, p1)"
    by (auto simp: mux_receive_def bind_r_Inr_iff)
  note h6 = mux_receiveIPv6_history [OF doc tr ps call6]
  from ok_r_Inr [OF mux_receiveIPv6_ok [OF doc ps] call6]
  have r6: "polled_ok env (length (m_socketIPv4 mux)) buffer bsize mux
      (found6, ipv6, port6, buffer1, bsize1, mux1, p1)" .
  show ?thesis
  proof (cases found6)
    case True
    with call call6 h6 show ?thesis by (auto simp: mux_receive_def end_point_of_def)
  next
    case False
    with r6 have "poll_safe env (length (m_socketIPv4 mux1) + 0) bsize1 buffer1"
      by (auto simp: polled_ok_def same_sockets_def)
    note h4 = mux_receiveIPv4_history [OF doc tr this]
    from False call call6 h6 show ?thesis
      by (auto simp: mux_receive_def bind_r_Inr_iff Let_def end_point_of_def dest!: h4 split: if_splits)
  qed
qed

lemma server_receive_history:
  assumes inv: "server_inv s" and doc: "recvfrom_documented env" and tr: "traffic_documented env traffic"
    and polls: "polls_safely env s" and size: "fits msgSize (m_messageBuffer s)"
    and call: "server_receive env address msgSize s = Inr (found, a, n, s1)"
  shows "history traffic s1 = history traffic s @
      (if found then [Got (end_point_of a) (read_at 0 (unat n) (m_messageBuffer s1))] else [])"
    and "\<exists>buf mux p. s1 = s\<lparr>m_messageBuffer := buf, m_socket := mux, process := p\<rparr> \<and>
      length buf = length (m_messageBuffer s) \<and> same_sockets (m_socket s) mux"
    and "found \<Longrightarrow> fits n (m_messageBuffer s1)"
proof -
  have ps: "poll_safe env (length (m_socketIPv6 (m_socket s)) + length (m_socketIPv4 (m_socket s)))
          msgSize (m_messageBuffer s)"
    using size polls by (auto simp: poll_safe_def size_usable_def polls_safely_def le_Suc_eq)
  from call obtain buf mux p where m: "mux_receive env address (m_messageBuffer s) msgSize (m_socket s) (process s)
      = Inr (found, a, buf, n, mux, p)" and s1: "s1 = s\<lparr>m_messageBuffer := buf, m_socket := mux, process := p\<rparr>"
    by (auto simp: server_receive_def bind_r_Inr_iff)
  from ok_r_Inr [OF mux_receive_ok [OF doc ps] m] have "length buf = length (m_messageBuffer s)"
    "same_sockets (m_socket s) mux" "found \<Longrightarrow> fits n buf" by simp_all
  with s1 mux_receive_history [OF doc tr ps m]
  show "history traffic s1 = history traffic s @
      (if found then [Got (end_point_of a) (read_at 0 (unat n) (m_messageBuffer s1))] else [])"
    and "\<exists>buf mux p. s1 = s\<lparr>m_messageBuffer := buf, m_socket := mux, process := p\<rparr> \<and>
      length buf = length (m_messageBuffer s) \<and> same_sockets (m_socket s) mux"
    and "found \<Longrightarrow> fits n (m_messageBuffer s1)"
    by (auto simp: history_def)
qed

section \<open>Calls of the interface\<close>

datatype call =
    TryBindIPv4 u16
  | TryBindIPv6 u16
  | TryConnectIPv4 UdcAddressIPv4 u16 u32
  | TryConnectIPv6 UdcAddressIPv6 u16 u32
  | TryConnect string string u32
  | Disconnect u32
  | SendMessage u32 "byte list" u32 UdcMessageType
  | ProcessEvents nat

datatype reply = Done | Flag bool | NewId "u32 option" | Reported "UdcEvent option"

fun reply_event :: "reply \<Rightarrow> UdcEvent option" where
  "reply_event (Reported e) = e"
| "reply_event _ = None"

definition connect_reply ::
  "'w UdcServerImpl \<Rightarrow> (u32 option \<times> 'w UdcServerImpl option) res \<Rightarrow> (reply \<times> 'w UdcServerImpl) res" where
  "connect_reply s m = bind_r m (\<lambda>(i, s').
     Inr (NewId i, case s' of None \<Rightarrow> s | Some s1 \<Rightarrow> s1))"

fun perform :: "'w platform_api \<Rightarrow> call \<Rightarrow> 'w UdcServerImpl \<Rightarrow> (reply \<times> 'w UdcServerImpl) res" where
  "perform env (TryBindIPv4 port) s = bind_r (udcTryBindIPv4 env s port) (\<lambda>(b, s'). Inr (Flag b, s'))"
| "perform env (TryBindIPv6 port) s = bind_r (udcTryBindIPv6 env s port) (\<lambda>(b, s'). Inr (Flag b, s'))"
| "perform env (TryConnectIPv4 ip port timeout) s = connect_reply s (udcTryConnectIPv4 env (Some s) ip port timeout)"
| "perform env (TryConnectIPv6 ip port timeout) s = connect_reply s (udcTryConnectIPv6 env (Some s) ip port timeout)"
| "perform env (TryConnect node service timeout) s = connect_reply s (udcTryConnect env s node service timeout)"
| "perform env (Disconnect eid) s = bind_r (udcDisconnect s eid) (\<lambda>s'. Inr (Done, s'))"
| "perform env (SendMessage eid data n reliability) s =
     bind_r (udcSendMessage env s eid data n reliability) (\<lambda>(b, s'). Inr (Flag b, s'))"
| "perform env (ProcessEvents fuel) s =
     bind_r (udcProcessEvents fuel env s) (\<lambda>(e, s'). Inr (Reported e, s'))"

section \<open>The actions calls are made of\<close>

text \<open>What a call asks of the server itself: the connection it opens, with its id, or closes, or sends to.\<close>

datatype request = Open u32 end_point | Close u32 | Queue u32 | Send u32

fun requests :: "'w platform_api \<Rightarrow> call \<Rightarrow> 'w UdcServerImpl \<Rightarrow> request set" where
  "requests env (TryConnectIPv4 ip port timeout) s = {Open (m_idCounter s + 1) (EP_IPv4 ip port)}"
| "requests env (TryConnectIPv6 ip port timeout) s = {Open (m_idCounter s + 1) (EP_IPv6 ip port)}"
| "requests env (TryConnect node service timeout) s =
     (case stringToIPv6 env node service (process s) of
        (Some (ip, port), p) \<Rightarrow> {Open (m_idCounter s + 1) (EP_IPv6 ip port)}
      | (None, p) \<Rightarrow>
          (case fst (stringToIPv4 env node service p) of
             Some (ip, port) \<Rightarrow> {Open (m_idCounter s + 1) (EP_IPv4 ip port)}
           | None \<Rightarrow> {}))"
| "requests env (Disconnect eid) s = {Close eid}"
| "requests env (SendMessage eid data n reliability) s =
     {if reliability = UDC_RELIABLE_MESSAGE then Queue eid else Send eid}"
| "requests env _ s = {}"

text \<open>
  One action: something inside the server or its operating system, without a datagram; one datagram
  received and handled; the front of the pending queue or one part of one client's update; a
  connection opened or closed; a message of the application.
\<close>

inductive action ::
  "'w platform_api \<Rightarrow> ('w \<Rightarrow> io list) \<Rightarrow> request set \<Rightarrow> milliseconds
   \<Rightarrow> 'w UdcServerImpl \<Rightarrow> UdcEvent option \<Rightarrow> 'w UdcServerImpl \<Rightarrow> bool"
  for env traffic Q time where
  internal: "s' = s\<lparr>m_messageBuffer := buf, m_socket := mux, process := p\<rparr> \<Longrightarrow>
     length buf = length (m_messageBuffer s) \<Longrightarrow> history traffic s' = history traffic s \<Longrightarrow>
     action env traffic Q time s None s'"
| message: "s1 = s\<lparr>m_messageBuffer := buf, m_socket := mux, process := p\<rparr> \<Longrightarrow>
     length buf = length (m_messageBuffer s) \<Longrightarrow> unat n \<le> length buf \<Longrightarrow>
     history traffic s1 = history traffic s @ [Got (end_point_of a) (read_at 0 (unat n) buf)] \<Longrightarrow>
     handle_message env time a n s1 = Inr (event, s') \<Longrightarrow> action env traffic Q time s event s'"
| pending: "updatePendingClients env time s = Inr (event, s') \<Longrightarrow> action env traffic Q time s event s'"
| reliable: "m_clientsById s i = Some r \<Longrightarrow> update_reliable env time r s = Inr s' \<Longrightarrow>
     action env traffic Q time s None s'"
| ping: "m_clientsById s i = Some r \<Longrightarrow> update_ping env time r s = Inr s' \<Longrightarrow> action env traffic Q time s None s'"
| lost: "m_clientsById s i = Some r \<Longrightarrow> update_lost time r s = Inr (event, s') \<Longrightarrow>
     action env traffic Q time s event s'"
| connect: "Open (m_idCounter s + 1) (end_point_of address) \<in> Q \<Longrightarrow> action env traffic Q time s None (with_pending (new_client (m_idCounter s + 1) address timeout start) s)"
| disconnect: "Close eid \<in> Q \<Longrightarrow> disconnectFromClient eid s = Inr s' \<Longrightarrow> action env traffic Q time s None s'"
| queue: "Queue eid \<in> Q \<Longrightarrow> sendable data n \<Longrightarrow> sendReliableMessage eid data n s = Inr (b, s') \<Longrightarrow> action env traffic Q time s None s'"
| send: "Send eid \<in> Q \<Longrightarrow> sendable data n \<Longrightarrow> sendUnreliableMessage env eid data n s = Inr (b, s') \<Longrightarrow>
     action env traffic Q time s None s'"

inductive actions ::
  "'w platform_api \<Rightarrow> ('w \<Rightarrow> io list) \<Rightarrow> request set \<Rightarrow> milliseconds
   \<Rightarrow> 'w UdcServerImpl \<Rightarrow> UdcEvent option \<Rightarrow> 'w UdcServerImpl \<Rightarrow> bool"
  for env traffic Q time where
  none: "actions env traffic Q time s None s"
| last: "action env traffic Q time s event s' \<Longrightarrow> actions env traffic Q time s event s'"
| cons: "action env traffic Q time s None s1 \<Longrightarrow> actions env traffic Q time s1 event s' \<Longrightarrow>
     actions env traffic Q time s event s'"

lemma actions_trans:
  "actions env traffic Q time s ev s1 \<Longrightarrow> ev = None \<Longrightarrow> actions env traffic Q time s1 event s' \<Longrightarrow>
   actions env traffic Q time s event s'"
  by (induction rule: actions.induct) (auto intro: actions.intros)

lemma actions_then:
  "action env traffic Q time s None s1 \<Longrightarrow> action env traffic Q time s1 event s' \<Longrightarrow> actions env traffic Q time s event s'"
  by (blast intro: actions.intros)

lemma update_client_actions:
  assumes "m_clientsById s i = Some r" and "update_client env time r s = Inr (event, s')"
  shows "actions env traffic Q time s event s'"
proof -
  from assms(2) obtain s1 s2 where u: "update_reliable env time r s = Inr s1" "update_ping env time r s1 = Inr s2"
    "update_lost time r s2 = Inr (event, s')"
    by (auto simp: update_client_def bind_r_Inr_iff)
  have "m_clientsById s1 = m_clientsById s"
  proof -
    from u(1) obtain c where "heap s r = Some c"
      by (auto simp: update_reliable_def bind_r_Inr_iff deref_def split: option.splits)
    from update_reliable_view [OF u(1) this] show ?thesis by (auto simp: sender_view_def fun_eq_iff)
  qed
  moreover have "m_clientsById s2 = m_clientsById s1"
    using u(2) by (auto simp: update_ping_def bind_r_Inr_iff assert_r_def split: if_splits
        dest!: put_buffer_Inr server_send_Inr)
  ultimately have "m_clientsById s1 i = Some r" "m_clientsById s2 i = Some r" using assms(1) by simp_all
  with assms(1) u show ?thesis
    by (blast intro: actions.cons action.reliable action.ping actions.last action.lost)
qed

lemma update_clients_actions:
  "update_clients env time is s = Inr (event, s') \<Longrightarrow> actions env traffic Q time s event s'"
proof (induction "is" arbitrary: s)
  case Nil
  then show ?case by (auto intro: actions.none)
next
  case (Cons i "is")
  then obtain r e s1 where r: "m_clientsById s i = Some r" and u: "update_client env time r s = Inr (e, s1)"
    and rest: "(case e of Some e \<Rightarrow> Inr (Some e, s1) | None \<Rightarrow> update_clients env time is s1) = Inr (event, s')"
    by (auto simp: bind_r_Inr_iff split: option.splits)
  note step = update_client_actions [OF r u, of traffic]
  show ?case
  proof (cases e)
    case None
    with rest Cons.IH [of s1] show ?thesis by (auto intro: actions_trans [OF step])
  next
    case (Some x)
    with rest step show ?thesis by simp
  qed
qed

definition polling_documented :: "'w platform_api \<Rightarrow> bool" where
  "polling_documented env \<longleftrightarrow> recvfrom_documented env \<and> recvfrom_rejects_negative env"

lemma receive_loop_actions:
  assumes doc: "polling_documented env" and tr: "traffic_documented env traffic"
  shows "server_inv s \<Longrightarrow> fits msgSize (m_messageBuffer s) \<Longrightarrow>
    receive_loop fuel env time address msgSize s = Inr (event, s') \<Longrightarrow> actions env traffic Q time s event s'"
proof (induction fuel arbitrary: s address msgSize)
  case (Suc fuel)
  have polls: "polls_safely env s" and rdoc: "recvfrom_documented env"
    using doc by (simp_all add: polls_safely_def polling_documented_def)
  from Suc.prems(3) obtain found a n s1 where rcv: "server_receive env address msgSize s = Inr (found, a, n, s1)"
    by (auto simp: bind_r_Inr_iff)
  note h = server_receive_history [OF Suc.prems(1) rdoc tr polls Suc.prems(2) rcv]
  from h(2) obtain buf mux p where s1: "s1 = s\<lparr>m_messageBuffer := buf, m_socket := mux, process := p\<rparr>"
    and len: "length buf = length (m_messageBuffer s)" by blast
  show ?case
  proof (cases found)
    case False
    with h(1) have "action env traffic Q time s None s1" by (intro action.internal [OF s1 len]) simp
    with False Suc.prems(3) rcv show ?thesis by (auto intro: actions.last)
  next
    case True
    with h(1,3) s1 have n: "unat n \<le> length buf" "fits n buf"
      and got: "history traffic s1 = history traffic s @ [Got (end_point_of a) (read_at 0 (unat n) buf)]"
      by (auto simp: fits_def)
    have inv1: "server_inv s1" unfolding s1 by (rule server_inv_received [OF Suc.prems(1) len])
    from True Suc.prems(3) rcv obtain e s2 where hm: "handle_message env time a n s1 = Inr (e, s2)"
      and rest: "(case e of Some e \<Rightarrow> Inr (Some e, s2) | None \<Rightarrow> receive_loop fuel env time a n s2) = Inr (event, s')"
      by (auto simp: bind_r_Inr_iff)
    have act: "action env traffic Q time s e s2" by (rule action.message [OF s1 len n(1) got hm])
    from handle_message_safe [OF inv1, of env time a n] hm have s2: "server_inv s2" "kept s1 s2" by simp_all
    then have "fits n (m_messageBuffer s2)" using n s1 len by (simp add: kept_def fits_def)
    with rest act Suc.IH [OF s2(1)] show ?thesis
      by (auto split: option.splits intro: actions.last actions.cons)
  qed
qed simp

lemma referenced:
  "server_inv s \<Longrightarrow> m_clientsById s i = Some r \<Longrightarrow> r \<in> dom (heap s)"
  using server_inv_client(1) [of s i r] by auto

lemma action_inv:
  assumes "action env traffic Q time s event s'" and inv: "server_inv s"
  shows "server_inv s' \<and> m_packetSignature s' = m_packetSignature s"
  using assms(1)
proof cases
  case (internal buf mux p)
  then show ?thesis by (simp add: server_inv_received [OF inv])
next
  case (message s1 buf mux p n a)
  have "server_inv s1" using message(1,2) by (simp add: server_inv_received [OF inv])
  from handle_message_safe [OF this, of env time a n] message show ?thesis by (simp add: kept_def)
next
  case pending
  with updatePendingClients_safe [OF inv, of env time] show ?thesis by (simp add: kept_def)
next
  case (reliable i r)
  with update_reliable_safe [OF inv referenced [OF inv], of i r env time] show ?thesis
    by (simp add: upd_ok_def kept_def)
next
  case (ping i r)
  with update_ping_safe [OF inv referenced [OF inv], of i r env time] show ?thesis
    by (simp add: upd_ok_def kept_def)
next
  case (lost i r)
  with update_lost_safe [OF inv referenced [OF inv], of i r time] show ?thesis
    by (simp add: upd_ok_def kept_def)
next
  case (connect address timeout start)
  have "server_inv (with_pending (new_client (m_idCounter s + 1) address timeout start) s)"
    by (rule server_inv_with_pending [OF inv]) (simp add: new_client_def)
  with connect show ?thesis by (simp add: with_pending_def)
next
  case (disconnect eid)
  with disconnectFromClient_safe [OF inv, of eid] show ?thesis by (simp add: kept_def)
next
  case (queue eid data n b)
  with sendReliableMessage_safe [OF inv, of n data eid] show ?thesis by (simp add: sendable_def kept_def)
next
  case (send eid data n b)
  with sendUnreliableMessage_safe [OF inv, of n data env eid] show ?thesis by (simp add: sendable_def kept_def)
qed

lemma actions_inv:
  "actions env traffic Q time s event s' \<Longrightarrow> server_inv s \<Longrightarrow>
   server_inv s' \<and> m_packetSignature s' = m_packetSignature s"
  by (induction rule: actions.induct) (use action_inv in fastforce)+

section \<open>Every call is a sequence of actions\<close>

lemma quiet_calls:
  assumes "traffic_documented env traffic"
  shows "traffic (snd (api_now env w)) = traffic w" "traffic (snd (api_WSAStartup env w)) = traffic w"
    "traffic (snd (api_socket env a b c w)) = traffic w" "traffic (api_closesocket env h w) = traffic w"
    "traffic (snd (api_bind_in env h sa w)) = traffic w" "traffic (snd (api_bind_in6 env h sb w)) = traffic w"
    "traffic (snd (api_ioctlsocket_FIONBIO env h x w)) = traffic w"
    "traffic (snd (api_setsockopt_IPV6_V6ONLY env h x w)) = traffic w"
    "traffic (snd (api_getaddrinfo env n m a b c w)) = traffic w"
  using assms by (simp_all add: traffic_documented_def)

lemma mux_tryBind_history:
  assumes "traffic_documented env traffic"
  shows "mux_tryBindIPv4 env port mux p = Inr (b, mux', p') \<Longrightarrow> traffic (os p') = traffic (os p)"
    and "mux_tryBindIPv6 env port mux p = Inr (b, mux', p') \<Longrightarrow> traffic (os p') = traffic (os p)"
  by (auto simp: mux_tryBindIPv4_def mux_tryBindIPv6_def UdcSocket_ctor_def
      WinSockReference_ctor_def localBindIPv4_def localBindIPv6_def createSocket_def deleteSocket_def
      setSocketOptionNonBlocking_def bindSocketIPv4_def bindSocketIPv6_def bind_r_Inr_iff Let_def case_prod_beta
      quiet_calls [OF assms] split: if_splits)

lemma tryBind_action:
  assumes "traffic_documented env traffic"
  shows "tryBindIPv4 env port s = Inr (b, s') \<Longrightarrow> action env traffic Q time s None s'"
    and "tryBindIPv6 env port s = Inr (b, s') \<Longrightarrow> action env traffic Q time s None s'"
  by (auto simp: tryBindIPv4_def tryBindIPv6_def bind_r_Inr_iff history_def
      dest!: mux_tryBind_history [OF assms]
      intro!: action.internal [where buf = "m_messageBuffer s"])

lemma parse_history:
  assumes "traffic_documented env traffic"
  shows "traffic (os (snd (stringToIPv4 env node service p))) = traffic (os p)"
    and "traffic (os (snd (stringToIPv6 env node service p))) = traffic (os p)"
  by (simp_all add: stringToIPv4_def stringToIPv6_def ensure_WinSock_def Let_def case_prod_beta quiet_calls [OF assms])

lemma process_action:
  "traffic (os p) = history traffic s \<Longrightarrow> action env traffic Q time s None (s\<lparr>process := p\<rparr>)"
  by (rule action.internal [where buf = "m_messageBuffer s" and mux = "m_socket s" and p = p]) simp_all

lemma current_time_action:
  assumes "traffic_documented env traffic" and "current_time env s = (t, s')"
  shows "action env traffic Q time s None s'"
proof -
  obtain w where "s' = s\<lparr>process := (process s)\<lparr>os := w\<rparr>\<rparr>" "traffic w = history traffic s"
    using assms(2) quiet_calls(1) [OF assms(1)] by (auto simp: current_time_def Let_def case_prod_beta history_def)
  then show ?thesis using process_action [of traffic _ s] by simp
qed

lemma end_point_of_mux_of_ip [simp]:
  "end_point_of (mux_of_ipv4 ip4 port) = EP_IPv4 ip4 port" "end_point_of (mux_of_ipv6 ip6 port) = EP_IPv6 ip6 port"
  by (simp_all add: mux_of_ipv4_def mux_of_ipv6_def end_point_of_def)

lemma connect_actions:
  assumes "traffic_documented env traffic"
  shows "Open (m_idCounter s + 1) (EP_IPv4 ip4 port) \<in> Q \<Longrightarrow> connect_reply s (udcTryConnectIPv4 env (Some s) ip4 port timeout) = Inr (reply, s') \<Longrightarrow>
      actions env traffic Q time s (reply_event reply) s'"
    and "Open (m_idCounter s + 1) (EP_IPv6 ip6 port) \<in> Q \<Longrightarrow>
      connect_reply s (udcTryConnectIPv6 env (Some s) ip6 port timeout) = Inr (reply, s') \<Longrightarrow>
      actions env traffic Q time s (reply_event reply) s'"
proof -
  obtain t s1 where t: "current_time env s = (t, s1)" by fastforce
  have "m_idCounter s1 = m_idCounter s" using t by (auto simp: current_time_def case_prod_beta Let_def)
  then have go: "actions env traffic Q time s None (with_pending (new_client (m_idCounter s1 + 1) a timeout t) s1)"
    if "Open (m_idCounter s + 1) (end_point_of a) \<in> Q" for a
    using that by (intro actions_then [OF current_time_action [OF assms t] action.connect]) simp
  show "Open (m_idCounter s + 1) (EP_IPv4 ip4 port) \<in> Q \<Longrightarrow> connect_reply s (udcTryConnectIPv4 env (Some s) ip4 port timeout) = Inr (reply, s') \<Longrightarrow>
      actions env traffic Q time s (reply_event reply) s'"
    using udcTryConnectIPv4_eq [OF _ t, of timeout ip4 port] go
    by (cases "timeout = 0") (auto simp: connect_reply_def udcTryConnectIPv4_def [of env "Some s" _ _ 0] intro: actions.none)
  show "Open (m_idCounter s + 1) (EP_IPv6 ip6 port) \<in> Q \<Longrightarrow>
      connect_reply s (udcTryConnectIPv6 env (Some s) ip6 port timeout) = Inr (reply, s') \<Longrightarrow>
      actions env traffic Q time s (reply_event reply) s'"
    using udcTryConnectIPv6_eq [OF _ t, of timeout ip6 port] go
    by (cases "timeout = 0") (auto simp: connect_reply_def udcTryConnectIPv6_def [of env "Some s" _ _ 0] intro: actions.none)
qed

lemma connect_reply_start:
  "connect_reply s0 (udcTryConnectIPv4 env (Some s) ip4 port timeout) = connect_reply s (udcTryConnectIPv4 env (Some s) ip4 port timeout)"
  "connect_reply s0 (udcTryConnectIPv6 env (Some s) ip6 port timeout) = connect_reply s (udcTryConnectIPv6 env (Some s) ip6 port timeout)"
proof -
  obtain t s1 where t: "current_time env s = (t, s1)" by fastforce
  show "connect_reply s0 (udcTryConnectIPv4 env (Some s) ip4 port timeout) = connect_reply s (udcTryConnectIPv4 env (Some s) ip4 port timeout)"
    using udcTryConnectIPv4_eq [OF _ t, of timeout ip4 port]
    by (cases "timeout = 0") (simp_all add: connect_reply_def udcTryConnectIPv4_def [of env "Some s" _ _ 0])
  show "connect_reply s0 (udcTryConnectIPv6 env (Some s) ip6 port timeout) = connect_reply s (udcTryConnectIPv6 env (Some s) ip6 port timeout)"
    using udcTryConnectIPv6_eq [OF _ t, of timeout ip6 port]
    by (cases "timeout = 0") (simp_all add: connect_reply_def udcTryConnectIPv6_def [of env "Some s" _ _ 0])
qed

lemma connect_by_name_actions:
  assumes tr: "traffic_documented env traffic"
    and call: "connect_reply s (udcTryConnect env s node service timeout) = Inr (reply, s')"
  shows "actions env traffic (requests env (TryConnect node service timeout) s) time s (reply_event reply) s'"
proof -
  obtain r6 p1 where r6: "stringToIPv6 env node service (process s) = (r6, p1)" by fastforce
  obtain r4 p2 where r4: "stringToIPv4 env node service p1 = (r4, p2)" by fastforce
  have hist: "traffic (os p1) = history traffic s" "traffic (os p2) = history traffic s"
    using parse_history(2) [OF tr, of node service "process s"] parse_history(1) [OF tr, of node service p1] r6 r4
    by (simp_all add: history_def)
  let ?Q = "requests env (TryConnect node service timeout) s"
  note go = process_action [OF hist(1), of env ?Q time] process_action [OF hist(2), of env ?Q time]
  show ?thesis
  proof (cases r6)
    case (Some x)
    obtain ip port where "x = (ip, port)" by fastforce
    with Some call r6 have "connect_reply s (udcTryConnectIPv6 env (Some (s\<lparr>process := p1\<rparr>)) ip port timeout) = Inr (reply, s')"
      by (simp add: udcTryConnect_def)
    then show ?thesis
      using connect_actions(2) [OF tr, of "s\<lparr>process := p1\<rparr>" ip port ?Q] connect_reply_start(2) [of s] Some r6 \<open>x = (ip, port)\<close>
      by (intro actions.cons [OF go(1)]) simp
  next
    case None
    show ?thesis
    proof (cases r4)
      case (Some x)
      obtain ip port where "x = (ip, port)" by fastforce
      with None Some call r6 r4 have "connect_reply s (udcTryConnectIPv4 env (Some (s\<lparr>process := p2\<rparr>)) ip port timeout) = Inr (reply, s')"
        by (simp add: udcTryConnect_def)
      then show ?thesis
        using connect_actions(1) [OF tr, of "s\<lparr>process := p2\<rparr>" ip port ?Q] connect_reply_start(1) [of s] None Some r6 r4
          \<open>x = (ip, port)\<close>
        by (intro actions.cons [OF go(2)]) simp
    next
      case none: None
      with None call r6 r4 actions.last [OF go(2)] show ?thesis
        by (auto simp: udcTryConnect_def connect_reply_def)
    qed
  qed
qed

definition call_time :: "'w platform_api \<Rightarrow> 'w UdcServerImpl \<Rightarrow> milliseconds" where
  "call_time env s = fst (current_time env s)"

lemma process_events_actions:
  assumes inv: "server_inv s" and doc: "polling_documented env" and tr: "traffic_documented env traffic"
    and call: "udcProcessEvents fuel env s = Inr (event, s')"
  shows "actions env traffic Q (call_time env s) s event s'"
proof -
  obtain time s0 where t: "current_time env s = (time, s0)" by fastforce
  then have time: "call_time env s = time" by (simp add: call_time_def)
  note a0 = current_time_action [OF tr t, of Q time]
  have inv0: "server_inv s0" using action_inv [OF a0 inv] by simp
  from call t obtain e1 s1 where p: "updatePendingClients env time s0 = Inr (e1, s1)"
    and rest1: "(case e1 of Some e \<Rightarrow> Inr (Some e, s1)
         | None \<Rightarrow> bind_r (updateClientConnectionStatus env time s1) (\<lambda>(event, s2).
             case event of
               Some e \<Rightarrow> Inr (Some e, s2)
             | None \<Rightarrow> receiveMessages fuel env time s2)) = Inr (event, s')"
    by (auto simp: udcProcessEvents_def bind_r_Inr_iff)
  note a1 = actions_then [OF a0 action.pending [OF p]]
  show ?thesis
  proof (cases e1)
    case (Some e)
    with rest1 a1 show ?thesis by (simp add: time)
  next
    case None
    with rest1 obtain e2 s2 where u: "update_clients env time (unordered_order env (m_clientsById s1)) s1 = Inr (e2, s2)"
      and rest2: "(case e2 of Some e \<Rightarrow> Inr (Some e, s2) | None \<Rightarrow> receiveMessages fuel env time s2) = Inr (event, s')"
      by (auto simp: bind_r_Inr_iff updateClientConnectionStatus_def)
    note a2 = actions_trans [OF a1 None update_clients_actions [OF u]]
    have inv2: "server_inv s2" using actions_inv [OF a2 inv] by simp
    show ?thesis
    proof (cases e2)
      case (Some e)
      with rest2 a2 show ?thesis by (simp add: time)
    next
      case none: None
      with rest2 have "receive_loop fuel env time (uninit_address env) (m_messageBufferSize s2) s2 = Inr (event, s')"
        by (simp add: receiveMessages_def)
      then have "actions env traffic Q time s2 event s'"
        using inv2 by (intro receive_loop_actions [OF doc tr inv2]) (auto simp: inv_defs)
      then show ?thesis unfolding time by (rule actions_trans [OF a2 none])
    qed
  qed
qed

text \<open>What the application owes the library: the data of a message exists.\<close>

fun call_sendable :: "call \<Rightarrow> bool" where
  "call_sendable (SendMessage eid data n reliability) = sendable data n"
| "call_sendable _ = True"

fun is_process :: "call \<Rightarrow> bool" where
  "is_process (ProcessEvents _) = True"
| "is_process _ = False"

lemma perform_actions:
  assumes inv: "server_inv s" and doc: "polling_documented env" and tr: "traffic_documented env traffic"
    and ok: "call_sendable c" and call: "perform env c s = Inr (reply, s')"
    and time: "is_process c \<Longrightarrow> time = call_time env s"
  shows "actions env traffic (requests env c s) time s (reply_event reply) s'"
proof (cases c)
  case (TryBindIPv4 port)
  with call tryBind_action(1) [OF tr] show ?thesis
    by (auto simp: udcTryBindIPv4_def bind_r_Inr_iff intro: actions.last)
next
  case (TryBindIPv6 port)
  with call tryBind_action(2) [OF tr] show ?thesis
    by (auto simp: udcTryBindIPv6_def bind_r_Inr_iff intro: actions.last)
next
  case (TryConnectIPv4 ip port timeout)
  with call connect_actions(1) [OF tr, of s ip port "requests env c s"] show ?thesis by simp
next
  case (TryConnectIPv6 ip port timeout)
  with call connect_actions(2) [OF tr, of s ip port "requests env c s"] show ?thesis by simp
next
  case (TryConnect node service timeout)
  with call connect_by_name_actions [OF tr] show ?thesis by simp
next
  case (Disconnect eid)
  with call show ?thesis
    by (auto simp: udcDisconnect_def bind_r_Inr_iff intro!: actions.last action.disconnect)
next
  case (SendMessage eid data n reliability)
  with call ok obtain b where b: "udcSendMessage env s eid data n reliability = Inr (b, s')" "reply = Flag b"
    and data: "sendable data n"
    by (auto simp: bind_r_Inr_iff)
  have "action env traffic (requests env c s) time s None s'"
  proof (cases reliability)
    case UDC_UNRELIABLE_MESSAGE
    with b SendMessage show ?thesis by (intro action.send [OF _ data, of eid]) (simp_all add: udcSendMessage_def)
  next
    case UDC_RELIABLE_MESSAGE
    with b SendMessage show ?thesis by (intro action.queue [OF _ data, of eid]) (simp_all add: udcSendMessage_def)
  qed
  with b show ?thesis by (simp add: actions.last)
next
  case (ProcessEvents fuel)
  with call process_events_actions [OF inv doc tr] time show ?thesis
    by (auto simp: bind_r_Inr_iff)
qed

end
