(* ===== verification/Network.thy ===== *)
theory Network
  imports Traffic
begin

text \<open>
  Channels of datagrams, the messages among their bytes, and for every action of a server its frame: the
  clients it touches, what it sends and what the application reads of it.
\<close>

section \<open>Channels\<close>

text \<open>\<open>carries ch out ch'\<close>: the channel hands over \<open>out\<close>, losing and repeating datagrams meanwhile.\<close>

inductive carries :: "'d list \<Rightarrow> 'd list \<Rightarrow> 'd list \<Rightarrow> bool" where
  idle: "carries ch [] ch"
| take: "carries rest out ch' \<Longrightarrow> carries (d # rest) (d # out) ch'"
| lose: "carries (xs @ ys) out ch' \<Longrightarrow> carries (xs @ d # ys) out ch'"
| again: "carries (xs @ d # d # ys) out ch' \<Longrightarrow> carries (xs @ d # ys) out ch'"

lemma carries_append: "carries ch out ch' \<Longrightarrow> out = a @ b \<Longrightarrow> \<exists>mid. carries ch a mid \<and> carries mid b ch'"
proof (induction arbitrary: a rule: carries.induct)
  case (take rest out ch' d)
  show ?case
  proof (cases a)
    case Nil
    with take show ?thesis by (auto intro: carries.intros)
  next
    case (Cons x a')
    with take.prems have "out = a' @ b" "x = d" by simp_all
    with take.IH [of a'] Cons show ?thesis by (auto intro: carries.take)
  qed
qed (auto intro: carries.intros)

lemma carries_next: "carries ch out ch' \<Longrightarrow> out = d # ds \<Longrightarrow> \<exists>rest. carries ch [] (d # rest) \<and> carries rest ds ch'"
proof (induction rule: carries.induct)
  case (take rest out ch' e)
  then show ?case by (auto intro: carries.idle)
qed (auto intro: carries.intros)

lemma carries_subset: "carries ch out ch' \<Longrightarrow> set ch' \<subseteq> set ch"
  by (induction rule: carries.induct) auto

lemma carries_handed: "carries ch out ch' \<Longrightarrow> set out \<subseteq> set ch"
  by (induction rule: carries.induct) auto

definition sent_to :: "end_point \<Rightarrow> io list \<Rightarrow> byte list list" where
  "sent_to e tr = List.map_filter (\<lambda>x. case x of Sent e' d \<Rightarrow> if e' = e then Some d else None | Got _ _ \<Rightarrow> None) tr"

definition got_from :: "end_point \<Rightarrow> io list \<Rightarrow> byte list list" where
  "got_from e tr = List.map_filter (\<lambda>x. case x of Got e' d \<Rightarrow> if e' = e then Some d else None | Sent _ _ \<Rightarrow> None) tr"

lemma map_filter_append [simp]: "List.map_filter f (xs @ ys) = List.map_filter f xs @ List.map_filter f ys"
  by (simp add: map_filter_def)

lemma io_simps [simp]:
  "sent_to e [] = []" "got_from e [] = []"
  "sent_to e (Sent e' d # tr) = (if e' = e then d # sent_to e tr else sent_to e tr)"
  "sent_to e (Got e' d # tr) = sent_to e tr"
  "got_from e (Got e' d # tr) = (if e' = e then d # got_from e tr else got_from e tr)"
  "got_from e (Sent e' d # tr) = got_from e tr"
  "sent_to e (tr @ tr') = sent_to e tr @ sent_to e tr'"
  "got_from e (tr @ tr') = got_from e tr @ got_from e tr'"
  by (simp_all add: sent_to_def got_from_def map_filter_simps)

section \<open>Messages among the bytes\<close>

fun is_reliable :: "message \<Rightarrow> bool" where
  "is_reliable (Reliable _ _ _) = True"
| "is_reliable _ = False"

fun is_ack :: "message \<Rightarrow> bool" where
  "is_ack (Ack _ _) = True"
| "is_ack _ = False"

fun is_reset :: "message \<Rightarrow> bool" where
  "is_reset (Reset _) = True"
| "is_reset _ = False"

definition messages_of :: "(message \<Rightarrow> bool) \<Rightarrow> UdcSignature \<Rightarrow> byte list list \<Rightarrow> message list" where
  "messages_of P g ds = filter P (List.map_filter (decode g) ds)"

text \<open>No datagram of a list carries a message of a kind.\<close>

definition without :: "(message \<Rightarrow> bool) \<Rightarrow> UdcSignature \<Rightarrow> byte list list \<Rightarrow> bool" where
  "without P g ds \<longleftrightarrow> (\<forall>d\<in>set ds. \<forall>m. decode g d = Some m \<longrightarrow> \<not> P m)"

lemma messages_of_simps [simp]:
  "messages_of P g [] = []"
  "messages_of P g (d # ds) =
     (case decode g d of None \<Rightarrow> [] | Some m \<Rightarrow> if P m then [m] else []) @ messages_of P g ds"
  "messages_of P g (xs @ ys) = messages_of P g xs @ messages_of P g ys"
  by (auto simp: messages_of_def map_filter_simps split: option.split)

lemma without_simps [simp]:
  "without P g []" "without P g (xs @ ys) \<longleftrightarrow> without P g xs \<and> without P g ys"
  "without P g (d # ds) \<longleftrightarrow> (\<forall>m. decode g d = Some m \<longrightarrow> \<not> P m) \<and> without P g ds"
  by (auto simp: without_def)

lemma without_messages: "without P g ds \<Longrightarrow> messages_of P g ds = []"
  by (induction ds) (auto split: option.split)

lemma without_subset: "without P g ds \<Longrightarrow> set ds' \<subseteq> set ds \<Longrightarrow> without P g ds'"
  by (auto simp: without_def)

lemma encode_inject: "encode g m = encode g' m' \<longleftrightarrow> g = g' \<and> m = m'"
proof
  assume e: "encode g m = encode g' m'"
  then have "take 4 (encode g m) = take 4 (encode g' m')" by simp
  then have "signature_bytes g = signature_bytes g'" by (simp add: encode_def)
  then have g: "g = g'" by (cases g; cases g') simp
  with e have "decode g (encode g m') = Some m" by (simp add: decode_eq)
  with g show "g = g' \<and> m = m'" using decode_eq [of g "encode g m'" m'] by simp
qed simp

lemma decode_encode [simp]: "decode g (encode g' m) = Some m' \<longleftrightarrow> g = g' \<and> m = m'"
  unfolding decode_eq encode_inject by auto

lemma decode_encode_same [simp]: "decode g (encode g m) = Some m"
  by simp

text \<open>Loss and repetition on a channel of bytes, seen on the messages it carries.\<close>

lemma carries_messages:
  assumes "carries ch out ch'" and "without P g out"
    and lose: "\<And>xs m ys. R (xs @ m # ys) (xs @ ys)" and rep: "\<And>xs m ys. R (xs @ m # ys) (xs @ m # m # ys)"
  shows "R\<^sup>*\<^sup>* (messages_of P g ch) (messages_of P g ch')"
  using assms(1,2)
proof (induction rule: carries.induct)
  case (take rest out ch' d)
  then show ?case by (auto split: option.split)
next
  case (lose xs ys out ch' d)
  then show ?case
    using assms(3) [of "messages_of P g xs" _ "messages_of P g ys"]
    by (auto split: option.split intro: converse_rtranclp_into_rtranclp)
next
  case (again xs d ys out ch')
  then show ?case
    using assms(4) [of "messages_of P g xs" _ "messages_of P g ys"]
    by (auto split: option.split) (metis converse_rtranclp_into_rtranclp)
qed simp

lemma rtranclp_lift: "(\<lambda>a b. R (f a) (f b))\<^sup>*\<^sup>* x y \<Longrightarrow> R\<^sup>*\<^sup>* (f x) (f y)"
  by (induction rule: rtranclp_induct) (auto intro: rtranclp.rtrancl_into_rtrancl)

section \<open>What a handled datagram does\<close>

definition same_clients :: "'w UdcServerImpl \<Rightarrow> 'w UdcServerImpl \<Rightarrow> bool" where
  "same_clients s s' \<longleftrightarrow> heap s' = heap s \<and> m_clientsById s' = m_clientsById s \<and>
     m_clientsByAddress s' = m_clientsByAddress s \<and> m_pendingClients s' = m_pendingClients s"

lemma same_clients_refl [simp]: "same_clients s s"
  by (simp add: same_clients_def)

lemma transmits_clients: "transmits env a bs s s' \<Longrightarrow> same_clients s s'"
  by (auto simp: transmits_def same_clients_def)

text \<open>
  What the handlers do to the clients: nothing; the client of the sender's address has an answer
  to a ping or a reliable message; the front of the pending queue is connected.
\<close>

definition client_answered :: "bool \<Rightarrow> milliseconds \<Rightarrow> UdcAddressMux \<Rightarrow> 'w UdcServerImpl \<Rightarrow> 'w UdcServerImpl \<Rightarrow> bool" where
  "client_answered acked time a s s' \<longleftrightarrow>
     (\<exists>r c x st. tryGetClientByAddress a s = Some r \<and> heap s r = Some c \<and>
        (st = -1 \<or> acked) \<and>
        heap s' r \<in> {Some (snd (receivePong x time c)), Some (snd (receivePong x time (handshake_client st c)))} \<and>
        heap s' = (heap s)(r := heap s' r) \<and> m_clientsById s' = m_clientsById s \<and>
        m_clientsByAddress s' = m_clientsByAddress s \<and> m_pendingClients s' = m_pendingClients s)"

definition client_connected :: "milliseconds \<Rightarrow> UdcAddressMux \<Rightarrow> 'w UdcServerImpl \<Rightarrow> 'w UdcServerImpl \<Rightarrow> bool" where
  "client_connected time a s s' \<longleftrightarrow>
     (\<exists>r rs c. m_pendingClients s = r # rs \<and> heap s r = Some c \<and> tryGetClientByAddress a s = None \<and>
        heap s' = (heap s)(r \<mapsto> receiveConnectionHandshake time c) \<and>
        m_clientsById s' = (m_clientsById s)(m_id c \<mapsto> r) \<and>
        m_clientsByAddress s' = UdcAddressMap_insert (m_clientsByAddress s) a r \<and> m_pendingClients s' = rs)"

lemma regain_clients:
  "regain b r c s = (event, s') \<Longrightarrow> heap s' = (heap s)(r \<mapsto> c) \<and> m_clientsById s' = m_clientsById s \<and>
     m_clientsByAddress s' = m_clientsByAddress s \<and> m_pendingClients s' = m_pendingClients s \<and>
     m_reliableStates s' = m_reliableStates s \<and> process s' = process s"
  by (auto simp: regain_def store_def Let_def split: if_splits)

lemma emit_frame:
  "emit f s = Inr (e, s') \<Longrightarrow> same_clients s s' \<and> m_reliableStates s' = m_reliableStates s \<and> process s' = process s"
  by (auto simp: emit_Inr same_clients_def)

text \<open>The frame of the nine messages: clients, reliable states, output.\<close>

lemma handle_answer_frame:
  assumes rcv: "received n s = Some m" and len: "unat n \<le> length (m_messageBuffer s)" and inv: "server_inv s"
    and m: "m = Pong t \<or> m = Ack b t \<or> m = ResetAck t"
    and h: "handle_message env time a n s = Inr (event, s')"
  shows "(same_clients s s' \<or> client_answered (is_ack m) time a s s') \<and>
    m_reliableStates s' = m_reliableStates s \<and> process s' = process s"
proof (cases "tryGetClientByAddress a s")
  case None
  with handle_unexpected [OF rcv len m, of a env time] h show ?thesis by simp
next
  case (Some r)
  with server_inv_client(2) [OF inv, of a r] obtain c where c: "heap s r = Some c"
    by (auto simp: tryGetClientByAddress_def)
  obtain st where st: "st = -1 \<or> is_ack m" and
    eq: "handle_message env time a n s = Inr (if time < int (unat t) then (None, s)
         else regain (\<not> m_isConnected c) r (snd (receivePong (int (unat t)) time c)) s) \<or>
      handle_message env time a n s = Inr (if time < int (unat t) then (None, s)
         else regain (\<not> m_isConnected c) r (snd (receivePong (int (unat t)) time (handshake_client st c))) s)"
  proof -
    from m consider "m = Pong t" | "m = ResetAck t" | "m = Ack b t" by blast
    then show thesis
    proof cases
      case 1
      show thesis by (rule that [of "-1"]) (use handle_pong [OF rcv [unfolded 1] len Some c] in simp_all)
    next
      case 2
      show thesis by (rule that [of "-1"]) (use handle_ack [OF rcv _ len Some c, of b t "-1"] 2 in simp_all)
    next
      case 3
      show thesis
        by (rule that [of "bit_state b"]) (use handle_ack [OF rcv _ len Some c, of b t "bit_state b"] 3 in simp_all)
    qed
  qed
  show ?thesis
  proof (cases "time < int (unat t)")
    case True
    with eq h show ?thesis by auto
  next
    case False
    with eq h have "regain (\<not> m_isConnected c) r (snd (receivePong (int (unat t)) time c)) s = (event, s') \<or>
      regain (\<not> m_isConnected c) r (snd (receivePong (int (unat t)) time (handshake_client st c))) s = (event, s')"
      by auto
    then have f: "heap s' r \<in> {Some (snd (receivePong (int (unat t)) time c)),
        Some (snd (receivePong (int (unat t)) time (handshake_client st c)))}"
      "heap s' = (heap s)(r := heap s' r)" "m_clientsById s' = m_clientsById s"
      "m_clientsByAddress s' = m_clientsByAddress s" "m_pendingClients s' = m_pendingClients s"
      "m_reliableStates s' = m_reliableStates s" "process s' = process s"
      by (auto dest: regain_clients)
    then have "client_answered (is_ack m) time a s s'"
      unfolding client_answered_def using Some c st by blast
    with f show ?thesis by simp
  qed
qed

lemma handle_handshake_frame:
  assumes rcv: "received n s = Some (Handshake i)" and len: "unat n \<le> length (m_messageBuffer s)"
    and inv: "server_inv s" and h: "handle_message env time a n s = Inr (event, s')"
  shows "(same_clients s s' \<or> client_connected time a s s') \<and>
    m_reliableStates s' = m_reliableStates s \<and> process s' = process s"
proof (cases "m_pendingClients s")
  case Nil
  with h dispatch_decoded [OF rcv len, of env time a] show ?thesis
    by (auto simp: handle_message_decoded [OF rcv len] processConnectionHandshake_def tryGetFirstPendingClient_def)
next
  case (Cons r rs)
  with server_inv_client(3) [OF inv, of r] obtain c where c: "heap s r = Some c" by auto
  show ?thesis
  proof (cases "m_id c = i \<and> tryGetClientByAddress a s = None")
    case True
    with handle_handshake [OF rcv len Cons c, of env time a] h Cons c show ?thesis
      by (auto simp: client_connected_def Let_def)
  next
    case False
    with handle_handshake [OF rcv len Cons c, of env time a] h show ?thesis by auto
  qed
qed

text \<open>The messages that are answered or only reported.\<close>

lemma handle_reply_frame:
  assumes rcv: "received n s = Some m" and len: "unat n \<le> length (m_messageBuffer s)"
    and m: "\<not> (\<exists>t. m = Pong t \<or> m = ResetAck t \<or> (\<exists>b. m = Ack b t) \<or> m = Handshake t)"
    and tr: "traffic_documented env traffic" and h: "handle_message env time a n s = Inr (event, s')"
  shows "same_clients s s'"
    and "history traffic s' = history traffic s \<or>
      (\<exists>m'. answer m = [m'] \<and>
         history traffic s' = history traffic s @ [Sent (end_point_of a) (encode (m_packetSignature s) m')])"
    and "\<not> (is_reliable m \<or> is_reset m) \<or> end_point_of b \<noteq> end_point_of a \<Longrightarrow>
      UdcAddressMap_find (m_reliableStates s') b = UdcAddressMap_find (m_reliableStates s) b"
proof -
  have tx: "same_clients s1 s2 \<and> m_reliableStates s2 = m_reliableStates s1 \<and>
      (history traffic s2 = history traffic s1 \<or> history traffic s2 = history traffic s1 @ [Sent (end_point_of a) bs])"
    if "transmits env a bs s1 s2" for bs s1 s2
    using transmits_history [OF tr that] transmits_clients [OF that] transmits_keeps(4) [OF that] by simp
  have keeps: "same_clients s (with_reliable_state a v s)" "end_point_of b \<noteq> end_point_of a \<Longrightarrow>
      UdcAddressMap_find (m_reliableStates (with_reliable_state a v s)) b = UdcAddressMap_find (m_reliableStates s) b" for v
    by (simp_all add: with_reliable_state_def same_clients_def address_map.find_insert)
  have all: "same_clients s s' \<and> (history traffic s' = history traffic s \<or>
      (\<exists>m'. answer m = [m'] \<and>
         history traffic s' = history traffic s @ [Sent (end_point_of a) (encode (m_packetSignature s) m')])) \<and>
     (\<not> (is_reliable m \<or> is_reset m) \<or> end_point_of b \<noteq> end_point_of a \<longrightarrow>
      UdcAddressMap_find (m_reliableStates s') b = UdcAddressMap_find (m_reliableStates s) b)"
  proof (cases m)
    case (Request i)
    from ok_r_Inr [OF handle_request [OF rcv [unfolded Request] len] h] show ?thesis
      by (auto simp: Request dest!: tx)
  next
    case (Ping t)
    from ok_r_Inr [OF handle_ping [OF rcv [unfolded Ping] len] h] show ?thesis
      by (auto simp: Ping dest!: tx)
  next
    case (Unreliable d)
    from handle_unreliable [OF rcv [unfolded Unreliable] len, of env time a] h
    have "emit (message_event a 5 (n - 5)) s = Inr (event, s')" by simp
    from emit_frame [OF this] show ?thesis by (simp add: history_def)
  next
    case (Reset t)
    from ok_r_Inr [OF handle_reset [OF rcv [unfolded Reset] len] h] show ?thesis
      using keeps by (auto simp: Reset dest!: tx split: if_splits simp: same_clients_def)
  next
    case (Reliable bt t d)
    from ok_r_Inr [OF handle_reliable [OF rcv [unfolded Reliable] len] h] show ?thesis
      using keeps by (auto simp: Reliable dest!: tx split: if_splits simp: same_clients_def)
  qed (use m in auto)
  show "same_clients s s'" using all by blast
  show "history traffic s' = history traffic s \<or>
      (\<exists>m'. answer m = [m'] \<and>
         history traffic s' = history traffic s @ [Sent (end_point_of a) (encode (m_packetSignature s) m')])"
    using all by blast
  show "\<not> (is_reliable m \<or> is_reset m) \<or> end_point_of b \<noteq> end_point_of a \<Longrightarrow>
      UdcAddressMap_find (m_reliableStates s') b = UdcAddressMap_find (m_reliableStates s) b"
    using all by blast
qed

text \<open>The same for any datagram, whatever it holds.\<close>

definition holds :: "(message \<Rightarrow> bool) \<Rightarrow> u32 \<Rightarrow> 'w UdcServerImpl \<Rightarrow> bool" where
  "holds P n s \<longleftrightarrow> (\<exists>m. received n s = Some m \<and> P m)"

lemma handle_frame:
  assumes inv: "server_inv s" and len: "unat n \<le> length (m_messageBuffer s)"
    and tr: "traffic_documented env traffic" and h: "handle_message env time a n s = Inr (event, s')"
  shows "same_clients s s' \<or> client_answered (holds is_ack n s) time a s s' \<or> client_connected time a s s'"
    and "history traffic s' = history traffic s \<or>
      (\<exists>m m'. received n s = Some m \<and> answer m = [m'] \<and>
         history traffic s' = history traffic s @ [Sent (end_point_of a) (encode (m_packetSignature s) m')])"
    and "\<not> (holds is_reliable n s \<or> holds is_reset n s) \<or> end_point_of b \<noteq> end_point_of a \<Longrightarrow>
      UdcAddressMap_find (m_reliableStates s') b = UdcAddressMap_find (m_reliableStates s) b"
proof -
  have all: "(same_clients s s' \<or> client_answered (holds is_ack n s) time a s s' \<or> client_connected time a s s') \<and>
    (history traffic s' = history traffic s \<or>
      (\<exists>m m'. received n s = Some m \<and> answer m = [m'] \<and>
         history traffic s' = history traffic s @ [Sent (end_point_of a) (encode (m_packetSignature s) m')])) \<and>
    (\<not> (holds is_reliable n s \<or> holds is_reset n s) \<or> end_point_of b \<noteq> end_point_of a \<longrightarrow>
      UdcAddressMap_find (m_reliableStates s') b = UdcAddressMap_find (m_reliableStates s) b)"
  proof (cases "received n s")
    case None
    with handle_message_ignored [OF None inv len, of env time a] h show ?thesis
      by (auto simp: same_clients_def)
  next
    case (Some m)
    then have holds: "holds P n s = P m" for P by (simp add: holds_def)
    consider (handshake) i where "m = Handshake i" | (answer) b t where "m = Pong t \<or> m = Ack b t \<or> m = ResetAck t"
      | (reply) "\<not> (\<exists>t. m = Pong t \<or> m = ResetAck t \<or> (\<exists>b. m = Ack b t) \<or> m = Handshake t)" by blast
    then show ?thesis
    proof cases
      case handshake
      from handle_handshake_frame [OF Some [unfolded handshake] len inv h] show ?thesis by (auto simp: history_def)
    next
      case answer
      from handle_answer_frame [OF Some len inv answer h] show ?thesis by (auto simp: history_def holds)
    next
      case reply
      from handle_reply_frame [OF Some len reply tr h] Some show ?thesis by (simp add: holds)
    qed
  qed
  show "same_clients s s' \<or> client_answered (holds is_ack n s) time a s s' \<or> client_connected time a s s'"
    using all by blast
  show "history traffic s' = history traffic s \<or>
      (\<exists>m m'. received n s = Some m \<and> answer m = [m'] \<and>
         history traffic s' = history traffic s @ [Sent (end_point_of a) (encode (m_packetSignature s) m')])"
    using all by blast
  show "\<not> (holds is_reliable n s \<or> holds is_reset n s) \<or> end_point_of b \<noteq> end_point_of a \<Longrightarrow>
      UdcAddressMap_find (m_reliableStates s') b = UdcAddressMap_find (m_reliableStates s) b"
    using all by blast
qed

section \<open>What the application reads of reliable messages\<close>

text \<open>A message event of the other server at index 9, where the payload of a reliable message starts.\<close>

definition reliable_payload :: "end_point \<Rightarrow> UdcEvent option \<Rightarrow> 'w UdcServerImpl \<Rightarrow> byte list list" where
  "reliable_payload e event s =
     (case event of None \<Rightarrow> []
      | Some ev \<Rightarrow> (case view_of ev of
            ConnectionEvent _ _ \<Rightarrow> []
          | MessageEvent e' i n \<Rightarrow>
              if e' = e \<and> i = msgReliable_SIZE then [read_at (unat i) (unat n) (m_messageBuffer s)] else []))"

lemma view_of_connection [simp]:
  "view_of (e\<lparr>ev_type := UDC_EVENT_CONNECTION_SUCCESS, ev_endPointId := i\<rparr>) = ConnectionEvent UDC_EVENT_CONNECTION_SUCCESS i"
  "view_of (e\<lparr>ev_type := UDC_EVENT_CONNECTION_REGAINED, ev_endPointId := i\<rparr>) = ConnectionEvent UDC_EVENT_CONNECTION_REGAINED i"
  "view_of (e\<lparr>ev_type := UDC_EVENT_CONNECTION_LOST, ev_endPointId := i\<rparr>) = ConnectionEvent UDC_EVENT_CONNECTION_LOST i"
  "view_of (e\<lparr>ev_type := UDC_EVENT_CONNECTION_TIMEOUT, ev_endPointId := i\<rparr>) = ConnectionEvent UDC_EVENT_CONNECTION_TIMEOUT i"
  by (simp_all add: view_of_def)

lemma reliable_payload_simps [simp]:
  "reliable_payload e None s = []"
  "view_of ev = ConnectionEvent ty i \<Longrightarrow> reliable_payload e (Some ev) s = []"
  "reliable_payload e (Some (message_event a 5 k ev)) s = []"
  "end_point_of a \<noteq> e \<Longrightarrow> reliable_payload e (Some (message_event a i k ev)) s = []"
  by (simp_all add: reliable_payload_def view_of_message_event)

lemma reliable_payload_event: "end_point_of a = e \<Longrightarrow>
    reliable_payload e (Some (message_event a 9 k ev)) s = event_payload (Some (message_event a 9 k ev)) s"
  by (simp add: reliable_payload_def event_payload_def view_of_message_event)

lemma regain_payload: "regain b r c s = (event, s') \<Longrightarrow> reliable_payload e event s'' = []"
  by (auto simp: regain_def connection_event_def Let_def split: if_splits)

lemma handle_payload:
  assumes inv: "server_inv s" and len: "unat n \<le> length (m_messageBuffer s)"
    and h: "handle_message env time a n s = Inr (event, s')"
  shows "\<not> holds is_reliable n s \<or> end_point_of a \<noteq> e \<Longrightarrow> reliable_payload e event s' = []"
    and "received n s = Some (Reliable b t d) \<Longrightarrow> end_point_of a = e \<Longrightarrow>
      reliable_payload e event s' = event_payload event s'"
proof -
  show "reliable_payload e event s' = []" if none: "\<not> holds is_reliable n s \<or> end_point_of a \<noteq> e"
  proof (cases "received n s")
    case None
    with handle_message_ignored [OF None inv len, of env time a] h show ?thesis by simp
  next
    case (Some m)
    show ?thesis
    proof (cases m)
      case (Request i)
      from ok_r_Inr [OF handle_request [OF Some [unfolded Request] len] h] show ?thesis by simp
    next
      case (Ping i)
      from ok_r_Inr [OF handle_ping [OF Some [unfolded Ping] len] h] show ?thesis by simp
    next
      case (Unreliable d)
      from handle_unreliable [OF Some [unfolded Unreliable] len, of env time a] h show ?thesis
        by (auto simp: emit_def)
    next
      case (Reset t)
      from ok_r_Inr [OF handle_reset [OF Some [unfolded Reset] len] h] show ?thesis by simp
    next
      case (Reliable b t d)
      with none Some have "end_point_of a \<noteq> e" by (simp add: holds_def)
      with ok_r_Inr [OF handle_reliable [OF Some [unfolded Reliable] len] h] show ?thesis
        by (auto split: if_splits)
    next
      case (Handshake i)
      then show ?thesis
        using dispatch_decoded [OF Some len, of env time a] h
        by (auto simp: handle_message_decoded [OF Some len] processConnectionHandshake_def bind_r_Inr_iff
            emit_def Let_def split: option.splits if_splits)
    next
      case (Pong t)
      then show ?thesis
        using dispatch_decoded [OF Some len, of env time a] h
        by (auto simp: handle_message_decoded [OF Some len] processPong_def bind_r_Inr_iff
            emit_def Let_def case_prod_beta split: option.splits if_splits)
    next
      case (ResetAck t)
      then show ?thesis
        using dispatch_decoded [OF Some len, of env time a] h
        by (auto simp: handle_message_decoded [OF Some len] processReliableHandshake_def bind_r_Inr_iff
            emit_def Let_def case_prod_beta split: option.splits if_splits)
    next
      case (Ack b t)
      then show ?thesis
        using dispatch_decoded [OF Some len, of env time a] h
        by (auto simp: handle_message_decoded [OF Some len] processReliableHandshake_def bind_r_Inr_iff
            emit_def Let_def case_prod_beta split: option.splits if_splits)
    qed
  qed
  show "reliable_payload e event s' = event_payload event s'"
    if rcv: "received n s = Some (Reliable b t d)" and e: "end_point_of a = e"
    using ok_r_Inr [OF handle_reliable [OF rcv len] h]
    by (auto simp: event_payload_def reliable_payload_event [OF e] split: if_splits)
qed

section \<open>What a server sends on its own\<close>

definition emits :: "('w \<Rightarrow> io list) \<Rightarrow> 'w UdcServerImpl \<Rightarrow> (end_point \<times> message) set \<Rightarrow> 'w UdcServerImpl \<Rightarrow> bool" where
  "emits traffic s X s' \<longleftrightarrow> history traffic s' = history traffic s \<or>
     (\<exists>g e m. (e, m) \<in> X \<and> history traffic s' = history traffic s @ [Sent e (encode g m)])"

lemma emits_same: "history traffic s' = history traffic s \<Longrightarrow> emits traffic s X s'"
  by (simp add: emits_def)

lemma emits_transmits:
  "traffic_documented env traffic \<Longrightarrow> transmits env a (encode g m) s0 s1 \<Longrightarrow>
   history traffic s0 = history traffic s \<Longrightarrow> history traffic s' = history traffic s1 \<Longrightarrow>
   (end_point_of a, m) \<in> X \<Longrightarrow> emits traffic s X s'"
  using transmits_history [of env traffic a "encode g m" s0 s1] by (auto simp: emits_def)

lemma stamped_exists:
  assumes "server_inv s"
  shows "\<exists>g. stamped g s"
proof -
  have "length (read_at 0 4 (m_messageBuffer s)) = 4"
    using server_inv_buffer(3) [OF assms] by simp
  then obtain a b c d where "read_at 0 4 (m_messageBuffer s) = [a, b, c, d]"
    by (auto simp: length_Suc_conv numeral_eq_Suc)
  then have "stamped (UdcSignature a b c d) s" by (simp add: stamped_def)
  then show ?thesis by blast
qed

lemma pending_frame:
  assumes inv: "server_inv s" and tr: "traffic_documented env traffic"
    and call: "updatePendingClients env time s = Inr (event, s')"
  shows "emits traffic s {(e, m). \<exists>i. m = Request i} s'"
    and "m_clientsById s' = m_clientsById s" "m_clientsByAddress s' = m_clientsByAddress s"
    "m_reliableStates s' = m_reliableStates s" "reliable_payload e event s'' = []"
    "set (m_pendingClients s') \<subseteq> set (m_pendingClients s)"
    "\<exists>r c. heap s' = heap s \<or> r \<in> set (m_pendingClients s) \<and> heap s r = Some c \<and>
       heap s' = (heap s)(r \<mapsto> retryConnecting time c)"
proof -
  have all: "emits traffic s {(e, m). \<exists>i. m = Request i} s' \<and> m_clientsById s' = m_clientsById s \<and>
    m_clientsByAddress s' = m_clientsByAddress s \<and> m_reliableStates s' = m_reliableStates s \<and>
    reliable_payload e event s'' = [] \<and> set (m_pendingClients s') \<subseteq> set (m_pendingClients s) \<and>
    (\<exists>r c. heap s' = heap s \<or> r \<in> set (m_pendingClients s) \<and> heap s r = Some c \<and>
       heap s' = (heap s)(r \<mapsto> retryConnecting time c))"
  proof (cases "m_pendingClients s")
    case Nil
    with call show ?thesis by (auto simp: updatePendingClients_def tryGetFirstPendingClient_def emits_same)
  next
    case (Cons r rs)
    with server_inv_client(3) [OF inv, of r] obtain c where c: "heap s r = Some c" by auto
    obtain g where g: "stamped g s" using stamped_exists [OF inv] by blast
    from ok_r_Inr [OF updatePendingClients_effect [OF inv g Cons c] call]
    show ?thesis
    proof (cases "needsConnectionTimeoutEvent c time \<or> \<not> needsConnectionAttempt c time")
      case True
      with ok_r_Inr [OF updatePendingClients_effect [OF inv g Cons c] call] Cons show ?thesis
        by (auto simp: emits_same split: if_splits)
    next
      case False
      with ok_r_Inr [OF updatePendingClients_effect [OF inv g Cons c] call] have event: "event = None"
        and t: "transmits env (m_outgoingAddress c) (encode g (Request (m_id c))) (store r (retryConnecting time c) s) s'"
        by auto
      from emits_transmits [OF tr t] have "emits traffic s {(e, m). \<exists>i. m = Request i} s'" by simp
      with event transmits_keeps [OF t] Cons c show ?thesis by (auto simp: store_def)
    qed
  qed
  then show "emits traffic s {(e, m). \<exists>i. m = Request i} s'"
    and "m_clientsById s' = m_clientsById s" "m_clientsByAddress s' = m_clientsByAddress s"
    "m_reliableStates s' = m_reliableStates s" "reliable_payload e event s'' = []"
    "set (m_pendingClients s') \<subseteq> set (m_pendingClients s)"
    "\<exists>r c. heap s' = heap s \<or> r \<in> set (m_pendingClients s) \<and> heap s r = Some c \<and>
       heap s' = (heap s)(r \<mapsto> retryConnecting time c)"
    by blast+
qed

lemma reliable_frame:
  assumes inv: "server_inv s" and tr: "traffic_documented env traffic" and c: "heap s r = Some c"
    and call: "update_reliable env time r s = Inr s'"
  shows "emits traffic s {(end_point_of (m_outgoingAddress c), m) | m. transmission time c = Some m} s'"
    and "m_clientsById s' = m_clientsById s" "m_clientsByAddress s' = m_clientsByAddress s"
    "m_reliableStates s' = m_reliableStates s" "m_pendingClients s' = m_pendingClients s"
    "heap s' = (heap s)(r \<mapsto> after_transmission time c)"
proof -
  obtain g where g: "stamped g s" using stamped_exists [OF inv] by blast
  from ok_r_Inr [OF update_reliable_effect [OF inv g c] call] obtain s1 where
    s1: "case transmission time c of None \<Rightarrow> s1 = s
       | Some m \<Rightarrow> transmits env (m_outgoingAddress c) (encode g m) s s1"
    and s': "s' = store r (after_transmission time c) s1" by blast
  show "emits traffic s {(end_point_of (m_outgoingAddress c), m) | m. transmission time c = Some m} s'"
    using s1 unfolding s'
    by (auto split: option.splits intro: emits_same emits_transmits [OF tr])
  show "m_clientsById s' = m_clientsById s" "m_clientsByAddress s' = m_clientsByAddress s"
    "m_reliableStates s' = m_reliableStates s" "m_pendingClients s' = m_pendingClients s"
    "heap s' = (heap s)(r \<mapsto> after_transmission time c)"
    using s1 unfolding s' by (auto simp: store_def transmits_keeps split: option.splits)
qed

lemma ping_frame:
  assumes inv: "server_inv s" and tr: "traffic_documented env traffic" and c: "heap s r = Some c"
    and call: "update_ping env time r s = Inr s'"
  shows "emits traffic s {(e, m). \<exists>t. m = Ping t} s'" and "same_clients s s'" "m_reliableStates s' = m_reliableStates s"
proof -
  obtain g where g: "stamped g s" using stamped_exists [OF inv] by blast
  from ok_r_Inr [OF update_ping_effect [OF inv g c] call]
  have t: "s' = s \<or> transmits env (m_outgoingAddress c) (encode g (Ping (word_of_int time))) s s'"
    by (auto split: if_splits)
  then show "emits traffic s {(e, m). \<exists>t. m = Ping t} s'"
    by (auto intro: emits_same emits_transmits [OF tr])
  show "same_clients s s'" "m_reliableStates s' = m_reliableStates s"
    using t by (auto simp: transmits_keeps dest: transmits_clients)
qed

lemma lost_frame:
  assumes c: "heap s r = Some c" and call: "update_lost time r s = Inr (event, s')"
  shows "history traffic s' = history traffic s" "m_clientsById s' = m_clientsById s"
    "m_clientsByAddress s' = m_clientsByAddress s" "m_reliableStates s' = m_reliableStates s"
    "m_pendingClients s' = m_pendingClients s" "reliable_payload e event s'' = []"
    "heap s' \<in> {heap s, (heap s)(r \<mapsto> setConnectionLost c)}"
  using call
  by (auto simp: update_lost_def deref_Some [OF c] emit_Inr store_def history_def split: if_splits)

lemma unreliable_frame:
  assumes inv: "server_inv s" and tr: "traffic_documented env traffic" and ok: "sendable data n"
    and call: "sendUnreliableMessage env eid data n s = Inr (b, s')"
  shows "emits traffic s {(e, m). \<exists>d. m = Unreliable d} s'" and "same_clients s s'" "m_reliableStates s' = m_reliableStates s"
proof -
  have sz: "unat (5 + n) = 5 + unat n"
    using ok by (intro unat_add_lem [THEN iffD1, of 5 n, simplified]) (simp add: sendable_def)
  have all: "emits traffic s {(e, m). \<exists>d. m = Unreliable d} s' \<and> same_clients s s' \<and> m_reliableStates s' = m_reliableStates s"
  proof (cases "s' = s")
    case True
    then show ?thesis by (simp add: emits_same)
  next
    case False
    with call obtain r c where r: "m_clientsById s eid = Some r" and c: "heap s r = Some c" and conn: "m_isConnected c"
      and le: "\<not> n + 5 > m_messageBufferSize s"
      by (auto simp: sendUnreliableMessage_def bind_r_Inr_iff tryGetClientById_def deref_def connected_def
          split: if_splits option.splits)
    obtain g where g: "stamped g s" using stamped_exists [OF inv] by blast
    have "5 + unat n \<le> unat (m_messageBufferSize s)"
      using le sz by (simp add: word_less_nat_alt not_less add.commute)
    from ok_r_Inr [OF sendUnreliableMessage_effect [OF inv g r c this _ conn] call] ok
    have t: "transmits env (m_outgoingAddress c) (encode g (Unreliable (take (unat n) data))) s s'"
      by (simp add: sendable_def)
    from emits_transmits [OF tr t] have "emits traffic s {(e, m). \<exists>d. m = Unreliable d} s'" by simp
    with transmits_clients [OF t] transmits_keeps(4) [OF t] show ?thesis by simp
  qed
  then show "emits traffic s {(e, m). \<exists>d. m = Unreliable d} s'" and "same_clients s s'" "m_reliableStates s' = m_reliableStates s"
    by blast+
qed

section \<open>Queueing and disconnecting\<close>

lemma queue_frame:
  assumes "sendReliableMessage eid data n s = Inr (b, s')"
  shows "history traffic s' = history traffic s" "m_reliableStates s' = m_reliableStates s"
    "m_clientsById s' = m_clientsById s" "m_clientsByAddress s' = m_clientsByAddress s"
    "m_pendingClients s' = m_pendingClients s"
    "heap s' = heap s \<or> (\<exists>r c. m_clientsById s eid = Some r \<and> heap s r = Some c \<and>
       heap s' = (heap s)(r \<mapsto> reliableMessages_push (take (unat n) data) c))"
  using assms
  by (auto simp: sendReliableMessage_def bind_r_Inr_iff tryGetClientById_def deref_def store_def history_def
      split: if_splits option.splits)

lemma disconnect_frame:
  assumes "server_inv s" and "disconnectFromClient eid s = Inr s'"
  shows "history traffic s' = history traffic s" "m_reliableStates s' = m_reliableStates s" "heap s' = heap s"
    "set (m_pendingClients s') \<subseteq> set (m_pendingClients s)"
    "m_clientsById s' = (m_clientsById s)(eid := None)"
    "m_clientsByAddress s' = m_clientsByAddress s \<or> (\<exists>r c. m_clientsById s eid = Some r \<and> heap s r = Some c \<and>
       m_clientsByAddress s' = UdcAddressMap_erase (m_clientsByAddress s) (m_outgoingAddress c))"
proof -
  have dom: "set (m_pendingClients s) \<subseteq> dom (heap s)" using assms(1) by (auto simp: inv_defs)
  show "history traffic s' = history traffic s" "m_reliableStates s' = m_reliableStates s" "heap s' = heap s"
    "set (m_pendingClients s') \<subseteq> set (m_pendingClients s)"
    "m_clientsById s' = (m_clientsById s)(eid := None)"
    "m_clientsByAddress s' = m_clientsByAddress s \<or> (\<exists>r c. m_clientsById s eid = Some r \<and> heap s r = Some c \<and>
       m_clientsByAddress s' = UdcAddressMap_erase (m_clientsByAddress s) (m_outgoingAddress c))"
    using assms(2)
    by (auto simp: disconnectFromClient_def erase_pending_eq [OF dom] bind_r_Inr_iff deref_def history_def
        fun_upd_idem split: option.splits)
qed

section \<open>Events\<close>

text \<open>
  An event that refers to what it should: a connection event to a client object with its id, which after a
  success or a loss is filed under the id and is connected or not; a message event to bytes
  inside the message buffer, behind one of the two headers.
\<close>

definition event_ok :: "'w UdcServerImpl \<Rightarrow> UdcEvent \<Rightarrow> bool" where
  "event_ok s e \<longleftrightarrow>
     (case view_of e of
        ConnectionEvent ty i \<Rightarrow>
          ty \<le> UDC_EVENT_CONNECTION_REGAINED \<and>
          (\<exists>r c. heap s r = Some c \<and> m_id c = i \<and>
             (ty \<in> {UDC_EVENT_CONNECTION_SUCCESS, UDC_EVENT_CONNECTION_LOST} \<longrightarrow> m_clientsById s i = Some r) \<and>
             (ty \<in> {UDC_EVENT_CONNECTION_SUCCESS, UDC_EVENT_CONNECTION_REGAINED} \<longrightarrow> m_isConnected c) \<and>
             (ty = UDC_EVENT_CONNECTION_LOST \<longrightarrow> \<not> m_isConnected c))
      | MessageEvent a i k \<Rightarrow> i \<in> {5, 9} \<and> unat i + unat k \<le> length (m_messageBuffer s))"

lemma event_ok_message:
  assumes "unat n = h + length d" and "h = unat i" and "i \<in> {5, 9}" and "unat n \<le> length (m_messageBuffer s)"
  shows "event_ok s (message_event a i (n - i) ev)"
proof -
  have "i \<le> n" using assms(1,2) by (simp add: word_le_nat_alt)
  then have "unat (n - i) = unat n - unat i" by (rule unat_sub)
  with assms show ?thesis by (auto simp: event_ok_def view_of_message_event)
qed

lemma event_type_le [simp]: "ty \<le> UDC_EVENT_CONNECTION_REGAINED \<longleftrightarrow>
    ty \<in> {UDC_EVENT_CONNECTION_SUCCESS, UDC_EVENT_CONNECTION_TIMEOUT, UDC_EVENT_CONNECTION_LOST, UDC_EVENT_CONNECTION_REGAINED}"
  by (cases ty) (simp_all add: less_eq_UdcEventType_def)

lemma regain_event_ok:
  assumes "regain b r c s = (Some e, s')" and "m_isConnected c"
  shows "event_ok s' e"
  using assms by (auto simp: regain_def event_ok_def connection_event_def Let_def store_def split: if_splits)

lemma handle_event_ok:
  assumes inv: "server_inv s" and len: "unat n \<le> length (m_messageBuffer s)"
    and h: "handle_message env time a n s = Inr (Some e, s')"
  shows "event_ok s' e"
proof (cases "received n s")
  case None
  with handle_message_ignored [OF None inv len, of env time a] h show ?thesis by simp
next
  case (Some m)
  have keep: "length (m_messageBuffer s') = length (m_messageBuffer s)"
    using handle_message_safe [OF inv, of env time a n] len h by (simp add: kept_def)
  show ?thesis
  proof (cases m)
    case (Request i)
    from ok_r_Inr [OF handle_request [OF Some [unfolded Request] len] h] show ?thesis by simp
  next
    case (Ping i)
    from ok_r_Inr [OF handle_ping [OF Some [unfolded Ping] len] h] show ?thesis by simp
  next
    case (Reset t)
    from ok_r_Inr [OF handle_reset [OF Some [unfolded Reset] len] h] show ?thesis by simp
  next
    case (Unreliable d)
    from handle_unreliable [OF Some [unfolded Unreliable] len, of env time a] h
    have e: "e = message_event a 5 (n - 5) (m_eventBuffer s)" by (auto simp: emit_def)
    show ?thesis
      unfolding e by (rule event_ok_message [of _ 5 d]) (use received_size(1) [OF Some len] keep len Unreliable in simp_all)
  next
    case (Reliable b t d)
    from ok_r_Inr [OF handle_reliable [OF Some [unfolded Reliable] len] h]
    have e: "e = message_event a 9 (n - 9) (m_eventBuffer s)" by (auto split: if_splits)
    show ?thesis
      unfolding e by (rule event_ok_message [of _ 9 d]) (use received_size(1) [OF Some len] keep len Reliable in simp_all)
  next
    case (Handshake i)
    show ?thesis
    proof (cases "m_pendingClients s")
      case Nil
      with h dispatch_decoded [OF Some len, of env time a] show ?thesis
        by (auto simp: Handshake handle_message_decoded [OF Some len] processConnectionHandshake_def tryGetFirstPendingClient_def)
    next
      case (Cons r rs)
      with server_inv_client(3) [OF inv, of r] obtain c where c: "heap s r = Some c" by auto
      from handle_handshake [OF Some [unfolded Handshake] len Cons c, of env time a] h show ?thesis
        by (auto simp: event_ok_def connection_event_def Let_def receiveConnectionHandshake_def split: if_splits)
    qed
  next
    case (Pong t)
    show ?thesis
    proof (cases "tryGetClientByAddress a s")
      case None
      with handle_unexpected [OF Some len, of t False a env time] h Pong show ?thesis by simp
    next
      case r: (Some r)
      with server_inv_client(2) [OF inv, of a r] obtain c where c: "heap s r = Some c" by (auto simp: tryGetClientByAddress_def)
      from handle_pong [OF Some [unfolded Pong] len r c, of env time] h show ?thesis
        by (auto intro!: regain_event_ok simp: receivePong_def Let_def split: if_splits)
    qed
  next
    case (ResetAck t)
    show ?thesis
    proof (cases "tryGetClientByAddress a s")
      case None
      with handle_unexpected [OF Some len, of t False a env time] h ResetAck show ?thesis by simp
    next
      case r: (Some r)
      with server_inv_client(2) [OF inv, of a r] obtain c where c: "heap s r = Some c" by (auto simp: tryGetClientByAddress_def)
      from handle_ack [OF Some _ len r c, of False t "-1" env time] h ResetAck show ?thesis
        by (auto intro!: regain_event_ok simp: receivePong_def Let_def split: if_splits)
    qed
  next
    case (Ack b t)
    show ?thesis
    proof (cases "tryGetClientByAddress a s")
      case None
      with handle_unexpected [OF Some len, of t b a env time] h Ack show ?thesis by simp
    next
      case r: (Some r)
      with server_inv_client(2) [OF inv, of a r] obtain c where c: "heap s r = Some c" by (auto simp: tryGetClientByAddress_def)
      from handle_ack [OF Some _ len r c, of b t "bit_state b" env time] h Ack show ?thesis
        by (auto intro!: regain_event_ok simp: receivePong_def Let_def split: if_splits)
    qed
  qed
qed

lemma action_event_ok:
  assumes "action env traffic Q time s event s'" and inv: "server_inv s" and e: "event = Some e"
  shows "event_ok s' e"
  using assms(1)
proof cases
  case (message s1 buf mux p n a)
  have "server_inv s1" "unat n \<le> length (m_messageBuffer s1)"
    using message(1-3) by (simp_all add: server_inv_received [OF inv])
  from handle_event_ok [OF this] message(5) e show ?thesis by simp
next
  case pending
  show ?thesis
  proof (cases "m_pendingClients s")
    case Nil
    with pending e show ?thesis by (auto simp: updatePendingClients_def tryGetFirstPendingClient_def)
  next
    case (Cons r rs)
    with server_inv_client(3) [OF inv, of r] obtain c where c: "heap s r = Some c" by auto
    obtain g where g: "stamped g s" using stamped_exists [OF inv] by blast
    from ok_r_Inr [OF updatePendingClients_effect [OF inv g Cons c] pending] e c show ?thesis
      by (auto simp: event_ok_def split: if_splits)
  qed
next
  case (lost i r)
  from lost obtain c where c: "heap s r = Some c" using referenced [OF inv] by blast
  with lost server_inv_client(1) [OF inv, of i r] e show ?thesis
    by (auto simp: event_ok_def update_lost_def deref_Some [OF c] emit_Inr store_def setConnectionLost_def split: if_splits)
qed (use e in auto)

lemma actions_event_ok:
  "actions env traffic Q time s event s' \<Longrightarrow> server_inv s \<Longrightarrow> event = Some e \<Longrightarrow> event_ok s' e"
proof (induction rule: actions.induct)
  case (last s event s')
  then show ?case by (blast intro: action_event_ok)
next
  case (cons s s1 event s')
  then show ?case using action_inv [OF cons(1)] by blast
qed simp

end
