(* ===== verification/Filing.thy ===== *)
theory Filing
  imports Network
begin

text \<open>
  How client objects are filed, in every reachable state: by rule induction over the reachable states, each call
  being a sequence of actions and each action having its frame.
\<close>

section \<open>Each client is filed once\<close>

text \<open>
  A client object waits once in the pending queue or is connected, never both, and is filed under at most one id
  and one end point.
\<close>

definition filed_once :: "'w UdcServerImpl \<Rightarrow> bool" where
  "filed_once s \<longleftrightarrow> distinct (m_pendingClients s) \<and>
     set (m_pendingClients s) \<inter> (ran (m_clientsById s) \<union> ran (map_of_nodes (m_clientsByAddress s))) = {} \<and>
     inj_on (m_clientsById s) (dom (m_clientsById s)) \<and>
     inj_on (map_of_nodes (m_clientsByAddress s)) (dom (map_of_nodes (m_clientsByAddress s)))"

lemma filed_onceD:
  assumes "filed_once s"
  shows "r \<in> set (m_pendingClients s) \<Longrightarrow> m_clientsById s i \<noteq> Some r"
    and "r \<in> set (m_pendingClients s) \<Longrightarrow> map_of_nodes (m_clientsByAddress s) e \<noteq> Some r"
    and "m_clientsById s i = Some r \<Longrightarrow> m_clientsById s j = Some r \<Longrightarrow> i = j"
    and "map_of_nodes (m_clientsByAddress s) e = Some r \<Longrightarrow> map_of_nodes (m_clientsByAddress s) e' = Some r \<Longrightarrow> e = e'"
proof -
  have sep: "set (m_pendingClients s) \<inter> (ran (m_clientsById s) \<union> ran (map_of_nodes (m_clientsByAddress s))) = {}"
    and inj: "inj_on (m_clientsById s) (dom (m_clientsById s))"
      "inj_on (map_of_nodes (m_clientsByAddress s)) (dom (map_of_nodes (m_clientsByAddress s)))"
    using assms by (simp_all add: filed_once_def)
  show "r \<in> set (m_pendingClients s) \<Longrightarrow> m_clientsById s i \<noteq> Some r"
    and "r \<in> set (m_pendingClients s) \<Longrightarrow> map_of_nodes (m_clientsByAddress s) e \<noteq> Some r"
    using sep ranI by fastforce+
  show "m_clientsById s i = Some r \<Longrightarrow> m_clientsById s j = Some r \<Longrightarrow> i = j"
    using inj(1) by (simp add: inj_onD domI)
  show "map_of_nodes (m_clientsByAddress s) e = Some r \<Longrightarrow> map_of_nodes (m_clientsByAddress s) e' = Some r \<Longrightarrow> e = e'"
    using inj(2) by (simp add: inj_onD domI)
qed

lemma filed_once_cong:
  assumes "filed_once s" and "m_clientsById s' = m_clientsById s" and "m_clientsByAddress s' = m_clientsByAddress s"
    and "distinct (m_pendingClients s')" and "set (m_pendingClients s') \<subseteq> set (m_pendingClients s)"
  shows "filed_once s'"
  using assms by (auto simp: filed_once_def)

lemma filed_once_same: "same_clients s s' \<Longrightarrow> filed_once s' = filed_once s"
  by (simp add: same_clients_def filed_once_def)

lemma inj_on_insert_fresh:
  "inj_on m (dom m) \<Longrightarrow> r \<notin> ran m \<Longrightarrow> inj_on (m(k \<mapsto> r)) (dom (m(k \<mapsto> r)))"
  by (auto simp: inj_on_def ran_def)

lemma inj_on_remove: "inj_on m (dom m) \<Longrightarrow> inj_on (m(k := None)) (dom (m(k := None)))"
  by (auto simp: inj_on_def)

lemma filed_once_connected:
  assumes once: "filed_once s" and conn: "client_connected time a s s'"
  shows "filed_once s'"
proof -
  from conn obtain r rs and c :: UdcClient where p: "m_pendingClients s = r # rs"
    and ids: "m_clientsById s' = (m_clientsById s)(m_id c \<mapsto> r)"
    and ins: "m_clientsByAddress s' = UdcAddressMap_insert (m_clientsByAddress s) a r"
    and p': "m_pendingClients s' = rs"
    unfolding client_connected_def by blast
  have addrs: "map_of_nodes (m_clientsByAddress s') = (map_of_nodes (m_clientsByAddress s))(end_point_of a \<mapsto> r)"
    by (simp add: ins map_of_nodes_insert)
  have fresh: "r \<notin> ran (m_clientsById s)" "r \<notin> ran (map_of_nodes (m_clientsByAddress s))" "r \<notin> set rs"
    using once p by (auto simp: filed_once_def)
  have "ran (m_clientsById s') \<subseteq> insert r (ran (m_clientsById s))"
    "ran (map_of_nodes (m_clientsByAddress s')) \<subseteq> insert r (ran (map_of_nodes (m_clientsByAddress s)))"
    unfolding ids addrs by (auto simp: ran_def)
  moreover have "inj_on (m_clientsById s') (dom (m_clientsById s'))"
    "inj_on (map_of_nodes (m_clientsByAddress s')) (dom (map_of_nodes (m_clientsByAddress s')))"
    unfolding ids addrs using once fresh by (blast intro: inj_on_insert_fresh dest: filed_once_def [THEN iffD1])+
  ultimately show ?thesis using once p p' fresh unfolding filed_once_def by auto
qed

lemma filed_once_answered:
  assumes "filed_once s" and "client_answered acked time a s s'"
  shows "filed_once s'"
proof -
  from assms(2) have "m_clientsById s' = m_clientsById s" "m_clientsByAddress s' = m_clientsByAddress s"
    "m_pendingClients s' = m_pendingClients s"
    by (auto simp: client_answered_def)
  with assms(1) show ?thesis by (simp add: filed_once_def)
qed

lemma filed_once_disconnected:
  assumes inv: "server_inv s" and once: "filed_once s" and call: "disconnectFromClient i s = Inr s'"
  shows "filed_once s'"
proof -
  have "set (m_pendingClients s) \<subseteq> dom (heap s)" using inv by (auto simp: inv_defs)
  note pend = erase_pending_eq [OF this, of i]
  from call have "m_clientsById s i = None \<and> s' = s\<lparr>m_pendingClients := filter (\<lambda>r. object_ids s r \<noteq> Some i) (m_pendingClients s)\<rparr> \<or>
    (\<exists>c :: UdcClient. s' = s\<lparr>m_clientsByAddress := UdcAddressMap_erase (m_clientsByAddress s) (m_outgoingAddress c),
       m_clientsById := (m_clientsById s)(i := None)\<rparr>)"
    by (auto simp: disconnectFromClient_def pend bind_r_Inr_iff split: option.splits)
  then show ?thesis
  proof (elim disjE exE conjE)
    assume "s' = s\<lparr>m_pendingClients := filter (\<lambda>r. object_ids s r \<noteq> Some i) (m_pendingClients s)\<rparr>"
    with once show ?thesis by (intro filed_once_cong [OF once]) (auto simp: filed_once_def)
  next
    fix c :: UdcClient
    assume "s' = s\<lparr>m_clientsByAddress := UdcAddressMap_erase (m_clientsByAddress s) (m_outgoingAddress c),
       m_clientsById := (m_clientsById s)(i := None)\<rparr>"
    then have s': "m_pendingClients s' = m_pendingClients s" "m_clientsById s' = (m_clientsById s)(i := None)"
      "map_of_nodes (m_clientsByAddress s') = (map_of_nodes (m_clientsByAddress s))(end_point_of (m_outgoingAddress c) := None)"
      by (simp_all add: map_of_nodes_erase)
    show ?thesis
      using once ran_upd_None_subset [of "m_clientsById s" i]
        ran_upd_None_subset [of "map_of_nodes (m_clientsByAddress s)" "end_point_of (m_outgoingAddress c)"]
        inj_on_remove [of "m_clientsById s" i]
        inj_on_remove [of "map_of_nodes (m_clientsByAddress s)" "end_point_of (m_outgoingAddress c)"]
      unfolding filed_once_def s' by auto
  qed
qed

lemma action_filed_once:
  assumes act: "action env traffic Q time s event s'" and inv: "server_inv s"
    and tr: "traffic_documented env traffic" and once: "filed_once s"
  shows "filed_once s'"
  using act
proof cases
  case (internal buf mux p)
  with once show ?thesis by (simp add: filed_once_def)
next
  case (message s1 buf mux p n a)
  have "server_inv s1" "unat n \<le> length (m_messageBuffer s1)" "filed_once s1"
    using message(1-3) once by (simp_all add: server_inv_received [OF inv], simp add: filed_once_def)
  with handle_frame(1) [OF _ _ tr message(5)] show ?thesis
    by (blast intro: filed_once_connected filed_once_answered filed_once_same [THEN iffD2])
next
  case pending
  have "distinct (m_pendingClients s')"
  proof (cases "m_pendingClients s")
    case Nil
    with pending_frame(6) [OF inv tr pending] show ?thesis by simp
  next
    case (Cons r rs)
    with server_inv_client(3) [OF inv, of r] obtain c where c: "heap s r = Some c" by auto
    obtain g where g: "stamped g s" using stamped_exists [OF inv] by blast
    from ok_r_Inr [OF updatePendingClients_effect [OF inv g Cons c] pending] Cons once show ?thesis
      by (auto simp: filed_once_def transmits_keeps store_def split: if_splits)
  qed
  with pending_frame(2,3,6) [OF inv tr pending] show ?thesis by (intro filed_once_cong [OF once])
next
  case (reliable i r)
  then obtain c where c: "heap s r = Some c" using referenced [OF inv] by blast
  from reliable_frame(2,3,5) [OF inv tr c reliable(3)] once show ?thesis by (simp add: filed_once_def)
next
  case (ping i r)
  then obtain c where c: "heap s r = Some c" using referenced [OF inv] by blast
  from ping_frame(2) [OF inv tr c ping(3)] once show ?thesis by (simp add: filed_once_same)
next
  case (lost i r)
  then obtain c where c: "heap s r = Some c" using referenced [OF inv] by blast
  from lost_frame(2,3,5) [OF c lost(2)] once show ?thesis by (simp add: filed_once_def)
next
  case (connect address timeout start)
  have "set (m_pendingClients s) \<union> ran (m_clientsById s) \<union> ran (map_of_nodes (m_clientsByAddress s)) \<subseteq> dom (heap s)"
    and "heap_next s \<notin> dom (heap s)"
    using inv by (auto simp: inv_defs)
  with once connect show ?thesis by (auto simp: filed_once_def with_pending_def)
next
  case (disconnect i)
  from filed_once_disconnected [OF inv once disconnect(3)] show ?thesis .
next
  case (queue i data n b)
  from queue_frame(3,4,5) [OF queue(4)] once show ?thesis by (simp add: filed_once_def)
next
  case (send i data n b)
  from unreliable_frame(2) [OF inv tr send(3,4)] once show ?thesis by (simp add: filed_once_same)
qed

lemma actions_filed_once:
  "actions env traffic Q time s event s' \<Longrightarrow> server_inv s \<Longrightarrow> traffic_documented env traffic \<Longrightarrow> filed_once s \<Longrightarrow>
   filed_once s'"
  by (induction rule: actions.induct) (use action_filed_once action_inv in blast)+

text \<open>Every reachable state.\<close>

lemma reachable_filed_once:
  assumes doc: "platform_documented env backlog" and tr: "traffic_documented env traffic"
  shows "server_reachable env backlog n s \<Longrightarrow> filed_once s"
proof (induction rule: server_reachable.induct)
  case (created bsize buffer signature logFileName p s)
  then show ?case by (auto simp: udcCreateServer_eq filed_once_def initial_server_def map_of_nodes_def split: if_splits)
next
  case (world n s p)
  then show ?case by (simp add: filed_once_def)
next
  case (bind4 n s port b s')
  then show ?case
    using tryBind_action(1) [OF tr, of port s b s' "{}" 0] reachable_inv [OF doc bind4(1)]
    by (auto simp: udcTryBindIPv4_def intro: action_filed_once [OF _ _ tr])
next
  case (bind6 n s port b s')
  then show ?case
    using tryBind_action(2) [OF tr, of port s b s' "{}" 0] reachable_inv [OF doc bind6(1)]
    by (auto simp: udcTryBindIPv6_def intro: action_filed_once [OF _ _ tr])
next
  case (connect4 n s ip4 port timeout eid s')
  have "connect_reply s (udcTryConnectIPv4 env (Some s) ip4 port timeout) = Inr (NewId (Some eid), s')"
    using connect4(2) by (simp add: connect_reply_def)
  from connect_actions(1) [OF tr _ this, of "{Open (m_idCounter s + 1) (EP_IPv4 ip4 port)}" 0] connect4 reachable_inv [OF doc connect4(1)]
  show ?case by (auto intro: actions_filed_once [OF _ _ tr])
next
  case (connect6 n s ip6 port timeout eid s')
  have "connect_reply s (udcTryConnectIPv6 env (Some s) ip6 port timeout) = Inr (NewId (Some eid), s')"
    using connect6(2) by (simp add: connect_reply_def)
  from connect_actions(2) [OF tr _ this, of "{Open (m_idCounter s + 1) (EP_IPv6 ip6 port)}" 0] connect6 reachable_inv [OF doc connect6(1)]
  show ?case by (auto intro: actions_filed_once [OF _ _ tr])
next
  case (disconnect n s eid s')
  then show ?case using reachable_inv [OF doc disconnect(1)] by (auto simp: udcDisconnect_def intro: filed_once_disconnected)
next
  case (send n s data dsize eid reliability b s')
  have "perform env (SendMessage eid data dsize reliability) s = Inr (Flag b, s')" using send(3) by simp
  moreover have "polling_documented env" using doc by (simp add: platform_documented_def polling_documented_def)
  ultimately have "actions env traffic (requests env (SendMessage eid data dsize reliability) s) 0 s (reply_event (Flag b)) s'"
    using reachable_inv [OF doc send(1)] send(2) by (intro perform_actions [OF _ _ tr]) simp_all
  then show ?case using reachable_inv [OF doc send(1)] send by (auto intro: actions_filed_once [OF _ _ tr])
next
  case (process n s fuel event s')
  have "polling_documented env" using doc by (simp add: platform_documented_def polling_documented_def)
  from process_events_actions [OF _ this tr process(3), of "{}"] reachable_inv [OF doc process(1)] process
  show ?case by (auto intro: actions_filed_once [OF _ _ tr])
qed

end
