(* ===== verification/Connections.thy ===== *)
theory Connections
  imports Filing
begin

text \<open>
  What the interface promises about connections: an automaton with one phase per end point id, which every call
  and every event of the library moves as the header says, and the proof that the code implements it.
\<close>

section \<open>The abstract specification\<close>

datatype phase = Idle | Connecting | Connected | Lost

type_synonym phases = "u32 \<Rightarrow> phase"

text \<open>
  What an event may say, and the phases after it; \<open>None\<close> where no event of the kind may be reported. The last case of
  \<open>CONNECTION_REGAINED\<close> is a deviation of the code: it may name an id that was disconnected before, and changes nothing.
\<close>

fun reported :: "event_view option \<Rightarrow> phases \<Rightarrow> phases option" where
  "reported None ph = Some ph"
| "reported (Some (MessageEvent a i n)) ph = Some ph"
| "reported (Some (ConnectionEvent UDC_EVENT_CONNECTION_SUCCESS i)) ph =
     (if ph i = Connecting then Some (ph(i := Connected)) else None)"
| "reported (Some (ConnectionEvent UDC_EVENT_CONNECTION_TIMEOUT i)) ph =
     (if ph i = Connecting then Some (ph(i := Idle)) else None)"
| "reported (Some (ConnectionEvent UDC_EVENT_CONNECTION_LOST i)) ph =
     (if ph i = Connected then Some (ph(i := Lost)) else None)"
| "reported (Some (ConnectionEvent UDC_EVENT_CONNECTION_REGAINED i)) ph =
     (if ph i = Lost then Some (ph(i := Connected)) else if ph i = Idle then Some ph else None)"
| "reported (Some (ConnectionEvent _ i)) ph = None"

text \<open>
  The state of the specification: how many ids have been given out, and the phase of every id. An answer of a
  call is \<open>None\<close> where the specification forbids it.
\<close>

fun opened :: "u32 option \<Rightarrow> nat \<times> phases \<Rightarrow> (nat \<times> phases) option" where
  "opened None (n, ph) = Some (n, ph)"
| "opened (Some i) (n, ph) =
     (if i = of_nat (Suc n) \<and> ph i = Idle then Some (Suc n, ph(i := Connecting)) else None)"

fun answered :: "call \<Rightarrow> reply \<Rightarrow> nat \<times> phases \<Rightarrow> (nat \<times> phases) option" where
  "answered (TryConnectIPv4 ip port timeout) (NewId i) st = opened i st"
| "answered (TryConnectIPv6 ip port timeout) (NewId i) st = opened i st"
| "answered (TryConnect node service timeout) (NewId i) st = opened i st"
| "answered (Disconnect i) Done (n, ph) = Some (n, ph(i := Idle))"
| "answered (SendMessage i data k reliability) (Flag b) (n, ph) =
     (if b \<longrightarrow> ph i \<in> {Connected, Lost} then Some (n, ph) else None)"
| "answered (TryBindIPv4 port) (Flag b) st = Some st"
| "answered (TryBindIPv6 port) (Flag b) st = Some st"
| "answered (ProcessEvents fuel) (Reported event) (n, ph) =
     map_option (Pair n) (reported (map_option view_of event) ph)"
| "answered _ _ st = None"

text \<open>A log of calls with their answers, which the specification follows from the state of a new server.\<close>

fun follows :: "(call \<times> reply) list \<Rightarrow> nat \<times> phases \<Rightarrow> (nat \<times> phases) option" where
  "follows [] st = Some st"
| "follows ((c, reply) # log) st = Option.bind (answered c reply st) (follows log)"

lemma follows_append: "follows (log @ log') st = Option.bind (follows log st) (follows log')"
  by (induction log st rule: follows.induct) (simp_all, metis (no_types, lifting) bind.bind_lunit bind.bind_lzero option.exhaust)

section \<open>The phases of a server\<close>

definition phases :: "'w UdcServerImpl \<Rightarrow> phases" where
  "phases s i =
     (case m_clientsById s i of
        Some r \<Rightarrow> (case heap s r of Some c \<Rightarrow> if m_isConnected c then Connected else Lost | None \<Rightarrow> Idle)
      | None \<Rightarrow> if list_ex (\<lambda>r. object_ids s r = Some i) (m_pendingClients s) then Connecting else Idle)"

definition unique_ids :: "'w UdcServerImpl \<Rightarrow> bool" where
  "unique_ids s \<longleftrightarrow> inj_on (object_ids s) (dom (object_ids s))"

lemma unique_idsD: "unique_ids s \<Longrightarrow> object_ids s r = Some i \<Longrightarrow> object_ids s r' = Some i \<Longrightarrow> r = r'"
  unfolding unique_ids_def by (erule inj_onD) auto

text \<open>What the phases depend on.\<close>

definition client_view :: "'w UdcServerImpl \<Rightarrow> ref \<Rightarrow> (u32 \<times> bool) option" where
  "client_view s = map_option (\<lambda>c. (m_id c, m_isConnected c)) \<circ> heap s"

lemma client_view_ids: "object_ids s = map_option fst \<circ> client_view s"
  by (simp add: object_ids_def client_view_def fun_eq_iff option.map_comp comp_def)

lemma phases_view:
  "phases s i =
     (case m_clientsById s i of
        Some r \<Rightarrow> (case client_view s r of Some (_, b) \<Rightarrow> if b then Connected else Lost | None \<Rightarrow> Idle)
      | None \<Rightarrow> if \<exists>r\<in>set (m_pendingClients s). map_option fst (client_view s r) = Some i then Connecting else Idle)"
  by (auto simp: phases_def client_view_ids list_ex_iff client_view_def split: option.split)

lemma phases_cong:
  assumes "m_clientsById s' = m_clientsById s" and "m_pendingClients s' = m_pendingClients s"
    and "client_view s' = client_view s"
  shows "phases s' = phases s"
  by (rule ext) (simp only: phases_view assms)

lemma phases_simps [simp]:
  "phases (s\<lparr>m_messageBuffer := buf\<rparr>) = phases s" "phases (s\<lparr>m_socket := mux\<rparr>) = phases s"
  "phases (s\<lparr>process := p\<rparr>) = phases s" "phases (s\<lparr>m_eventBuffer := e\<rparr>) = phases s"
  by (rule phases_cong; simp add: client_view_def)+

lemma client_view_same:
  "heap s r = Some c \<Longrightarrow> heap s' = (heap s)(r \<mapsto> c') \<Longrightarrow> m_id c' = m_id c \<Longrightarrow> m_isConnected c' = m_isConnected c \<Longrightarrow>
   client_view s' = client_view s"
  by (auto simp: client_view_def fun_eq_iff)

lemma same_clients_phases: "same_clients s s' \<Longrightarrow> phases s' = phases s"
  by (intro phases_cong) (simp_all add: same_clients_def client_view_def)

lemma phases_connected:
  "m_clientsById s i = Some r \<Longrightarrow> heap s r = Some c \<Longrightarrow> phases s i = (if m_isConnected c then Connected else Lost)"
  by (simp add: phases_def)

lemma phases_pending:
  assumes inv: "server_inv s" and once: "filed_once s" and ids: "unique_ids s"
    and r: "r \<in> set (m_pendingClients s)" and c: "heap s r = Some c"
  shows "m_clientsById s (m_id c) = None" and "phases s (m_id c) = Connecting"
proof -
  show none: "m_clientsById s (m_id c) = None"
  proof (cases "m_clientsById s (m_id c)")
    case (Some r')
    from server_inv_client(1) [OF inv Some] obtain c' where "heap s r' = Some c'" "m_id c' = m_id c" by blast
    with c have "r' = r" by (intro unique_idsD [OF ids, of r' "m_id c"]) (simp_all add: object_ids_def)
    with filed_onceD(1) [OF once r] Some show ?thesis by simp
  qed simp
  show "phases s (m_id c) = Connecting"
    using r c by (auto simp: phases_def none list_ex_iff object_ids_def)
qed

text \<open>A client object changed, where its id is filed under it.\<close>

lemma phases_store:
  assumes r: "m_clientsById s i = Some r" and c: "heap s r = Some c" and id: "m_id c' = m_id c"
    and s': "heap s' = (heap s)(r \<mapsto> c')" "m_clientsById s' = m_clientsById s" "m_pendingClients s' = m_pendingClients s"
    and once: "filed_once s"
  shows "phases s' = (phases s)(i := if m_isConnected c' then Connected else Lost)"
proof -
  have only: "m_clientsById s j = Some r \<Longrightarrow> j = i" for j using filed_onceD(3) [OF once] r by blast
  have ids: "object_ids s' = object_ids s" using c id by (auto simp: object_ids_def s'(1) fun_eq_iff)
  show ?thesis
  proof
    fix j
    show "phases s' j = ((phases s)(i := if m_isConnected c' then Connected else Lost)) j"
      using r c only [of j] by (cases "j = i") (auto simp: phases_def s' ids split: option.split)
  qed
qed


section \<open>What an action does to the phases\<close>

text \<open>A handler that reports a message or nothing, and leaves the clients alone.\<close>

lemma reported_message [simp]: "reported (Some (view_of (message_event a i k e))) ph = Some ph"
  by (simp add: view_of_message_event)

lemma view_of_connection_event [simp]:
  "ty \<le> UDC_EVENT_CONNECTION_REGAINED \<Longrightarrow> view_of (connection_event ty i e) = ConnectionEvent ty i"
  by (auto simp: connection_event_def view_of_def)

text \<open>The front of the pending queue leaves it.\<close>

lemma phases_front:
  assumes once: "filed_once s" and ids: "unique_ids s"
    and p: "m_pendingClients s = r # rs" and c: "heap s r = Some c"
    and s': "m_pendingClients s' = rs" "object_ids s' = object_ids s"
      "\<And>j. j \<noteq> m_id c \<Longrightarrow> m_clientsById s' j = m_clientsById s j" "\<And>r'. r' \<noteq> r \<Longrightarrow> heap s' r' = heap s r'"
  shows "phases s' = (phases s)(m_id c := phases s' (m_id c))"
    and "m_clientsById s' (m_id c) = None \<Longrightarrow> phases s' (m_id c) = Idle"
proof -
  have own: "object_ids s r = Some (m_id c)" by (simp add: object_ids_def c)
  show "phases s' = (phases s)(m_id c := phases s' (m_id c))"
  proof
    fix j
    have "m_clientsById s j \<noteq> Some r" using filed_onceD(1) [OF once, of r j] p by simp
    then show "phases s' j = ((phases s)(m_id c := phases s' (m_id c))) j"
      using own p by (cases "j = m_id c") (auto simp: phases_def s' split: option.split)
  qed
  show "phases s' (m_id c) = Idle" if none: "m_clientsById s' (m_id c) = None"
  proof -
    have "object_ids s r' \<noteq> Some (m_id c)" if "r' \<in> set rs" for r'
      using unique_idsD [OF ids own, of r'] that once p by (auto simp: filed_once_def)
    then show ?thesis by (simp add: phases_def none s' list_ex_iff)
  qed
qed

lemma pending_phases:
  assumes inv: "server_inv s" and once: "filed_once s" and ids: "unique_ids s"
    and call: "updatePendingClients env time s = Inr (event, s')"
  shows "reported (map_option view_of event) (phases s) = Some (phases s')"
proof (cases "m_pendingClients s")
  case Nil
  with call show ?thesis by (auto simp: updatePendingClients_def tryGetFirstPendingClient_def)
next
  case (Cons r rs)
  with server_inv_client(3) [OF inv, of r] obtain c where c: "heap s r = Some c" by auto
  obtain g where g: "stamped g s" using stamped_exists [OF inv] by blast
  note eff = ok_r_Inr [OF updatePendingClients_effect [OF inv g Cons c] call]
  note front = phases_pending [OF inv once ids, of r c]
  consider (timeout) "needsConnectionTimeoutEvent c time"
    | (attempt) "\<not> needsConnectionTimeoutEvent c time" "needsConnectionAttempt c time"
    | (wait) "\<not> needsConnectionTimeoutEvent c time" "\<not> needsConnectionAttempt c time" by blast
  then show ?thesis
  proof cases
    case timeout
    with eff have e: "map_option view_of event = Some (ConnectionEvent UDC_EVENT_CONNECTION_TIMEOUT (m_id c))"
      and s': "s' = s\<lparr>m_pendingClients := rs, m_eventBuffer := the event\<rparr>" by auto
    have o: "object_ids s' = object_ids s" unfolding s' by simp
    show ?thesis
      using front Cons c phases_front [OF once ids Cons c _ o] unfolding e by (simp add: s')
  next
    case attempt
    with eff have e: "event = None"
      and t: "transmits env (m_outgoingAddress c) (encode g (Request (m_id c))) (store r (retryConnecting time c) s) s'" by auto
    have "phases s' = phases s"
      using transmits_keeps(1,2,5) [OF t] c
      by (intro phases_cong client_view_same [of s r c s' "retryConnecting time c"]) (simp_all add: store_def retryConnecting_def)
    with e show ?thesis by simp
  next
    case wait
    with eff show ?thesis by auto
  qed
qed

lemma handshake_phases:
  assumes inv: "server_inv s" and once: "filed_once s" and ids: "unique_ids s"
    and rcv: "received n s = Some (Handshake i)" and len: "unat n \<le> length (m_messageBuffer s)"
    and h: "handle_message env time a n s = Inr (event, s')"
  shows "reported (map_option view_of event) (phases s) = Some (phases s')"
proof (cases "m_pendingClients s")
  case Nil
  with h dispatch_decoded [OF rcv len, of env time a] show ?thesis
    by (auto simp: handle_message_decoded [OF rcv len] processConnectionHandshake_def tryGetFirstPendingClient_def)
next
  case (Cons r rs)
  with server_inv_client(3) [OF inv, of r] obtain c where c: "heap s r = Some c" by auto
  note eq = handle_handshake [OF rcv len Cons c, of env time a]
  show ?thesis
  proof (cases "m_id c = i \<and> tryGetClientByAddress a s = None")
    case True
    with eq h have e: "map_option view_of event = Some (ConnectionEvent UDC_EVENT_CONNECTION_SUCCESS (m_id c))"
      and s': "heap s' = (heap s)(r \<mapsto> receiveConnectionHandshake time c)"
        "m_clientsById s' = (m_clientsById s)(m_id c \<mapsto> r)" "m_pendingClients s' = rs"
      by (auto simp: Let_def)
    have o: "object_ids s' = object_ids s" by (auto simp: object_ids_def s'(1) c fun_eq_iff)
    have "phases s' (m_id c) = Connected" by (simp add: phases_def s' receiveConnectionHandshake_def Let_def)
    then show ?thesis
      using phases_pending(2) [OF inv once ids, of r c] Cons c phases_front(1) [OF once ids Cons c _ o] s'
      unfolding e by simp
  next
    case False
    with eq h show ?thesis by auto
  qed
qed


text \<open>
  An answer from the address of a client: a lost connection is regained. The client of an address may have been
  disconnected under its id; then the event changes no phase.
\<close>

lemma regain_phases:
  assumes inv: "server_inv s" and once: "filed_once s" and ids: "unique_ids s"
    and r: "tryGetClientByAddress a s = Some r" and c: "heap s r = Some c"
    and c': "m_id c' = m_id c" "m_isConnected c'"
    and h: "regain (\<not> m_isConnected c) r c' s = (event, s')"
  shows "reported (map_option view_of event) (phases s) = Some (phases s')"
proof -
  note s' = regain_clients [OF h]
  have own: "object_ids s r = Some (m_id c)" by (simp add: object_ids_def c)
  have event: "map_option view_of event =
      (if m_isConnected c then None else Some (ConnectionEvent UDC_EVENT_CONNECTION_REGAINED (m_id c)))"
    using h c' by (auto simp: regain_def Let_def split: if_splits)
  consider (filed) i where "m_clientsById s i = Some r" | (stale) "r \<notin> ran (m_clientsById s)" by (auto simp: ran_def)
  then show ?thesis
  proof cases
    case filed
    from server_inv_client(1) [OF inv filed] c have i: "i = m_id c" by auto
    have "phases s' = (phases s)(i := Connected)"
      using phases_store [OF filed c c'(1), of s'] once s' c' by simp
    with phases_connected [OF filed c] show ?thesis unfolding event i by (auto simp: fun_upd_idem_iff)
  next
    case stale
    have pend: "r \<notin> set (m_pendingClients s)"
      using filed_onceD(2) [OF once, of r "end_point_of a"] r by (auto simp: tryGetClientByAddress_def address_map.find_abs)
    have view: "client_view s' r' = client_view s r'" if "r' \<noteq> r" for r'
      using s' that by (simp add: client_view_def)
    have o: "object_ids s' = object_ids s" using s' c c' by (auto simp: object_ids_def fun_eq_iff)
    have same: "phases s' = phases s"
    proof
      fix j
      have "m_clientsById s j \<noteq> Some r" using stale ranI by fastforce
      then show "phases s' j = phases s j" using s' by (auto simp: phases_def o split: option.split)
    qed
    have "m_clientsById s (m_id c) = None"
    proof (cases "m_clientsById s (m_id c)")
      case (Some r')
      from server_inv_client(1) [OF inv Some] own have "r' = r"
        by (intro unique_idsD [OF ids, of r' "m_id c"]) (auto simp: object_ids_def)
      with Some stale show ?thesis by (auto simp: ran_def)
    qed simp
    moreover have "object_ids s r' \<noteq> Some (m_id c)" if "r' \<in> set (m_pendingClients s)" for r'
      using unique_idsD [OF ids own, of r'] that pend by blast
    ultimately have "phases s (m_id c) = Idle" by (simp add: phases_def list_ex_iff)
    with same show ?thesis unfolding event by simp
  qed
qed


text \<open>The same for any datagram.\<close>

lemma answer_phases:
  assumes inv: "server_inv s" and once: "filed_once s" and ids: "unique_ids s"
    and rcv: "received n s = Some m" and len: "unat n \<le> length (m_messageBuffer s)"
    and m: "m = Pong t \<or> m = Ack b t \<or> m = ResetAck t"
    and h: "handle_message env time a n s = Inr (event, s')"
  shows "reported (map_option view_of event) (phases s) = Some (phases s')"
proof (cases "tryGetClientByAddress a s")
  case None
  with handle_unexpected [OF rcv len m, of a env time] h show ?thesis by simp
next
  case (Some r)
  with server_inv_client(2) [OF inv, of a r] obtain c where c: "heap s r = Some c"
    by (auto simp: tryGetClientByAddress_def)
  have "\<exists>c'. m_id c' = m_id c \<and> m_isConnected c' \<and> handle_message env time a n s =
      Inr (if time < int (unat t) then (None, s) else regain (\<not> m_isConnected c) r c' s)"
  proof -
    have keep: "m_id (snd (receivePong x y d)) = m_id d" "m_isConnected (snd (receivePong x y d))" for x y and d :: UdcClient
      by (simp_all add: receivePong_def Let_def)
    from m consider "m = Pong t" | "m = ResetAck t" | "m = Ack b t" by blast
    then show ?thesis
    proof cases
      case 1
      from handle_pong [OF rcv [unfolded 1] len Some c, of env time] show ?thesis using keep by blast
    next
      case 2
      with handle_ack [OF rcv _ len Some c, of b t "-1" env time] show ?thesis
        using keep [of _ _ "handshake_client (-1) c"] by (metis m_id_handshake)
    next
      case 3
      with handle_ack [OF rcv _ len Some c, of b t "bit_state b" env time] show ?thesis
        using keep [of _ _ "handshake_client (bit_state b) c"] by (metis m_id_handshake)
    qed
  qed
  then obtain c' where c': "m_id c' = m_id c" "m_isConnected c'" and eq: "handle_message env time a n s =
      Inr (if time < int (unat t) then (None, s) else regain (\<not> m_isConnected c) r c' s)" by blast
  show ?thesis
  proof (cases "time < int (unat t)")
    case True
    with eq h show ?thesis by auto
  next
    case False
    with eq h have "regain (\<not> m_isConnected c) r c' s = (event, s')" by simp
    from regain_phases [OF inv once ids Some c c' this] show ?thesis .
  qed
qed

lemma handle_phases:
  assumes inv: "server_inv s" and once: "filed_once s" and ids: "unique_ids s" and tr: "traffic_documented env traffic"
    and len: "unat n \<le> length (m_messageBuffer s)" and h: "handle_message env time a n s = Inr (event, s')"
  shows "reported (map_option view_of event) (phases s) = Some (phases s')"
proof (cases "received n s")
  case None
  with handle_message_ignored [OF None inv len, of env time a] h show ?thesis by auto
next
  case (Some m)
  consider (handshake) i where "m = Handshake i" | (answer) b t where "m = Pong t \<or> m = Ack b t \<or> m = ResetAck t"
    | (reply) "\<not> (\<exists>t. m = Pong t \<or> m = ResetAck t \<or> (\<exists>b. m = Ack b t) \<or> m = Handshake t)" by blast
  then show ?thesis
  proof cases
    case handshake
    from handshake_phases [OF inv once ids Some [unfolded handshake] len h] show ?thesis .
  next
    case answer
    from answer_phases [OF inv once ids Some len answer h] show ?thesis .
  next
    case reply
    have "event = None \<or> (\<exists>i k e. event = Some (message_event a i k e))"
    proof (cases m)
      case (Request i)
      from ok_r_Inr [OF handle_request [OF Some [unfolded Request] len] h] show ?thesis by simp
    next
      case (Ping i)
      from ok_r_Inr [OF handle_ping [OF Some [unfolded Ping] len] h] show ?thesis by simp
    next
      case (Unreliable d)
      from handle_unreliable [OF Some [unfolded Unreliable] len, of env time a] h show ?thesis by (auto simp: emit_def)
    next
      case (Reset t)
      from ok_r_Inr [OF handle_reset [OF Some [unfolded Reset] len] h] show ?thesis by simp
    next
      case (Reliable b t d)
      from ok_r_Inr [OF handle_reliable [OF Some [unfolded Reliable] len] h] show ?thesis by (auto split: if_splits)
    qed (use reply in auto)
    with same_clients_phases [OF handle_reply_frame(1) [OF Some len reply tr h]] show ?thesis by auto
  qed
qed

lemma lost_phases:
  assumes inv: "server_inv s" and once: "filed_once s" and r: "m_clientsById s i = Some r"
    and call: "update_lost time r s = Inr (event, s')"
  shows "reported (map_option view_of event) (phases s) = Some (phases s')"
proof -
  from server_inv_client(1) [OF inv r] obtain c where c: "heap s r = Some c" and i: "i = m_id c" by auto
  show ?thesis
  proof (cases "needsConnectionLostEvent c time")
    case True
    with call have e: "map_option view_of event = Some (ConnectionEvent UDC_EVENT_CONNECTION_LOST (m_id c))"
      and s': "heap s' = (heap s)(r \<mapsto> setConnectionLost c)" "m_clientsById s' = m_clientsById s"
        "m_pendingClients s' = m_pendingClients s"
      by (auto simp: update_lost_def deref_Some [OF c] emit_Inr store_def)
    have "phases s' = (phases s)(i := Lost)"
      using phases_store [OF r c _ s' once] by (simp add: setConnectionLost_def)
    moreover have "phases s i = Connected"
      using True phases_connected [OF r c] by (simp add: needsConnectionLostEvent_def)
    ultimately show ?thesis unfolding e i by simp
  next
    case False
    with call show ?thesis by (auto simp: update_lost_def deref_Some [OF c])
  qed
qed

text \<open>A request of the application that opens or closes no connection.\<close>

definition connections_kept :: "request set \<Rightarrow> bool" where
  "connections_kept Q \<longleftrightarrow> (\<forall>i e. Open i e \<notin> Q \<and> Close i \<notin> Q)"

lemma action_phases:
  assumes act: "action env traffic Q time s event s'" and inv: "server_inv s" and once: "filed_once s" and ids: "unique_ids s"
    and tr: "traffic_documented env traffic" and Q: "connections_kept Q"
  shows "reported (map_option view_of event) (phases s) = Some (phases s')"
  using act
proof cases
  case (internal buf mux p)
  then show ?thesis by simp
next
  case (message s1 buf mux p n a)
  have "server_inv s1" "unat n \<le> length (m_messageBuffer s1)" "filed_once s1" "unique_ids s1" "phases s1 = phases s"
    using message(1-3) once ids by (simp_all add: server_inv_received [OF inv], simp_all add: filed_once_def unique_ids_def)
  with handle_phases [OF _ _ _ tr _ message(5)] show ?thesis by simp
next
  case pending
  from pending_phases [OF inv once ids pending] show ?thesis .
next
  case (reliable i r)
  then obtain c where c: "heap s r = Some c" using referenced [OF inv] by blast
  have "m_id (after_transmission time c) = m_id c" "m_isConnected (after_transmission time c) = m_isConnected c"
    by (simp_all add: after_transmission_def client_op_defs)
  with reliable_frame(2,5,6) [OF inv tr c reliable(3)] have "phases s' = phases s"
    by (intro phases_cong client_view_same [OF c, of s' "after_transmission time c"]) simp_all
  with reliable show ?thesis by simp
next
  case (ping i r)
  then obtain c where c: "heap s r = Some c" using referenced [OF inv] by blast
  from ping same_clients_phases [OF ping_frame(2) [OF inv tr c ping(3)]] show ?thesis by simp
next
  case (lost i r)
  from lost_phases [OF inv once lost] show ?thesis .
next
  case (queue i data n b)
  have "client_view s' = client_view s"
    using queue_frame(6) [OF queue(4)]
  proof (elim disjE exE conjE)
    fix r c assume c: "heap s r = Some c" and h: "heap s' = (heap s)(r \<mapsto> reliableMessages_push (take (unat n) data) c)"
    show ?thesis by (rule client_view_same [OF c h]) (simp_all add: reliableMessages_push_def)
  qed (simp add: client_view_def)
  then have "phases s' = phases s" using queue_frame(3,5) [OF queue(4)] by (intro phases_cong)
  with queue show ?thesis by simp
next
  case (send i data n b)
  from send same_clients_phases [OF unreliable_frame(2) [OF inv tr send(3,4)]] show ?thesis by simp
qed (use Q in \<open>auto simp: connections_kept_def\<close>)

text \<open>The client objects and the id counter stay.\<close>

lemma action_objects:
  assumes act: "action env traffic Q time s event s'" and inv: "server_inv s" and Q: "connections_kept Q"
  shows "ids_issued n s' = ids_issued n s"
  using act
proof cases
  case (internal buf mux p)
  show ?thesis unfolding internal by (rule ids_issued_frame) simp_all
next
  case (message s1 buf mux p k a)
  have "server_inv s1" using message(1,2) by (simp add: server_inv_received [OF inv])
  with message handle_message_safe [OF this, of env time a k] have "kept s1 s'" by simp
  then have "ids_issued n s' = ids_issued n s1" by (rule ids_issued_kept)
  also have "\<dots> = ids_issued n s" unfolding message(1) by (rule ids_issued_frame) simp_all
  finally show ?thesis .
next
  case pending
  with updatePendingClients_safe [OF inv, of env time] show ?thesis by (intro ids_issued_kept) simp
next
  case (reliable i r)
  with update_reliable_safe [OF inv referenced [OF inv], of i r env time] show ?thesis
    by (intro ids_issued_kept) (simp add: upd_ok_def)
next
  case (ping i r)
  with update_ping_safe [OF inv referenced [OF inv], of i r env time] show ?thesis
    by (intro ids_issued_kept) (simp add: upd_ok_def)
next
  case (lost i r)
  with update_lost_safe [OF inv referenced [OF inv], of i r time] show ?thesis
    by (intro ids_issued_kept) (simp add: upd_ok_def)
next
  case (queue eid data k b)
  with sendReliableMessage_safe [OF inv, of k data eid] show ?thesis by (intro ids_issued_kept) (simp add: sendable_def)
next
  case (send eid data k b)
  with sendUnreliableMessage_safe [OF inv, of k data env eid] show ?thesis
    by (intro ids_issued_kept) (simp add: sendable_def)
qed (use Q in \<open>auto simp: connections_kept_def\<close>)

section \<open>What a call does to the phases\<close>

text \<open>The invariant of a server that has given out \<open>n\<close> ids.\<close>

definition connections_ok :: "nat \<Rightarrow> 'w UdcServerImpl \<Rightarrow> bool" where
  "connections_ok n s \<longleftrightarrow> server_inv s \<and> filed_once s \<and> ids_issued n s"

lemma connections_ok_unique: "connections_ok n s \<Longrightarrow> n < 2 ^ 32 \<Longrightarrow> unique_ids s"
  by (simp add: connections_ok_def ids_issued_def unique_ids_def)

lemma connections_ok_process [simp]: "connections_ok n (s\<lparr>process := p\<rparr>) = connections_ok n s"
  by (simp add: connections_ok_def inv_defs filed_once_def ids_issued_def)

lemma actions_phases:
  assumes "actions env traffic Q time s event s'" and tr: "traffic_documented env traffic" and Q: "connections_kept Q"
    and n: "n < 2 ^ 32"
  shows "connections_ok n s \<Longrightarrow> reported (map_option view_of event) (phases s) = Some (phases s') \<and> connections_ok n s'"
  using assms(1)
proof (induction rule: actions.induct)
  case (last s event s')
  then have ok: "server_inv s" "filed_once s" "ids_issued n s" by (simp_all add: connections_ok_def)
  from action_phases [OF last(1) ok(1,2) connections_ok_unique [OF last(2) n] tr Q] action_inv [OF last(1) ok(1)]
    action_filed_once [OF last(1) ok(1) tr ok(2)] action_objects [OF last(1) ok(1) Q, of n] ok(3)
  show ?case by (simp add: connections_ok_def)
next
  case (cons s s1 event s')
  then have ok: "server_inv s" "filed_once s" "ids_issued n s" by (simp_all add: connections_ok_def)
  from action_phases [OF cons(1) ok(1,2) connections_ok_unique [OF cons(4) n] tr Q] action_inv [OF cons(1) ok(1)]
    action_filed_once [OF cons(1) ok(1) tr ok(2)] action_objects [OF cons(1) ok(1) Q, of n] ok(3) cons(3)
  show ?case by (simp add: connections_ok_def)
qed simp

lemma opened_phases:
  assumes ok: "connections_ok n s" and n: "Suc n < 2 ^ 32"
    and s': "s' = with_pending (new_client (m_idCounter s + 1) a timeout t) s"
  shows "opened (Some (m_idCounter s + 1)) (n, phases s) = Some (Suc n, phases s')" and "connections_ok (Suc n) s'"
proof -
  have inv: "server_inv s" and once: "filed_once s" and ids: "ids_issued n s" using ok by (simp_all add: connections_ok_def)
  have new: "m_idCounter s + 1 = of_nat (Suc n)" using ids by (simp add: ids_issued_def)
  have "object_ids s r \<noteq> Some (m_idCounter s + 1)" for r
  proof
    assume "object_ids s r = Some (m_idCounter s + 1)"
    with ids n have "unat (of_nat (Suc n) :: u32) \<le> n" unfolding new by (simp add: ids_issued_def del: of_nat_Suc)
    with n show False by (simp add: unat_of_nat del: of_nat_Suc)
  qed
  note fresh = this
  have none: "m_clientsById s (m_idCounter s + 1) = None"
  proof (cases "m_clientsById s (m_idCounter s + 1)")
    case (Some r)
    with server_inv_client(1) [OF inv Some] fresh [of r] show ?thesis by (auto simp: object_ids_def)
  qed simp
  have idle: "phases s (m_idCounter s + 1) = Idle" by (simp add: phases_def none list_ex_iff fresh)
  have upd: "phases s' = (phases s)(m_idCounter s + 1 := Connecting)"
  proof
    fix j
    have "r \<noteq> heap_next s" if "m_clientsById s j = Some r" for r
      using server_inv_client(1) [OF inv that] inv by (auto simp: inv_defs)
    moreover have "object_ids s' r = object_ids s r" if "r \<in> set (m_pendingClients s)" for r
      using server_inv_client(3) [OF inv that] inv by (auto simp: inv_defs s' object_ids_with_pending)
    ultimately show "phases s' j = ((phases s)(m_idCounter s + 1 := Connecting)) j"
      using none by (cases "j = m_idCounter s + 1")
        (auto simp: phases_def s' object_ids_with_pending list_ex_iff with_pending_def new_client_def UdcClient_ctor_def
          startConnecting_def object_ids_def split: option.split)
  qed
  show "opened (Some (m_idCounter s + 1)) (n, phases s) = Some (Suc n, phases s')"
    using idle upd new by (simp del: of_nat_Suc)
  have act: "action env (\<lambda>_. []) {Open (m_idCounter s + 1) (end_point_of a)} 0 s None s'" for env
    unfolding s' by (rule action.connect) simp
  have "set (m_pendingClients s) \<union> ran (m_clientsById s) \<union> ran (map_of_nodes (m_clientsByAddress s)) \<subseteq> dom (heap s)"
    and "heap_next s \<notin> dom (heap s)"
    using inv by (auto simp: inv_defs)
  with once have "filed_once s'" by (auto simp: s' filed_once_def with_pending_def)
  moreover have "ids_issued (Suc n) s'" unfolding s' by (rule ids_issued_with_pending [OF ids]) (simp add: new_client_def UdcClient_ctor_def)
  ultimately show "connections_ok (Suc n) s'" using action_inv [OF act inv] by (simp add: connections_ok_def)
qed

lemma disconnect_phases:
  assumes inv: "server_inv s" and once: "filed_once s" and ids: "unique_ids s"
    and call: "disconnectFromClient i s = Inr s'"
  shows "phases s' = (phases s)(i := Idle)"
proof (cases "m_clientsById s i")
  case None
  have "set (m_pendingClients s) \<subseteq> dom (heap s)" using inv by (auto simp: inv_defs)
  with None call have s': "s' = s\<lparr>m_pendingClients := filter (\<lambda>r. object_ids s r \<noteq> Some i) (m_pendingClients s)\<rparr>"
    by (simp add: disconnectFromClient_def erase_pending_eq bind_r_Inr_iff)
  have "object_ids s' = object_ids s" unfolding s' by simp
  then show ?thesis
    using None by (intro ext) (auto simp: phases_def s' list_ex_iff split: option.split)
next
  case (Some r)
  with server_inv_client(1) [OF inv Some] call obtain c where c: "heap s r = Some c" "m_id c = i"
    and s': "s' = s\<lparr>m_clientsByAddress := UdcAddressMap_erase (m_clientsByAddress s) (m_outgoingAddress c),
      m_clientsById := (m_clientsById s)(i := None)\<rparr>"
    by (auto simp: disconnectFromClient_def)
  have o: "object_ids s' = object_ids s" unfolding s' by simp
  have "object_ids s r' \<noteq> Some i" if "r' \<in> set (m_pendingClients s)" for r'
    using unique_idsD [OF ids, of r i r'] filed_onceD(1) [OF once that, of i] c Some by (auto simp: object_ids_def)
  then show ?thesis by (intro ext) (auto simp: phases_def o s' list_ex_iff split: option.split)
qed

lemma send_flag:
  assumes inv: "server_inv s" and call: "udcSendMessage env s i data k reliability = Inr (True, s')"
  shows "phases s i \<in> {Connected, Lost}"
proof -
  from call obtain r where "m_clientsById s i = Some r"
    by (auto simp: udcSendMessage_def sendUnreliableMessage_def sendReliableMessage_def tryGetClientById_def
        split: if_splits option.splits)
  moreover obtain c where "heap s r = Some c" using server_inv_client(1) [OF inv calculation] by blast
  ultimately show ?thesis by (simp add: phases_connected)
qed

text \<open>A connection attempt, by address: refused or opened.\<close>

lemma connect_phases:
  assumes ok: "connections_ok n s" and n: "Suc n < 2 ^ 32"
    and call: "connect_reply s0 (udcTryConnectIPv4 env (Some s) ip4 port timeout) = Inr (reply, s') \<or>
      connect_reply s0 (udcTryConnectIPv6 env (Some s) ip6 port timeout) = Inr (reply, s')"
  shows "\<exists>i m. reply = NewId i \<and> opened i (n, phases s) = Some (m, phases s') \<and> connections_ok m s'"
proof -
  obtain t s1 where t: "current_time env s = (t, s1)" by fastforce
  have ok1: "connections_ok n s1" and ph: "phases s1 = phases s"
    using t ok by (auto simp: current_time_def Let_def case_prod_beta)
  note new = opened_phases [OF ok1 n refl, unfolded ph]
  show ?thesis
  proof (cases "timeout = 0")
    case True
    with call ok show ?thesis
      by (auto simp: connect_reply_def udcTryConnectIPv4_def udcTryConnectIPv6_def intro!: exI [of _ n])
  next
    case False
    from call have "\<exists>a. reply = NewId (Some (m_idCounter s1 + 1)) \<and>
        s' = with_pending (new_client (m_idCounter s1 + 1) a timeout t) s1"
      unfolding udcTryConnectIPv4_eq [OF False t] udcTryConnectIPv6_eq [OF False t] by (auto simp: connect_reply_def)
    with new show ?thesis by blast
  qed
qed

lemma connect_by_name_phases:
  assumes ok: "connections_ok n s" and n: "Suc n < 2 ^ 32"
    and call: "connect_reply s (udcTryConnect env s node service timeout) = Inr (reply, s')"
  shows "\<exists>i m. reply = NewId i \<and> opened i (n, phases s) = Some (m, phases s') \<and> connections_ok m s'"
proof -
  obtain r6 p1 where r6: "stringToIPv6 env node service (process s) = (r6, p1)" by fastforce
  obtain r4 p2 where r4: "stringToIPv4 env node service p1 = (r4, p2)" by fastforce
  have "connections_ok n (s\<lparr>process := p1\<rparr>)" "connections_ok n (s\<lparr>process := p2\<rparr>)" using ok by simp_all
  note conn = connect_phases [OF this(1) n] connect_phases [OF this(2) n]
  consider (v6) ip port where "r6 = Some (ip, port)" | (v4) ip port where "r6 = None" "r4 = Some (ip, port)"
    | (none) "r6 = None" "r4 = None" by (metis option.exhaust surj_pair)
  then show ?thesis
  proof cases
    case v6
    with call r6 have "connect_reply s (udcTryConnectIPv6 env (Some (s\<lparr>process := p1\<rparr>)) ip port timeout) = Inr (reply, s')"
      by (simp add: udcTryConnect_def)
    from conn(1) [OF disjI2 [OF this]] show ?thesis by simp
  next
    case v4
    with call r6 r4 have "connect_reply s (udcTryConnectIPv4 env (Some (s\<lparr>process := p2\<rparr>)) ip port timeout) = Inr (reply, s')"
      by (simp add: udcTryConnect_def)
    from conn(2) [OF disjI1 [OF this]] show ?thesis by simp
  next
    case none
    with call r6 r4 ok show ?thesis by (auto simp: udcTryConnect_def connect_reply_def intro!: exI [of _ n])
  qed
qed

text \<open>Every call answers as the specification allows, and the phases follow it.\<close>

lemma perform_answered:
  assumes ok: "connections_ok n s" and n: "Suc n < 2 ^ 32"
    and doc: "polling_documented env" and tr: "traffic_documented env traffic" and send: "call_sendable c"
    and call: "perform env c s = Inr (reply, s')"
  shows "\<exists>m. answered c reply (n, phases s) = Some (m, phases s') \<and> connections_ok m s'"
proof -
  have inv: "server_inv s" and once: "filed_once s" and ids: "ids_issued n s" using ok by (simp_all add: connections_ok_def)
  have small: "n < 2 ^ 32" using n by simp
  have quiet: "reported (map_option view_of (reply_event reply)) (phases s) = Some (phases s') \<and> connections_ok n s'"
    if "connections_kept (requests env c s)"
    using actions_phases [OF perform_actions [OF inv doc tr send call refl] tr that small ok] .
  show ?thesis
  proof (cases c)
    case (TryConnectIPv4 ip port timeout)
    with call connect_phases [OF ok n disjI1, of s env ip port timeout reply s'] show ?thesis by auto
  next
    case (TryConnectIPv6 ip port timeout)
    with call connect_phases [OF ok n disjI2, of s env ip port timeout reply s'] show ?thesis by auto
  next
    case (TryConnect node service timeout)
    with call connect_by_name_phases [OF ok n, of env node service timeout reply s'] show ?thesis by auto
  next
    case (Disconnect i)
    with call have d: "disconnectFromClient i s = Inr s'" and r: "reply = Done"
      by (auto simp: udcDisconnect_def bind_r_Inr_iff)
    with disconnectFromClient_safe [OF inv, of i] have "server_inv s'" "kept s s'" by simp_all
    with filed_once_disconnected [OF inv once d] ids_issued_kept [of s s' n] ids have "connections_ok n s'"
      by (simp add: connections_ok_def)
    with disconnect_phases [OF inv once connections_ok_unique [OF ok small] d] Disconnect r show ?thesis by simp
  next
    case (SendMessage i data k reliability)
    with call obtain b where b: "reply = Flag b" "udcSendMessage env s i data k reliability = Inr (b, s')"
      by (auto simp: bind_r_Inr_iff)
    with quiet SendMessage send_flag [OF inv, of env i data k reliability s'] show ?thesis
      by (auto simp: connections_kept_def split: if_splits)
  next
    case (TryBindIPv4 port)
    with call quiet show ?thesis by (auto simp: bind_r_Inr_iff connections_kept_def)
  next
    case (TryBindIPv6 port)
    with call quiet show ?thesis by (auto simp: bind_r_Inr_iff connections_kept_def)
  next
    case (ProcessEvents fuel)
    with call quiet show ?thesis by (auto simp: bind_r_Inr_iff connections_kept_def)
  qed
qed

section \<open>Runs of a server\<close>

text \<open>
  A script of calls, each with what the rest of the process and the operating system look like when it starts: between two
  calls they may change in any way. The result is the log of the calls with their answers.
\<close>

fun run_calls :: "'w platform_api \<Rightarrow> ('w Process \<times> call) list \<Rightarrow> 'w UdcServerImpl
   \<Rightarrow> ((call \<times> reply) list \<times> 'w UdcServerImpl) res" where
  "run_calls env [] s = Inr ([], s)"
| "run_calls env ((p, c) # script) s =
     bind_r (perform env c (s\<lparr>process := p\<rparr>)) (\<lambda>(reply, s1).
     bind_r (run_calls env script s1) (\<lambda>(log, s2). Inr ((c, reply) # log, s2)))"

definition times :: "(call \<times> reply \<Rightarrow> bool) \<Rightarrow> (call \<times> reply) list \<Rightarrow> nat" where
  "times P log = length (filter P log)"

lemma times_simps [simp]: "times P [] = 0" "times P (log @ [x]) = times P log + (if P x then 1 else 0)"
  by (simp_all add: times_def)

fun opens :: "call \<times> reply \<Rightarrow> bool" where
  "opens (c, NewId (Some i)) = True"
| "opens _ = False"

fun gives :: "u32 \<Rightarrow> call \<times> reply \<Rightarrow> bool" where
  "gives i (c, reply) \<longleftrightarrow> reply = NewId (Some i)"

fun says :: "UdcEventType \<Rightarrow> u32 \<Rightarrow> call \<times> reply \<Rightarrow> bool" where
  "says ty i (c, reply) \<longleftrightarrow> map_option view_of (reply_event reply) = Some (ConnectionEvent ty i)"

lemma answered_count: "answered c reply (n, ph) = Some (m, ph') \<Longrightarrow> m = n + (if opens (c, reply) then 1 else 0)"
  by (cases "(c, reply, (n, ph))" rule: answered.cases) (auto split: if_splits elim: opened.elims opens.elims)

lemma created_ok:
  assumes "fits bsize buffer" and "udcCreateServer env signature buffer bsize logFileName p = Inr (Some s)"
  shows "connections_ok 0 s" and "phases s = (\<lambda>_. Idle)"
proof -
  from assms obtain mux where "9 \<le> unat bsize" and s: "s = initial_server mux signature buffer bsize p"
    by (auto simp: udcCreateServer_eq split: if_splits)
  with assms(1) have "server_inv s" by (simp add: initial_server_inv)
  then show "connections_ok 0 s"
    unfolding s by (simp add: connections_ok_def ids_issued_def object_ids_def initial_server_def filed_once_def map_of_nodes_def)
  show "phases s = (\<lambda>_. Idle)" unfolding s by (simp add: phases_def initial_server_def fun_eq_iff)
qed

lemma run_follows:
  assumes doc: "polling_documented env" and tr: "traffic_documented env traffic"
  shows "run_calls env script s = Inr (log, s') \<Longrightarrow> \<forall>(p, c) \<in> set script. call_sendable c \<Longrightarrow> connections_ok n s \<Longrightarrow>
    Suc (n + times opens log) < 2 ^ 32 \<Longrightarrow>
    follows log (n, phases s) = Some (n + times opens log, phases s') \<and> connections_ok (n + times opens log) s'"
proof (induction script arbitrary: s log n)
  case (Cons x script)
  obtain p c where x: "x = (p, c)" by fastforce
  from Cons.prems(1) obtain reply s1 log1 where call: "perform env c (s\<lparr>process := p\<rparr>) = Inr (reply, s1)"
    and rest: "run_calls env script s1 = Inr (log1, s')" and log: "log = (c, reply) # log1"
    by (auto simp: x bind_r_Inr_iff)
  have "Suc n < 2 ^ 32" "connections_ok n (s\<lparr>process := p\<rparr>)" "call_sendable c" using Cons.prems by (auto simp: x)
  from perform_answered [OF this(2,1) doc tr this(3) call] obtain m where
    m: "answered c reply (n, phases s) = Some (m, phases s1)" "connections_ok m s1" by auto
  have "m + times opens log1 = n + times opens log" using answered_count [OF m(1)] by (simp add: log times_def)
  with Cons.IH [OF rest _ m(2)] Cons.prems(2,4) m(1) show ?case by (simp add: log)
qed (simp add: times_def)

lemma status_connected:
  assumes "server_inv s"
  shows "(\<exists>ping. udcGetStatus env s i = Inr (True, ping)) \<longleftrightarrow> phases s i = Connected"
proof (cases "m_clientsById s i")
  case None
  then show ?thesis by (simp add: udcGetStatus_def getEndPointStatus_def tryGetClientById_def phases_def)
next
  case (Some r)
  with server_inv_client(1) [OF assms Some] show ?thesis
    by (auto simp: udcGetStatus_def getEndPointStatus_def tryGetClientById_def phases_connected connected_def split: if_splits)
qed

text \<open>What the specification says about one end point id.\<close>

definition one :: "bool \<Rightarrow> nat" where
  "one b = (if b then 1 else 0)"

lemma one_simps [simp]: "one True = 1" "one False = 0"
  by (simp_all add: one_def)

lemma times_snoc: "times P (log @ [x]) = times P log + one (P x)"
  by (simp add: one_def)

lemma reported_step:
  assumes "reported ev ph0 = Some ph"
  shows "one (ev = Some (ConnectionEvent UDC_EVENT_CONNECTION_SUCCESS i)) + one (ev = Some (ConnectionEvent UDC_EVENT_CONNECTION_TIMEOUT i))
      + one (ph i = Connecting) = one (ph0 i = Connecting)"
    and "one (ev = Some (ConnectionEvent UDC_EVENT_CONNECTION_LOST i)) + one (ph i = Connected)
      \<le> one (ev = Some (ConnectionEvent UDC_EVENT_CONNECTION_SUCCESS i))
        + one (ev = Some (ConnectionEvent UDC_EVENT_CONNECTION_REGAINED i)) + one (ph0 i = Connected)"
  using assms by (cases "(ev, ph0)" rule: reported.cases; auto simp: one_def split: if_splits)+

lemma answered_step:
  assumes "answered c reply (k, ph0) = Some (n, ph)"
  shows "gives i (c, reply) \<Longrightarrow> i = of_nat (Suc k)"
    and "opens (c, reply) \<longleftrightarrow> gives (of_nat (Suc k)) (c, reply)"
    and "one (says UDC_EVENT_CONNECTION_SUCCESS i (c, reply)) + one (says UDC_EVENT_CONNECTION_TIMEOUT i (c, reply))
      + one (ph i = Connecting) \<le> one (gives i (c, reply)) + one (ph0 i = Connecting)"
    and "one (says UDC_EVENT_CONNECTION_LOST i (c, reply)) + one (ph i = Connected)
      \<le> one (says UDC_EVENT_CONNECTION_SUCCESS i (c, reply)) + one (says UDC_EVENT_CONNECTION_REGAINED i (c, reply))
        + one (ph0 i = Connected)"
proof -
  consider (new) j where "reply = NewId (Some j)" "opened (Some j) (k, ph0) = Some (n, ph)"
    | (event) e where "reply = Reported e" "reported (map_option view_of e) ph0 = Some ph"
    | (other) "\<forall>j. reply \<noteq> NewId (Some j)" "\<forall>e. reply \<noteq> Reported e" "ph = ph0 \<or> (\<exists>j. ph = ph0(j := Idle))"
    using assms by (cases "(c, reply, (k, ph0))" rule: answered.cases) (auto split: if_splits elim: opened.elims)
  then have "(gives i (c, reply) \<longrightarrow> i = of_nat (Suc k)) \<and> (opens (c, reply) \<longleftrightarrow> gives (of_nat (Suc k)) (c, reply)) \<and>
    one (says UDC_EVENT_CONNECTION_SUCCESS i (c, reply)) + one (says UDC_EVENT_CONNECTION_TIMEOUT i (c, reply))
      + one (ph i = Connecting) \<le> one (gives i (c, reply)) + one (ph0 i = Connecting) \<and>
    one (says UDC_EVENT_CONNECTION_LOST i (c, reply)) + one (ph i = Connected)
      \<le> one (says UDC_EVENT_CONNECTION_SUCCESS i (c, reply)) + one (says UDC_EVENT_CONNECTION_REGAINED i (c, reply))
        + one (ph0 i = Connected)"
  proof cases
    case (new j)
    then show ?thesis by (auto simp: one_def split: if_splits)
  next
    case (event e)
    from reported_step [OF event(2), of i] event(1) show ?thesis by simp
  next
    case other
    then have "\<not> opens (c, reply)" "\<not> gives j (c, reply)" "\<not> says ty j (c, reply)" for j ty by (cases reply; auto elim: opens.elims)+
    with other(3) show ?thesis by (auto simp: one_def split: if_splits)
  qed
  then show "gives i (c, reply) \<Longrightarrow> i = of_nat (Suc k)"
    and "opens (c, reply) \<longleftrightarrow> gives (of_nat (Suc k)) (c, reply)"
    and "one (says UDC_EVENT_CONNECTION_SUCCESS i (c, reply)) + one (says UDC_EVENT_CONNECTION_TIMEOUT i (c, reply))
      + one (ph i = Connecting) \<le> one (gives i (c, reply)) + one (ph0 i = Connecting)"
    and "one (says UDC_EVENT_CONNECTION_LOST i (c, reply)) + one (ph i = Connected)
      \<le> one (says UDC_EVENT_CONNECTION_SUCCESS i (c, reply)) + one (says UDC_EVENT_CONNECTION_REGAINED i (c, reply))
        + one (ph0 i = Connected)" by blast+
qed

lemma follows_one_id:
  assumes "follows log (0, \<lambda>_. Idle) = Some (n, ph)" and "n < 2 ^ 32"
  shows "times (gives i) log = one (0 < unat i \<and> unat i \<le> n) \<and>
    times (says UDC_EVENT_CONNECTION_SUCCESS i) log + times (says UDC_EVENT_CONNECTION_TIMEOUT i) log + one (ph i = Connecting)
      \<le> times (gives i) log \<and>
    times (says UDC_EVENT_CONNECTION_LOST i) log + one (ph i = Connected)
      \<le> times (says UDC_EVENT_CONNECTION_SUCCESS i) log + times (says UDC_EVENT_CONNECTION_REGAINED i) log"
  using assms
proof (induction log arbitrary: n ph rule: rev_induct)
  case Nil
  then show ?case by (auto simp: one_def)
next
  case (snoc x log)
  obtain c reply where x: "x = (c, reply)" by fastforce
  from snoc.prems(1) obtain k ph0 where f: "follows log (0, \<lambda>_. Idle) = Some (k, ph0)"
    and a: "answered c reply (k, ph0) = Some (n, ph)"
    by (auto simp: follows_append x bind_eq_Some_conv)
  have n: "n = k + (if opens (c, reply) then 1 else 0)" by (rule answered_count [OF a])
  with snoc.prems(2) have "k < 2 ^ 32" by (simp split: if_splits)
  note IH = snoc.IH [OF f this] and step = answered_step [OF a]
  have "one (0 < unat i \<and> unat i \<le> k) + one (gives i x) = one (0 < unat i \<and> unat i \<le> n)"
  proof (cases "opens (c, reply)")
    case True
    then have "unat (of_nat (Suc k) :: u32) = Suc k"
      using n snoc.prems(2) by (simp add: unat_of_nat del: of_nat_Suc)
    moreover have "gives i x \<longleftrightarrow> i = of_nat (Suc k)" using True step(1) [of i] step(2) x by blast
    ultimately have "gives i x \<longleftrightarrow> unat i = Suc k" by (simp add: word_unat_eq_iff)
    with True n show ?thesis by (auto simp: one_def)
  next
    case False
    then have "\<not> gives i x" using step(1) [of i] step(2) x by blast
    with False n show ?thesis by simp
  qed
  with IH step(3,4) [of i] show ?case unfolding times_snoc x by linarith
qed

end
