(* ===== verification/Delivery.thy ===== *)
theory Delivery
  imports Network
begin

text \<open>
  Two servers and a network of datagrams. A step of \<open>net_step\<close> is a whole call of the C interface on either
  server, run on its platform; the bytes it hands to \<open>sendto\<close> for the other server enter a
  channel, and what \<open>recvfrom\<close> reports from the other server comes out of one. Channels lose and repeat
  datagrams; every other host may send anything. The refinement shows that such a system runs the
  link of \<open>Reliable\<close>, whose channels hold the reliable messages and acknowledgements among the bytes.
\<close>

section \<open>The link inside the system\<close>

text \<open>
  The two parties: their platforms and histories, the signature they share, the client object and
  end point id at the sender, the address the receiver sees and the one the sender sees.
\<close>

record 'w parties =
  p_envS :: "'w platform_api"
  p_envR :: "'w platform_api"
  p_traffic :: "'w \<Rightarrow> io list"
  p_signature :: UdcSignature
  p_ref :: ref
  p_id :: u32
  p_addrS :: UdcAddressMux
  p_addrR :: UdcAddressMux

abbreviation p_step :: "'w parties \<Rightarrow> 'w link \<Rightarrow> 'w link \<Rightarrow> bool" where
  "p_step K \<equiv> link_step (p_envS K) (p_envR K) (p_ref K) (p_id K) (p_addrS K) (p_addrR K)"

abbreviation p_sender :: "'w parties \<Rightarrow> end_point" where
  "p_sender K \<equiv> end_point_of (p_addrS K)"

abbreviation p_receiver :: "'w parties \<Rightarrow> end_point" where
  "p_receiver K \<equiv> end_point_of (p_addrR K)"

definition parties_documented :: "'w parties \<Rightarrow> bool" where
  "parties_documented K \<longleftrightarrow>
     polling_documented (p_envS K) \<and> polling_documented (p_envR K) \<and>
     traffic_documented (p_envS K) (p_traffic K) \<and> traffic_documented (p_envR K) (p_traffic K)"

text \<open>The link seen in two servers and two channels of bytes.\<close>

definition link_of ::
  "'w parties \<Rightarrow> 'w UdcServerImpl \<Rightarrow> 'w UdcServerImpl \<Rightarrow> byte list list \<Rightarrow> byte list list
   \<Rightarrow> byte list list \<Rightarrow> byte list list \<Rightarrow> 'w link" where
  "link_of K s t F B P D =
     \<lparr>l_sender = s, l_receiver = t, l_fwd = messages_of is_reliable (p_signature K) F,
      l_back = messages_of is_ack (p_signature K) B, l_pushed = P, l_delivered = D\<rparr>"

lemma fwd_carried:
  assumes "carries F out F'" and "without is_reliable (p_signature K) out"
  shows "(p_step K)\<^sup>*\<^sup>* (link_of K s t F B P D) (link_of K s t F' B P D)"
proof -
  let ?L = "link_of K s t F B P D"
  have "(\<lambda>a b. p_step K (?L\<lparr>l_fwd := a\<rparr>) (?L\<lparr>l_fwd := b\<rparr>))\<^sup>*\<^sup>*
      (messages_of is_reliable (p_signature K) F) (messages_of is_reliable (p_signature K) F')"
  proof (rule carries_messages [OF assms])
    fix xs ys :: "message list" and m
    show "p_step K (?L\<lparr>l_fwd := xs @ m # ys\<rparr>) (?L\<lparr>l_fwd := xs @ ys\<rparr>)"
      using link_step.lose_fwd [of "?L\<lparr>l_fwd := xs @ m # ys\<rparr>"] by simp
    show "p_step K (?L\<lparr>l_fwd := xs @ m # ys\<rparr>) (?L\<lparr>l_fwd := xs @ m # m # ys\<rparr>)"
      using link_step.repeat_fwd [of "?L\<lparr>l_fwd := xs @ m # ys\<rparr>"] by simp
  qed
  from rtranclp_lift [where f = "\<lambda>a. ?L\<lparr>l_fwd := a\<rparr>" and R = "p_step K", OF this]
  show ?thesis by (simp add: link_of_def)
qed

lemma back_carried:
  assumes "carries B out B'" and "without is_ack (p_signature K) out"
  shows "(p_step K)\<^sup>*\<^sup>* (link_of K s t F B P D) (link_of K s t F B' P D)"
proof -
  let ?L = "link_of K s t F B P D"
  have "(\<lambda>a b. p_step K (?L\<lparr>l_back := a\<rparr>) (?L\<lparr>l_back := b\<rparr>))\<^sup>*\<^sup>*
      (messages_of is_ack (p_signature K) B) (messages_of is_ack (p_signature K) B')"
  proof (rule carries_messages [OF assms])
    fix xs ys :: "message list" and m
    show "p_step K (?L\<lparr>l_back := xs @ m # ys\<rparr>) (?L\<lparr>l_back := xs @ ys\<rparr>)"
      using link_step.lose_back [of "?L\<lparr>l_back := xs @ m # ys\<rparr>"] by simp
    show "p_step K (?L\<lparr>l_back := xs @ m # ys\<rparr>) (?L\<lparr>l_back := xs @ m # m # ys\<rparr>)"
      using link_step.repeat_back [of "?L\<lparr>l_back := xs @ m # ys\<rparr>"] by simp
  qed
  from rtranclp_lift [where f = "\<lambda>a. ?L\<lparr>l_back := a\<rparr>" and R = "p_step K", OF this]
  show ?thesis by (simp add: link_of_def)
qed

lemma other_carried:
  assumes "same_reliable (sender_view (p_ref K) (p_id K) (p_addrR K) s) (sender_view (p_ref K) (p_id K) (p_addrR K) s')"
    and "UdcAddressMap_find (m_reliableStates t') (p_addrS K) = UdcAddressMap_find (m_reliableStates t) (p_addrS K)"
  shows "p_step K (link_of K s t F B P D) (link_of K s' t' F B P D)"
  using link_step.other [of "p_ref K" "p_id K" "p_addrR K" "link_of K s t F B P D" s' t' "p_addrS K" "p_envS K" "p_envR K"] assms
  by (simp add: link_of_def)

section \<open>The receiver\<close>

text \<open>
  \<open>receiver_run K t event t'\<close>: however the network behaves meanwhile, the change from \<open>t\<close> to \<open>t'\<close> is a run
  of the link, which takes what came from the sender out of one channel, adds what went to the
  sender to the other, and delivers the reliable payload that the event reports.
\<close>

definition receiver_run :: "'w parties \<Rightarrow> 'w UdcServerImpl \<Rightarrow> UdcEvent option \<Rightarrow> 'w UdcServerImpl \<Rightarrow> bool" where
  "receiver_run K t event t' \<longleftrightarrow>
     (\<exists>tr. history (p_traffic K) t' = history (p_traffic K) t @ tr \<and>
        (\<forall>s F F' B P D. carries F (got_from (p_sender K) tr) F' \<longrightarrow> without is_reset (p_signature K) F \<longrightarrow>
           (p_step K)\<^sup>*\<^sup>* (link_of K s t F B P D)
             (link_of K s t' F' (B @ sent_to (p_sender K) tr) P (D @ reliable_payload (p_sender K) event t'))))"

lemma receiver_quiet:
  assumes "history (p_traffic K) t' = history (p_traffic K) t @ tr"
    and "UdcAddressMap_find (m_reliableStates t') (p_addrS K) = UdcAddressMap_find (m_reliableStates t) (p_addrS K)"
    and "without is_ack (p_signature K) (sent_to (p_sender K) tr)"
    and "without is_reliable (p_signature K) (got_from (p_sender K) tr)"
    and "reliable_payload (p_sender K) event t' = []"
  shows "receiver_run K t event t'"
  unfolding receiver_run_def
proof (intro exI conjI allI impI)
  show "history (p_traffic K) t' = history (p_traffic K) t @ tr" by (rule assms(1))
  fix s F F' B P D
  assume "carries F (got_from (p_sender K) tr) F'"
  from fwd_carried [OF this assms(4)] have "(p_step K)\<^sup>*\<^sup>* (link_of K s t F B P D) (link_of K s t F' B P D)" .
  also have "p_step K (link_of K s t F' B P D) (link_of K s t' F' B P D)"
    by (rule other_carried) (simp_all add: assms(2))
  also have "link_of K s t' F' B P D = link_of K s t' F' (B @ sent_to (p_sender K) tr) P
      (D @ reliable_payload (p_sender K) event t')"
    by (simp add: link_of_def assms(5) without_messages [OF assms(3)])
  finally show "(p_step K)\<^sup>*\<^sup>* (link_of K s t F B P D) (link_of K s t' F' (B @ sent_to (p_sender K) tr) P
      (D @ reliable_payload (p_sender K) event t'))" .
qed

lemma receiver_run_trans:
  assumes "receiver_run K t None t1" and "receiver_run K t1 event t2"
  shows "receiver_run K t event t2"
proof -
  from assms obtain tr1 tr2 where h: "history (p_traffic K) t1 = history (p_traffic K) t @ tr1"
    "history (p_traffic K) t2 = history (p_traffic K) t1 @ tr2"
    and r1: "\<And>s F F' B P D. carries F (got_from (p_sender K) tr1) F' \<Longrightarrow> without is_reset (p_signature K) F \<Longrightarrow>
           (p_step K)\<^sup>*\<^sup>* (link_of K s t F B P D) (link_of K s t1 F' (B @ sent_to (p_sender K) tr1) P D)"
    and r2: "\<And>s F F' B P D. carries F (got_from (p_sender K) tr2) F' \<Longrightarrow> without is_reset (p_signature K) F \<Longrightarrow>
           (p_step K)\<^sup>*\<^sup>* (link_of K s t1 F B P D) (link_of K s t2 F' (B @ sent_to (p_sender K) tr2) P
             (D @ reliable_payload (p_sender K) event t2))"
    by (auto simp: receiver_run_def)
  show ?thesis
    unfolding receiver_run_def
  proof (intro exI conjI allI impI)
    show "history (p_traffic K) t2 = history (p_traffic K) t @ tr1 @ tr2" using h by simp
    fix s F F' B P D
    assume "carries F (got_from (p_sender K) (tr1 @ tr2)) F'" and clean: "without is_reset (p_signature K) F"
    then obtain M where "carries F (got_from (p_sender K) tr1) M" "carries M (got_from (p_sender K) tr2) F'"
      using carries_append by (metis io_simps(8))
    moreover from this have "without is_reset (p_signature K) M"
      using without_subset [OF clean carries_subset] by blast
    ultimately show "(p_step K)\<^sup>*\<^sup>* (link_of K s t F B P D) (link_of K s t2 F' (B @ sent_to (p_sender K) (tr1 @ tr2)) P
           (D @ reliable_payload (p_sender K) event t2))"
      using r1 [OF _ clean] r2 by (simp add: append_assoc [symmetric] del: append_assoc) (meson rtranclp_trans)
  qed
qed

lemma emits_output:
  assumes "emits traffic s X s'"
  shows "\<exists>tr. history traffic s' = history traffic s @ tr \<and> (\<forall>e. got_from e tr = []) \<and>
    (\<forall>P g e. (\<forall>m. (e, m) \<in> X \<longrightarrow> \<not> P m) \<longrightarrow> without P g (sent_to e tr))"
proof (cases "history traffic s' = history traffic s")
  case True
  then show ?thesis by (intro exI [of _ "[]"]) simp
next
  case False
  with assms obtain g e m where "(e, m) \<in> X" "history traffic s' = history traffic s @ [Sent e (encode g m)]"
    by (auto simp: emits_def)
  then show ?thesis by (intro exI [of _ "[Sent e (encode g m)]"]) auto
qed

lemma receiver_emits:
  assumes "emits (p_traffic K) t X t'" and "\<And>e m. (e, m) \<in> X \<Longrightarrow> \<not> is_ack m"
    and "UdcAddressMap_find (m_reliableStates t') (p_addrS K) = UdcAddressMap_find (m_reliableStates t) (p_addrS K)"
    and "reliable_payload (p_sender K) event t' = []"
  shows "receiver_run K t event t'"
proof -
  from emits_output [OF assms(1)] obtain tr where tr: "history (p_traffic K) t' = history (p_traffic K) t @ tr"
    "got_from (p_sender K) tr = []"
    and none: "\<And>P g e. (\<forall>m. (e, m) \<in> X \<longrightarrow> \<not> P m) \<Longrightarrow> without P g (sent_to e tr)" by metis
  have "without is_ack (p_signature K) (sent_to (p_sender K) tr)"
    using assms(2) by (intro none) simp
  then show ?thesis by (rule receiver_quiet [OF tr(1) assms(3) _ _ assms(4)]) (simp add: tr(2))
qed

lemma answer_kinds:
  "answer m = [m'] \<Longrightarrow> is_ack m' \<Longrightarrow> is_reliable m"
  "answer m = [m'] \<Longrightarrow> \<not> is_reliable m' \<and> \<not> is_reset m'"
  by (cases m; auto)+

text \<open>A datagram that has just been received, and what handling it sends.\<close>

lemma message_history:
  assumes inv: "server_inv s" and tr: "traffic_documented env traffic"
    and s1: "s1 = s\<lparr>m_messageBuffer := buf, m_socket := mux, process := p\<rparr>"
    and len: "length buf = length (m_messageBuffer s)" and n: "unat n \<le> length buf"
    and got: "history traffic s1 = history traffic s @ [Got (end_point_of a) (read_at 0 (unat n) buf)]"
    and h: "handle_message env time a n s1 = Inr (event, s')"
  shows "\<exists>out. history traffic s' = history traffic s @ Got (end_point_of a) (read_at 0 (unat n) buf) # out \<and>
      (out = [] \<or> (\<exists>m m'. decode (m_packetSignature s) (read_at 0 (unat n) buf) = Some m \<and> answer m = [m'] \<and>
         out = [Sent (end_point_of a) (encode (m_packetSignature s) m')]))"
    and "holds P n s1 \<longleftrightarrow> (\<exists>m. decode (m_packetSignature s) (read_at 0 (unat n) buf) = Some m \<and> P m)"
    and "server_inv s1" and "unat n \<le> length (m_messageBuffer s1)"
    and "received n s1 = decode (m_packetSignature s) (read_at 0 (unat n) buf)"
proof -
  show inv1: "server_inv s1" unfolding s1 by (rule server_inv_received [OF inv len])
  show len1: "unat n \<le> length (m_messageBuffer s1)" using n by (simp add: s1)
  show rcv: "received n s1 = decode (m_packetSignature s) (read_at 0 (unat n) buf)"
    by (simp add: received_def s1)
  show "holds P n s1 \<longleftrightarrow> (\<exists>m. decode (m_packetSignature s) (read_at 0 (unat n) buf) = Some m \<and> P m)"
    by (simp add: holds_def rcv)
  have sig: "m_packetSignature s1 = m_packetSignature s" by (simp add: s1)
  from handle_frame(2) [OF inv1 len1 tr h] got rcv sig
  show "\<exists>out. history traffic s' = history traffic s @ Got (end_point_of a) (read_at 0 (unat n) buf) # out \<and>
      (out = [] \<or> (\<exists>m m'. decode (m_packetSignature s) (read_at 0 (unat n) buf) = Some m \<and> answer m = [m'] \<and>
         out = [Sent (end_point_of a) (encode (m_packetSignature s) m')]))"
    by auto
qed

lemma receiver_reliable:
  assumes inv: "server_inv t" and sig: "m_packetSignature t = p_signature K"
    and t1: "t1 = t\<lparr>m_messageBuffer := buf, m_socket := mux, process := p\<rparr>"
    and len: "length buf = length (m_messageBuffer t)" and n: "unat n \<le> length buf"
    and h: "handle_message (p_envR K) time a n t1 = Inr (event, t')"
    and a: "end_point_of a = p_sender K"
    and m: "decode (p_signature K) (read_at 0 (unat n) buf) = Some (Reliable b ts d)"
    and hist: "history (p_traffic K) t' = history (p_traffic K) t @ Got (end_point_of a) (read_at 0 (unat n) buf) # out"
    and out: "out = [] \<or> out = [Sent (end_point_of a) (encode (p_signature K) (Ack b ts))]"
  shows "receiver_run K t event t'"
  unfolding receiver_run_def
proof (intro exI conjI allI impI)
  let ?d = "read_at 0 (unat n) buf" and ?g = "p_signature K"
  show "history (p_traffic K) t' = history (p_traffic K) t @ Got (end_point_of a) ?d # out" by (rule hist)
  fix s F F' B P D
  assume "carries F (got_from (p_sender K) (Got (end_point_of a) ?d # out)) F'"
  then have "carries F [?d] F'" using a out by auto
  then obtain rest where c: "carries F [] (?d # rest)" "carries rest [] F'" by (auto dest: carries_next)
  let ?t0 = "t\<lparr>m_socket := mux, process := p\<rparr>"
  have arr: "arrived (Reliable b ts d) n ?t0 t1"
    using n m sig by (auto simp: arrived_def received_def t1 intro!: exI [of _ buf])
  have inv1: "server_inv t1" unfolding t1 by (rule server_inv_received [OF inv len])
  have rcv: "received n t1 = Some (Reliable b ts d)" using arr by (simp add: arrived_def)
  have pay: "reliable_payload (p_sender K) event t' = event_payload event t'"
    by (rule handle_payload(2) [OF inv1 _ h rcv a]) (simp add: t1 n)
  have "(p_step K)\<^sup>*\<^sup>* (link_of K s t F B P D) (link_of K s t (?d # rest) B P D)"
    by (rule fwd_carried [OF c(1)]) simp
  also have "p_step K (link_of K s t (?d # rest) B P D) (link_of K s ?t0 (?d # rest) B P D)"
    by (rule other_carried) simp_all
  also have "p_step K (link_of K s ?t0 (?d # rest) B P D)
      ((link_of K s t' rest B P (D @ event_payload event t'))\<lparr>l_back := messages_of is_ack ?g B @ [Ack b ts]\<rparr>)"
    using link_step.receive [of "link_of K s ?t0 (?d # rest) B P D" "Reliable b ts d" "messages_of is_reliable ?g rest" n t1 a
        "p_addrS K" "p_envR K" time event t' "p_envS K" "p_ref K" "p_id K" "p_addrR K"] m arr a h
    by (simp add: link_of_def)
  also have "(p_step K)\<^sup>*\<^sup>*
      ((link_of K s t' rest B P (D @ event_payload event t'))\<lparr>l_back := messages_of is_ack ?g B @ [Ack b ts]\<rparr>)
      (link_of K s t' rest (B @ sent_to (p_sender K) out) P (D @ event_payload event t'))"
  proof (cases "out = []")
    case True
    then show ?thesis
      using link_step.lose_back [of "(link_of K s t' rest B P (D @ event_payload event t'))\<lparr>l_back := messages_of is_ack ?g B @ [Ack b ts]\<rparr>"
          "messages_of is_ack ?g B" "Ack b ts" "[]"]
      by (simp add: link_of_def r_into_rtranclp)
  next
    case False
    with out have "messages_of is_ack ?g (sent_to (p_sender K) out) = [Ack b ts]"
      by (auto simp: a)
    then show ?thesis by (simp add: link_of_def)
  qed
  also have "(p_step K)\<^sup>*\<^sup>* (link_of K s t' rest (B @ sent_to (p_sender K) out) P (D @ event_payload event t'))
      (link_of K s t' F' (B @ sent_to (p_sender K) out) P (D @ event_payload event t'))"
    by (rule fwd_carried [OF c(2)]) simp
  finally show "(p_step K)\<^sup>*\<^sup>* (link_of K s t F B P D)
      (link_of K s t' F' (B @ sent_to (p_sender K) (Got (end_point_of a) ?d # out)) P
        (D @ reliable_payload (p_sender K) event t'))"
    by (simp add: pay)
qed

lemma receiver_message:
  assumes inv: "server_inv t" and sig: "m_packetSignature t = p_signature K"
    and tr: "traffic_documented (p_envR K) (p_traffic K)"
    and t1: "t1 = t\<lparr>m_messageBuffer := buf, m_socket := mux, process := p\<rparr>"
    and len: "length buf = length (m_messageBuffer t)" and n: "unat n \<le> length buf"
    and got: "history (p_traffic K) t1 = history (p_traffic K) t @ [Got (end_point_of a) (read_at 0 (unat n) buf)]"
    and h: "handle_message (p_envR K) time a n t1 = Inr (event, t')"
  shows "receiver_run K t event t'"
proof -
  let ?d = "read_at 0 (unat n) buf" and ?g = "p_signature K"
  note mh = message_history [OF inv tr t1 len n got h, unfolded sig]
  from mh(1) obtain out where hist: "history (p_traffic K) t' = history (p_traffic K) t @ Got (end_point_of a) ?d # out"
    and out: "out = [] \<or> (\<exists>m m'. decode ?g ?d = Some m \<and> answer m = [m'] \<and> out = [Sent (end_point_of a) (encode ?g m')])"
    by blast
  consider (reliable) b ts d where "end_point_of a = p_sender K" "decode ?g ?d = Some (Reliable b ts d)"
    | (reset) m where "end_point_of a = p_sender K" "decode ?g ?d = Some m" "is_reset m"
    | (quiet) "end_point_of a = p_sender K \<Longrightarrow> without is_reliable ?g [?d] \<and> without is_reset ?g [?d]"
  proof (cases "\<exists>m. end_point_of a = p_sender K \<and> decode ?g ?d = Some m \<and> (is_reliable m \<or> is_reset m)")
    case True
    then obtain m where "end_point_of a = p_sender K" "decode ?g ?d = Some m" "is_reliable m \<or> is_reset m" by blast
    with that(1,2) show ?thesis by (cases m) auto
  next
    case False
    with that(3) show ?thesis by auto
  qed
  then show ?thesis
  proof cases
    case reliable
    with out have "out = [] \<or> out = [Sent (end_point_of a) (encode ?g (Ack b ts))]" by auto
    from receiver_reliable [OF inv sig t1 len n h reliable hist this] show ?thesis .
  next
    case reset
    from out reset(1) have "got_from (p_sender K) (Got (end_point_of a) ?d # out) = [?d]" by auto
    with reset(2,3) show ?thesis
      unfolding receiver_run_def
      by (intro exI [of _ "Got (end_point_of a) ?d # out"] conjI hist)
        (fastforce simp: without_def dest: carries_handed)
  next
    case quiet
    have no_ack: "without is_ack ?g (sent_to (p_sender K) (Got (end_point_of a) ?d # out))"
      using out quiet answer_kinds(1) by auto
    have no_data: "without is_reliable ?g (got_from (p_sender K) (Got (end_point_of a) ?d # out))"
      using out quiet by auto
    have states: "UdcAddressMap_find (m_reliableStates t') (p_addrS K) = UdcAddressMap_find (m_reliableStates t) (p_addrS K)"
      using handle_frame(3) [OF mh(3,4) tr h, of "p_addrS K"] quiet
      by (cases "end_point_of a = p_sender K") (auto simp: mh(2), auto simp: t1)
    have "reliable_payload (p_sender K) event t' = []"
      by (rule handle_payload(1) [OF mh(3,4) h]) (use quiet mh(2) in auto)
    from receiver_quiet [OF hist states no_ack no_data this] show ?thesis .
  qed
qed

lemma receiver_silent:
  "history (p_traffic K) t' = history (p_traffic K) t \<Longrightarrow> m_reliableStates t' = m_reliableStates t \<Longrightarrow>
   receiver_run K t None t'"
  by (rule receiver_quiet [where tr = "[]"]) simp_all

lemma action_receiver:
  assumes "action (p_envR K) (p_traffic K) Q time t event t'"
    and inv: "server_inv t" and sig: "m_packetSignature t = p_signature K"
    and tr: "traffic_documented (p_envR K) (p_traffic K)"
  shows "receiver_run K t event t'"
  using assms(1)
proof cases
  case (internal buf mux p)
  then show ?thesis by (auto intro: receiver_silent)
next
  case (message t1 buf mux p n a)
  from receiver_message [OF inv sig tr message] show ?thesis .
next
  case pending
  note f = pending_frame [OF inv tr pending]
  show ?thesis by (rule receiver_emits [OF f(1)]) (auto simp: f(4) f(5))
next
  case (reliable i r)
  then obtain c where c: "heap t r = Some c" using referenced [OF inv] by blast
  note f = reliable_frame [OF inv tr c reliable(3)]
  show ?thesis
    unfolding reliable(1)
    by (rule receiver_emits [OF f(1)]) (auto simp: f(4) transmission_def split: list.splits if_splits)
next
  case (ping i r)
  then obtain c where c: "heap t r = Some c" using referenced [OF inv] by blast
  note f = ping_frame [OF inv tr c ping(3)]
  show ?thesis unfolding ping(1) by (rule receiver_emits [OF f(1)]) (auto simp: f(3))
next
  case (lost i r)
  then obtain c where c: "heap t r = Some c" using referenced [OF inv] by blast
  note f = lost_frame [OF c lost(2)]
  show ?thesis by (rule receiver_quiet [where tr = "[]"]) (simp_all add: f(1,4,6))
next
  case (connect address timeout start)
  then show ?thesis by (auto simp: with_pending_def history_def intro: receiver_silent)
next
  case (disconnect eid)
  with disconnect_frame(1,2) [OF inv] show ?thesis by (auto intro: receiver_silent)
next
  case (queue eid data n b)
  show ?thesis unfolding queue(1) by (rule receiver_silent [OF queue_frame(1,2) [OF queue(4)]])
next
  case (send eid data n b)
  note f = unreliable_frame [OF inv tr send(3,4)]
  show ?thesis unfolding send(1) by (rule receiver_emits [OF f(1)]) (auto simp: f(3))
qed

lemma actions_receiver:
  assumes "actions (p_envR K) (p_traffic K) Q time t event t'"
    and "server_inv t" and "m_packetSignature t = p_signature K"
    and tr: "traffic_documented (p_envR K) (p_traffic K)"
  shows "receiver_run K t event t'"
  using assms(1,2,3)
proof (induction rule: actions.induct)
  case (none t)
  then show ?case by (auto intro: receiver_silent)
next
  case (last t event t')
  then show ?case by (auto intro: action_receiver tr)
next
  case (cons t t1 event t')
  from action_inv [OF cons(1) cons(4)] cons(5) have "server_inv t1" "m_packetSignature t1 = p_signature K" by simp_all
  with cons show ?case by (blast intro: receiver_run_trans action_receiver tr)
qed

section \<open>The sender\<close>

text \<open>
  \<open>sender_run K s s'\<close>: the change from \<open>s\<close> to \<open>s'\<close> is a run of the link in which nothing is queued, which
  sends the receiver no reset.
\<close>

definition sender_run :: "'w parties \<Rightarrow> 'w UdcServerImpl \<Rightarrow> 'w UdcServerImpl \<Rightarrow> bool" where
  "sender_run K s s' \<longleftrightarrow>
     (\<exists>tr. history (p_traffic K) s' = history (p_traffic K) s @ tr \<and>
        without is_reset (p_signature K) (sent_to (p_receiver K) tr) \<and>
        (\<forall>t F B B' P D. carries B (got_from (p_receiver K) tr) B' \<longrightarrow>
           (p_step K)\<^sup>*\<^sup>* (link_of K s t F B P D) (link_of K s' t (F @ sent_to (p_receiver K) tr) B' P D)))"

definition same_link :: "'w parties \<Rightarrow> 'w UdcServerImpl \<Rightarrow> 'w UdcServerImpl \<Rightarrow> bool" where
  "same_link K s s' \<longleftrightarrow> same_reliable (sender_view (p_ref K) (p_id K) (p_addrR K) s)
     (sender_view (p_ref K) (p_id K) (p_addrR K) s')"

lemma sender_quiet:
  assumes "history (p_traffic K) s' = history (p_traffic K) s @ tr" and "same_link K s s'"
    and "without is_reliable (p_signature K) (sent_to (p_receiver K) tr)"
    and "without is_reset (p_signature K) (sent_to (p_receiver K) tr)"
    and "without is_ack (p_signature K) (got_from (p_receiver K) tr)"
  shows "sender_run K s s'"
  unfolding sender_run_def
proof (intro exI conjI allI impI)
  show "history (p_traffic K) s' = history (p_traffic K) s @ tr" by (rule assms(1))
  show "without is_reset (p_signature K) (sent_to (p_receiver K) tr)" by (rule assms(4))
  fix t F B B' P D
  assume "carries B (got_from (p_receiver K) tr) B'"
  from back_carried [OF this assms(5)] have "(p_step K)\<^sup>*\<^sup>* (link_of K s t F B P D) (link_of K s t F B' P D)" .
  also have "p_step K (link_of K s t F B' P D) (link_of K s' t F B' P D)"
    by (rule other_carried) (use assms(2) in \<open>simp_all add: same_link_def\<close>)
  also have "link_of K s' t F B' P D = link_of K s' t (F @ sent_to (p_receiver K) tr) B' P D"
    by (simp add: link_of_def without_messages [OF assms(3)])
  finally show "(p_step K)\<^sup>*\<^sup>* (link_of K s t F B P D) (link_of K s' t (F @ sent_to (p_receiver K) tr) B' P D)" .
qed

lemma sender_run_trans:
  assumes "sender_run K s s1" and "sender_run K s1 s2"
  shows "sender_run K s s2"
proof -
  from assms obtain tr1 tr2 where h: "history (p_traffic K) s1 = history (p_traffic K) s @ tr1"
    "history (p_traffic K) s2 = history (p_traffic K) s1 @ tr2"
    "without is_reset (p_signature K) (sent_to (p_receiver K) tr1)"
    "without is_reset (p_signature K) (sent_to (p_receiver K) tr2)"
    and r1: "\<And>t F B B' P D. carries B (got_from (p_receiver K) tr1) B' \<Longrightarrow>
           (p_step K)\<^sup>*\<^sup>* (link_of K s t F B P D) (link_of K s1 t (F @ sent_to (p_receiver K) tr1) B' P D)"
    and r2: "\<And>t F B B' P D. carries B (got_from (p_receiver K) tr2) B' \<Longrightarrow>
           (p_step K)\<^sup>*\<^sup>* (link_of K s1 t F B P D) (link_of K s2 t (F @ sent_to (p_receiver K) tr2) B' P D)"
    by (auto simp: sender_run_def)
  show ?thesis
    unfolding sender_run_def
  proof (intro exI conjI allI impI)
    show "history (p_traffic K) s2 = history (p_traffic K) s @ tr1 @ tr2"
      "without is_reset (p_signature K) (sent_to (p_receiver K) (tr1 @ tr2))" using h by simp_all
    fix t F B B' P D
    assume "carries B (got_from (p_receiver K) (tr1 @ tr2)) B'"
    then obtain M where m: "carries B (got_from (p_receiver K) tr1) M" "carries M (got_from (p_receiver K) tr2) B'"
      using carries_append by (metis io_simps(8))
    have "(p_step K)\<^sup>*\<^sup>* (link_of K s t F B P D) (link_of K s1 t (F @ sent_to (p_receiver K) tr1) M P D)"
      by (rule r1 [OF m(1)])
    also have "(p_step K)\<^sup>*\<^sup>* (link_of K s1 t (F @ sent_to (p_receiver K) tr1) M P D)
        (link_of K s2 t ((F @ sent_to (p_receiver K) tr1) @ sent_to (p_receiver K) tr2) B' P D)"
      by (rule r2 [OF m(2)])
    finally show "(p_step K)\<^sup>*\<^sup>* (link_of K s t F B P D)
        (link_of K s2 t (F @ sent_to (p_receiver K) (tr1 @ tr2)) B' P D)" by simp
  qed
qed

lemma sender_emits:
  assumes "emits (p_traffic K) s X s'" and "same_link K s s'"
    and "\<And>m. (p_receiver K, m) \<in> X \<Longrightarrow> \<not> is_reliable m \<and> \<not> is_reset m"
  shows "sender_run K s s'"
proof -
  from emits_output [OF assms(1)] obtain tr where tr: "history (p_traffic K) s' = history (p_traffic K) s @ tr"
    "got_from (p_receiver K) tr = []"
    and none: "\<And>P g e. (\<forall>m. (e, m) \<in> X \<longrightarrow> \<not> P m) \<Longrightarrow> without P g (sent_to e tr)" by metis
  have "without is_reliable (p_signature K) (sent_to (p_receiver K) tr)"
    "without is_reset (p_signature K) (sent_to (p_receiver K) tr)"
    by (rule none, use assms(3) in blast)+
  then show ?thesis by (rule sender_quiet [OF tr(1) assms(2)]) (simp add: tr(2))
qed

text \<open>What identifies the client objects, and what the link needs of how they are filed.\<close>

definition statics :: "'w UdcServerImpl \<Rightarrow> ref \<Rightarrow> (u32 \<times> end_point) option" where
  "statics s r = map_option (\<lambda>c. (m_id c, end_point_of (m_outgoingAddress c))) (heap s r)"

definition filed :: "'w parties \<Rightarrow> 'w UdcServerImpl \<Rightarrow> bool" where
  "filed K s \<longleftrightarrow>
     m_clientsById s (p_id K) = Some (p_ref K) \<and> tryGetClientByAddress (p_addrR K) s = Some (p_ref K) \<and>
     p_ref K \<notin> set (m_pendingClients s) \<and>
     (\<forall>r i e. r \<in> set (m_pendingClients s) \<union> ran (m_clientsById s) \<longrightarrow> r \<noteq> p_ref K \<longrightarrow>
        statics s r = Some (i, e) \<longrightarrow> i \<noteq> p_id K \<and> e \<noteq> p_receiver K) \<and>
     (\<forall>e. map_of_nodes (m_clientsByAddress s) e = Some (p_ref K) \<longrightarrow> e = p_receiver K) \<and>
     statics s (p_ref K) = Some (p_id K, p_receiver K)"

definition client_ready :: "milliseconds \<Rightarrow> UdcClient \<Rightarrow> bool" where
  "client_ready time c \<longleftrightarrow> synchronised c \<and> 0 < m_reliableTimeoutPeriod c \<and> \<not> needsReliableReset c time"

definition sender_ok :: "'w parties \<Rightarrow> milliseconds \<Rightarrow> 'w UdcServerImpl \<Rightarrow> bool" where
  "sender_ok K time s \<longleftrightarrow>
     server_inv s \<and> m_packetSignature s = p_signature K \<and> filed K s \<and>
     (\<exists>c. heap s (p_ref K) = Some c \<and> client_ready time c)"

lemma filed_cong:
  assumes "filed K s" and "statics s' = statics s" and "m_clientsById s' = m_clientsById s"
    and "m_clientsByAddress s' = m_clientsByAddress s" and "set (m_pendingClients s') \<subseteq> set (m_pendingClients s)"
  shows "filed K s'"
  using assms unfolding filed_def tryGetClientByAddress_def by auto

lemma filed_same_clients: "same_clients s s' \<Longrightarrow> filed K s' = filed K s"
  by (auto simp: same_clients_def filed_def statics_def tryGetClientByAddress_def)

lemma statics_update:
  "heap s r = Some c \<Longrightarrow> heap s' = (heap s)(r \<mapsto> c') \<Longrightarrow> m_id c' = m_id c \<Longrightarrow>
   m_outgoingAddress c' = m_outgoingAddress c \<Longrightarrow> statics s' = statics s"
  by (auto simp: statics_def fun_eq_iff)

lemma statics_same: "heap s' = heap s \<Longrightarrow> statics s' = statics s"
  by (simp add: statics_def fun_eq_iff)

lemma sender_stays:
  assumes ok: "sender_ok K time s" and inv: "server_inv s' \<and> m_packetSignature s' = m_packetSignature s"
    and filed: "filed K s'" and c: "heap s (p_ref K) = Some c" and c': "heap s' (p_ref K) = Some c'"
    and same: "m_reliableState c' = m_reliableState c" "m_reliableMessages c' = m_reliableMessages c"
      "m_reliableTimeoutPeriod c' = m_reliableTimeoutPeriod c" "needsReliableReset c' time \<longrightarrow> needsReliableReset c time"
  shows "sender_ok K time s'" and "same_link K s s'"
proof -
  from ok c have "client_ready time c" by (simp add: sender_ok_def)
  with same have "client_ready time c'" by (auto simp: client_ready_def synchronised_def)
  with ok inv filed c' show "sender_ok K time s'" by (simp add: sender_ok_def)
  from ok filed have "m_clientsById s' (p_id K) = m_clientsById s (p_id K)"
    "tryGetClientByAddress (p_addrR K) s' = tryGetClientByAddress (p_addrR K) s"
    by (simp_all add: sender_ok_def filed_def)
  with c c' same show "same_link K s s'" by (simp add: same_link_def sender_view_def same_reliable_def)
qed

text \<open>The link's client is untouched.\<close>

lemma sender_elsewhere:
  assumes "sender_ok K time s" and "server_inv s' \<and> m_packetSignature s' = m_packetSignature s"
    and "filed K s'" and "heap s' (p_ref K) = heap s (p_ref K)"
  shows "sender_ok K time s'" and "same_link K s s'"
proof -
  from assms(1) obtain c where "heap s (p_ref K) = Some c" by (auto simp: sender_ok_def)
  from sender_stays [OF assms(1,2,3) this] assms(4) this
  show "sender_ok K time s'" and "same_link K s s'" by simp_all
qed

lemma other_client:
  assumes "sender_ok K time s" and "m_clientsById s i = Some r" and "i \<noteq> p_id K"
  shows "r \<noteq> p_ref K"
proof
  assume "r = p_ref K"
  moreover have inv: "server_inv s" and "m_clientsById s (p_id K) = Some (p_ref K)"
    using assms(1) by (simp_all add: sender_ok_def filed_def)
  ultimately show False
    using server_inv_client(1) [OF inv, of i r] server_inv_client(1) [OF inv, of "p_id K" r] assms(2,3) by auto
qed

lemma other_statics:
  assumes "sender_ok K time s" and "r \<in> set (m_pendingClients s) \<union> ran (m_clientsById s)" and "r \<noteq> p_ref K"
    and "heap s r = Some c"
  shows "m_id c \<noteq> p_id K" and "end_point_of (m_outgoingAddress c) \<noteq> p_receiver K"
  using assms by (auto simp: sender_ok_def filed_def statics_def)

lemma client_keeps [simp]:
  "m_outgoingAddress (handshake_client st c) = m_outgoingAddress c"
  "m_reliableTimeoutPeriod (handshake_client st c) = m_reliableTimeoutPeriod c"
  "m_outgoingAddress (after_transmission time c) = m_outgoingAddress c"
  "m_id (after_transmission time c) = m_id c"
  "m_reliableTimeoutPeriod (after_transmission time c) = m_reliableTimeoutPeriod c"
  "m_reliableTimeoutPeriod (snd (receivePong x t c)) = m_reliableTimeoutPeriod c"
  "m_outgoingAddress (receiveConnectionHandshake t c) = m_outgoingAddress c"
  "m_outgoingAddress (retryConnecting t c) = m_outgoingAddress c"
  "m_outgoingAddress (setConnectionLost c) = m_outgoingAddress c"
  "m_outgoingAddress (reliableMessages_push msg c) = m_outgoingAddress c"
  by (simp_all add: handshake_client_def after_transmission_def client_op_defs Let_def)

lemma needsReset_keeps [simp]:
  "needsReliableReset (snd (receivePong x t c)) time = needsReliableReset c time"
  "needsReliableReset (setConnectionLost c) time = needsReliableReset c time"
  "needsReliableReset (handshake_client st c) time \<Longrightarrow> needsReliableReset c time"
  by (auto simp: needsReliableReset_def handshake_client_def client_op_defs Let_def split: if_splits)

section \<open>The sender's own steps\<close>

lemma sender_transmits:
  assumes ok: "sender_ok K time s" and tr: "traffic_documented (p_envS K) (p_traffic K)"
    and inv': "server_inv s' \<and> m_packetSignature s' = m_packetSignature s"
    and u: "update_reliable (p_envS K) time (p_ref K) s = Inr s'"
  shows "sender_run K s s' \<and> sender_ok K time s'"
proof -
  from ok obtain c where inv: "server_inv s" and c: "heap s (p_ref K) = Some c" and ready: "client_ready time c"
    and filed: "filed K s" and out: "end_point_of (m_outgoingAddress c) = p_receiver K"
    by (auto simp: sender_ok_def filed_def statics_def)
  note f = reliable_frame [OF inv tr c u]
  have sy: "synchronised c" and quiet: "\<not> needsReliableReset c time" using ready by (simp_all add: client_ready_def)
  note tx = transmission_synchronised [OF sy quiet]
  have stat: "statics s' = statics s" by (rule statics_update [OF c f(6)]) simp_all
  have filed': "filed K s'" by (rule filed_cong [OF filed stat f(2,3)]) (simp add: f(5))
  have "\<not> needsReliableReset (after_transmission time c) time"
    using ready by (auto simp: client_ready_def after_transmission_def needsReliableReset_def setSendReliable_def
        resetSendReliable_def setReliableState_def)
  then have ok': "sender_ok K time s'"
    using sender_stays(1) [OF ok inv' filed' c, of "after_transmission time c"] f(6) tx(2,3) by simp
  from emits_output [OF f(1)] obtain out where hist: "history (p_traffic K) s' = history (p_traffic K) s @ out"
    and none: "got_from (p_receiver K) out = []" by blast
  have sent: "sent_to (p_receiver K) out = [] \<or>
      (\<exists>g m. transmission time c = Some m \<and> sent_to (p_receiver K) out = [encode g m])"
    using f(1) hist \<open>end_point_of (m_outgoingAddress c) = p_receiver K\<close> unfolding emits_def by auto
  have kind: "is_reliable m \<and> \<not> is_reset m" if "transmission time c = Some m" for m
    using tx(1) that by (auto split: if_splits)
  have "sender_run K s s'"
    unfolding sender_run_def
  proof (intro exI conjI allI impI)
    show "history (p_traffic K) s' = history (p_traffic K) s @ out" by (rule hist)
    show "without is_reset (p_signature K) (sent_to (p_receiver K) out)" using sent kind by auto
    fix t F B B' P D
    assume "carries B (got_from (p_receiver K) out) B'"
    then have "carries B [] B'" by (simp add: none)
    then have "(p_step K)\<^sup>*\<^sup>* (link_of K s t F B P D) (link_of K s t F B' P D)"
      by (rule back_carried) simp
    also have "p_step K (link_of K s t F B' P D) ((link_of K s' t F B' P D)\<lparr>l_fwd :=
        messages_of is_reliable (p_signature K) F @ (case transmission time c of None \<Rightarrow> [] | Some m \<Rightarrow> [m])\<rparr>)"
      using link_step.transmit [of "link_of K s t F B' P D" "p_ref K" c time "p_envS K" s' "p_envR K" "p_id K" "p_addrS K" "p_addrR K"]
        c quiet u by (simp add: link_of_def)
    also have "(p_step K)\<^sup>*\<^sup>* ((link_of K s' t F B' P D)\<lparr>l_fwd :=
        messages_of is_reliable (p_signature K) F @ (case transmission time c of None \<Rightarrow> [] | Some m \<Rightarrow> [m])\<rparr>)
        (link_of K s' t (F @ sent_to (p_receiver K) out) B' P D)"
    proof (cases "\<exists>m. transmission time c = Some m \<and> messages_of is_reliable (p_signature K) (sent_to (p_receiver K) out) = []")
      case True
      then obtain m where m: "transmission time c = Some m"
        "messages_of is_reliable (p_signature K) (sent_to (p_receiver K) out) = []" by blast
      then show ?thesis
        using link_step.lose_fwd [of "(link_of K s' t F B' P D)\<lparr>l_fwd := messages_of is_reliable (p_signature K) F @ [m]\<rparr>"
            "messages_of is_reliable (p_signature K) F" m "[]"]
        by (simp add: link_of_def r_into_rtranclp)
    next
      case False
      have "messages_of is_reliable (p_signature K) (sent_to (p_receiver K) out) =
          (case transmission time c of None \<Rightarrow> [] | Some m \<Rightarrow> [m])"
        using sent kind False by (auto split: option.splits if_splits)
      then show ?thesis by (simp add: link_of_def)
    qed
    finally show "(p_step K)\<^sup>*\<^sup>* (link_of K s t F B P D) (link_of K s' t (F @ sent_to (p_receiver K) out) B' P D)" .
  qed
  with ok' show ?thesis by simp
qed

lemma filed_connected:
  assumes inv: "server_inv s" and filed: "filed K s" and conn: "client_connected time a s s'"
  shows "filed K s' \<and> heap s' (p_ref K) = heap s (p_ref K)"
proof -
  from conn obtain r rs c where p: "m_pendingClients s = r # rs" and c: "heap s r = Some c"
    and free: "tryGetClientByAddress a s = None" and h: "heap s' = (heap s)(r \<mapsto> receiveConnectionHandshake time c)"
    and ids: "m_clientsById s' = (m_clientsById s)(m_id c \<mapsto> r)"
    and addrs: "m_clientsByAddress s' = UdcAddressMap_insert (m_clientsByAddress s) a r" and p': "m_pendingClients s' = rs"
    by (auto simp: client_connected_def)
  have ne: "r \<noteq> p_ref K" using filed p by (auto simp: filed_def)
  have stat: "statics s' = statics s" by (rule statics_update [OF c h]) simp_all
  have "statics s r = Some (m_id c, end_point_of (m_outgoingAddress c))" using c by (simp add: statics_def)
  with filed p ne have id: "m_id c \<noteq> p_id K" by (auto simp: filed_def)
  have ran: "ran (m_clientsById s') \<subseteq> insert r (ran (m_clientsById s))"
    unfolding ids by (auto simp: ran_def)
  have addr: "end_point_of a \<noteq> p_receiver K"
  proof
    assume e: "end_point_of a = p_receiver K"
    have "tryGetClientByAddress a s = tryGetClientByAddress (p_addrR K) s"
      by (simp add: tryGetClientByAddress_def address_map.find_cong [OF e])
    with free filed show False by (simp add: filed_def)
  qed
  have "filed K s'"
    using filed ne id addr ran p stat
    by (auto simp: filed_def ids addrs p' tryGetClientByAddress_def address_map.find_insert map_of_nodes_insert
        split: if_splits)
  with ne show ?thesis by (simp add: h)
qed

lemma filed_answered:
  assumes filed: "filed K s" and ans: "client_answered acked time a s s'"
  shows "filed K s'"
proof -
  from ans obtain r c x st where c: "heap s r = Some c"
    and h: "heap s' r \<in> {Some (snd (receivePong x time c)), Some (snd (receivePong x time (handshake_client st c)))}"
      "heap s' = (heap s)(r := heap s' r)"
    and same: "m_clientsById s' = m_clientsById s" "m_clientsByAddress s' = m_clientsByAddress s"
      "m_pendingClients s' = m_pendingClients s"
    by (auto simp: client_answered_def)
  from h(1) obtain c' where "heap s' r = Some c'" "m_id c' = m_id c" "m_outgoingAddress c' = m_outgoingAddress c"
    by auto
  with h(2) have "statics s' = statics s" by (intro statics_update [OF c, of s' c']) simp_all
  from filed_cong [OF filed this same(1,2)] same(3) show ?thesis by simp
qed

text \<open>A datagram at the sender that is no acknowledgement of the receiver leaves the link alone.\<close>

lemma sender_handles:
  assumes ok: "sender_ok K time s" and inv': "server_inv s' \<and> m_packetSignature s' = m_packetSignature s"
    and cases: "same_clients s s' \<or> client_answered acked time a s s' \<or> client_connected time a s s'"
  shows "sender_ok K time s'" and "\<not> acked \<or> end_point_of a \<noteq> p_receiver K \<Longrightarrow> same_link K s s'"
proof -
  from ok have inv: "server_inv s" and filed: "filed K s" by (simp_all add: sender_ok_def)
  from ok obtain c where c: "heap s (p_ref K) = Some c" and ready: "client_ready time c" by (auto simp: sender_ok_def)
  from cases consider (same) "same_clients s s'" | (answered) "client_answered acked time a s s'"
    | (connected) "client_connected time a s s'" by blast
  then have "sender_ok K time s' \<and> (\<not> acked \<or> end_point_of a \<noteq> p_receiver K \<longrightarrow> same_link K s s')"
  proof cases
    case same
    then have "filed K s'" "heap s' (p_ref K) = heap s (p_ref K)"
      using filed filed_same_clients by (auto simp: same_clients_def)
    with sender_elsewhere [OF ok inv'] show ?thesis by blast
  next
    case connected
    with filed_connected [OF inv filed] sender_elsewhere [OF ok inv'] show ?thesis by blast
  next
    case answered
    note filed' = filed_answered [OF filed answered]
    from answered obtain r c0 x st where r: "tryGetClientByAddress a s = Some r" and c0: "heap s r = Some c0"
      and st: "st = -1 \<or> acked"
      and h: "heap s' r \<in> {Some (snd (receivePong x time c0)), Some (snd (receivePong x time (handshake_client st c0)))}"
        "heap s' = (heap s)(r := heap s' r)"
      by (auto simp: client_answered_def)
    show ?thesis
    proof (cases "r = p_ref K")
      case False
      then have "heap s' (p_ref K) = heap s (p_ref K)" by (subst h(2)) simp
      with sender_elsewhere [OF ok inv' filed'] show ?thesis by blast
    next
      case True
      with r filed have a: "end_point_of a = p_receiver K"
        by (auto simp: filed_def tryGetClientByAddress_def find_map_of_nodes)
      from True c0 c have eq: "c0 = c" by simp
      from h(1) True obtain c' where c': "heap s' (p_ref K) = Some c'"
        and cc: "c' = snd (receivePong x time c) \<or> c' = snd (receivePong x time (handshake_client st c))"
        by (auto simp: eq)
      have "synchronised (handshake_client st c)" if "synchronised c"
        using that by (auto simp: synchronised_def handshake_client_def next_state_def client_op_defs)
      with ready cc have "client_ready time c'"
        using needsReset_keeps(3) [of st c time] by (auto simp: client_ready_def synchronised_def)
      then have ok': "sender_ok K time s'" using ok inv' filed' c' by (simp add: sender_ok_def)
      have "same_link K s s'" if "\<not> acked"
      proof (rule sender_stays(2) [OF ok inv' filed' c c'])
        have "m_reliableState c \<noteq> -1" using ready by (auto simp: client_ready_def synchronised_def)
        then have "handshake_client (-1) c = c" by (simp add: handshake_client_def)
        with cc st that have "c' = snd (receivePong x time c)" by metis
        then show "m_reliableState c' = m_reliableState c" "m_reliableMessages c' = m_reliableMessages c"
          "m_reliableTimeoutPeriod c' = m_reliableTimeoutPeriod c" "needsReliableReset c' time \<longrightarrow> needsReliableReset c time"
          by simp_all
      qed
      with ok' a show ?thesis by blast
    qed
  qed
  then show "sender_ok K time s'" and "\<not> acked \<or> end_point_of a \<noteq> p_receiver K \<Longrightarrow> same_link K s s'" by blast+
qed

lemma sender_message:
  assumes ok: "sender_ok K time s" and tr: "traffic_documented (p_envS K) (p_traffic K)"
    and s1: "s1 = s\<lparr>m_messageBuffer := buf, m_socket := mux, process := p\<rparr>"
    and len: "length buf = length (m_messageBuffer s)" and n: "unat n \<le> length buf"
    and got: "history (p_traffic K) s1 = history (p_traffic K) s @ [Got (end_point_of a) (read_at 0 (unat n) buf)]"
    and h: "handle_message (p_envS K) time a n s1 = Inr (event, s')"
    and inv': "server_inv s' \<and> m_packetSignature s' = m_packetSignature s"
  shows "sender_run K s s' \<and> sender_ok K time s'"
proof -
  let ?d = "read_at 0 (unat n) buf" and ?g = "p_signature K"
  from ok have inv: "server_inv s" and sig: "m_packetSignature s = ?g" by (simp_all add: sender_ok_def)
  note mh = message_history [OF inv tr s1 len n got h, unfolded sig]
  from mh(1) obtain out where hist: "history (p_traffic K) s' = history (p_traffic K) s @ Got (end_point_of a) ?d # out"
    and out: "out = [] \<or> (\<exists>m m'. decode ?g ?d = Some m \<and> answer m = [m'] \<and> out = [Sent (end_point_of a) (encode ?g m')])"
    by blast
  have ok1: "sender_ok K time s1"
    using ok mh(3) by (auto simp: s1 sender_ok_def filed_def statics_def tryGetClientByAddress_def)
  have link1: "same_link K s s1" by (simp add: same_link_def s1 sender_view_def tryGetClientByAddress_def)
  have "server_inv s' \<and> m_packetSignature s' = m_packetSignature s1" using inv' by (simp add: s1)
  note hs = sender_handles [OF ok1 this handle_frame(1) [OF mh(3,4) tr h]]
  have ok': "sender_ok K time s'" by (rule hs(1))
  have kinds: "without is_reliable ?g (sent_to (p_receiver K) (Got (end_point_of a) ?d # out))"
    "without is_reset ?g (sent_to (p_receiver K) (Got (end_point_of a) ?d # out))"
    using out answer_kinds(2) by auto
  have "sender_run K s s'"
  proof (cases "end_point_of a = p_receiver K \<and> (\<exists>b t. decode ?g ?d = Some (Ack b t))")
    case False
    then have "\<not> holds is_ack n s1 \<or> end_point_of a \<noteq> p_receiver K"
      unfolding mh(2) by (metis is_ack.elims(2))
    then have "same_link K s1 s'" by (rule hs(2))
    then have same: "same_link K s s'"
      using link1 by (auto simp: same_link_def same_reliable_def)
    have "without is_ack ?g (got_from (p_receiver K) (Got (end_point_of a) ?d # out))"
      using False out by (auto elim!: is_ack.elims(2))
    from sender_quiet [OF hist same kinds this] show ?thesis .
  next
    case True
    then obtain b t where a: "end_point_of a = p_receiver K" and m: "decode ?g ?d = Some (Ack b t)" by blast
    with out have out: "out = []" by auto
    show ?thesis
      unfolding sender_run_def
    proof (intro exI conjI allI impI)
      show "history (p_traffic K) s' = history (p_traffic K) s @ Got (end_point_of a) ?d # out" by (rule hist)
      show "without is_reset ?g (sent_to (p_receiver K) (Got (end_point_of a) ?d # out))" by (rule kinds)
      fix tt F B B' P D
      assume "carries B (got_from (p_receiver K) (Got (end_point_of a) ?d # out)) B'"
      then have "carries B [?d] B'" by (simp add: a out)
      then obtain rest where c: "carries B [] (?d # rest)" "carries rest [] B'" by (auto dest: carries_next)
      let ?s0 = "s\<lparr>m_socket := mux, process := p\<rparr>"
      have arr: "arrived (Ack b t) n ?s0 s1"
        using n m sig by (auto simp: arrived_def received_def s1 intro!: exI [of _ buf])
      have "(p_step K)\<^sup>*\<^sup>* (link_of K s tt F B P D) (link_of K s tt F (?d # rest) P D)"
        by (rule back_carried [OF c(1)]) simp
      also have "p_step K (link_of K s tt F (?d # rest) P D) (link_of K ?s0 tt F (?d # rest) P D)"
        by (rule other_carried) (simp_all add: sender_view_def tryGetClientByAddress_def)
      also have "p_step K (link_of K ?s0 tt F (?d # rest) P D) (link_of K s' tt F rest P D)"
        using link_step.acknowledge [of "link_of K ?s0 tt F (?d # rest) P D" "Ack b t" "messages_of is_ack ?g rest" n s1 a
            "p_addrR K" "p_envS K" time event s' "p_envR K" "p_ref K" "p_id K" "p_addrS K"] m arr a h
        by (simp add: link_of_def)
      also have "(p_step K)\<^sup>*\<^sup>* (link_of K s' tt F rest P D) (link_of K s' tt F B' P D)"
        by (rule back_carried [OF c(2)]) simp
      finally show "(p_step K)\<^sup>*\<^sup>* (link_of K s tt F B P D)
          (link_of K s' tt (F @ sent_to (p_receiver K) (Got (end_point_of a) ?d # out)) B' P D)"
        by (simp add: out)
    qed
  qed
  with ok' show ?thesis by simp
qed

text \<open>The requests that would disturb the link: a second connection to the receiver, or closing the first.\<close>

definition undisturbed :: "'w parties \<Rightarrow> request set \<Rightarrow> bool" where
  "undisturbed K Q \<longleftrightarrow>
     (\<forall>i e. Open i e \<in> Q \<longrightarrow> i \<noteq> p_id K \<and> e \<noteq> p_receiver K) \<and> Close (p_id K) \<notin> Q \<and> Queue (p_id K) \<notin> Q"

lemma filed_with_pending:
  assumes inv: "server_inv s" and filed: "filed K s"
    and new: "m_id c \<noteq> p_id K" "end_point_of (m_outgoingAddress c) \<noteq> p_receiver K"
  shows "filed K (with_pending c s)" and "heap (with_pending c s) (p_ref K) = heap s (p_ref K)"
proof -
  have fresh: "r \<in> dom (heap s) \<Longrightarrow> r \<noteq> heap_next s" for r
    using inv by (auto simp: server_inv_def heap_ok_def)
  have known: "p_ref K \<noteq> heap_next s" "r \<in> set (m_pendingClients s) \<union> ran (m_clientsById s) \<Longrightarrow> r \<noteq> heap_next s" for r
  proof -
    have "set (m_pendingClients s) \<union> ran (m_clientsById s) \<subseteq> dom (heap s)"
      using inv by (auto simp: server_inv_def refs_ok_def)
    then show "r \<in> set (m_pendingClients s) \<union> ran (m_clientsById s) \<Longrightarrow> r \<noteq> heap_next s" using fresh by blast
    have "p_ref K \<in> dom (heap s)" using filed by (auto simp: filed_def statics_def)
    then show "p_ref K \<noteq> heap_next s" by (rule fresh)
  qed
  show "heap (with_pending c s) (p_ref K) = heap s (p_ref K)" using known by (simp add: with_pending_def)
  have stat: "statics (with_pending c s) = (statics s)(heap_next s \<mapsto> (m_id c, end_point_of (m_outgoingAddress c)))"
    by (simp add: statics_def with_pending_def fun_eq_iff)
  show "filed K (with_pending c s)"
    using filed known new unfolding filed_def stat
    by (auto simp: with_pending_def tryGetClientByAddress_def)
qed

lemma filed_disconnected:
  assumes ok: "sender_ok K time s" and call: "disconnectFromClient i s = Inr s'" and i: "i \<noteq> p_id K"
  shows "filed K s'"
proof -
  from ok have inv: "server_inv s" and filed: "filed K s" by (simp_all add: sender_ok_def)
  note f = disconnect_frame [OF inv call]
  have stat: "statics s' = statics s" by (rule statics_same [OF f(3)])
  have ran: "ran (m_clientsById s') \<subseteq> ran (m_clientsById s)" unfolding f(5) by (rule ran_upd_None_subset)
  have byId: "m_clientsById s' (p_id K) = Some (p_ref K)" using filed i by (simp add: f(5) filed_def)
  have addr: "tryGetClientByAddress (p_addrR K) s' = tryGetClientByAddress (p_addrR K) s \<and>
      (\<forall>e r. map_of_nodes (m_clientsByAddress s') e = Some r \<longrightarrow> map_of_nodes (m_clientsByAddress s) e = Some r)"
    using f(6)
  proof
    assume "\<exists>r c. m_clientsById s i = Some r \<and> heap s r = Some c \<and>
       m_clientsByAddress s' = UdcAddressMap_erase (m_clientsByAddress s) (m_outgoingAddress c)"
    then obtain r c where r: "m_clientsById s i = Some r" "heap s r = Some c"
      and e: "m_clientsByAddress s' = UdcAddressMap_erase (m_clientsByAddress s) (m_outgoingAddress c)" by blast
    have "end_point_of (m_outgoingAddress c) \<noteq> p_receiver K"
      by (rule other_statics(2) [OF ok _ other_client [OF ok r(1) i] r(2)]) (use r in \<open>auto simp: ran_def\<close>)
    then show ?thesis
      by (auto simp: e tryGetClientByAddress_def address_map.find_erase map_of_nodes_erase split: if_splits)
  qed (simp add: tryGetClientByAddress_def)
  show ?thesis
    using filed f(4) ran addr byId unfolding filed_def stat by (simp add: subset_iff) blast
qed

lemma action_sender:
  assumes act: "action (p_envS K) (p_traffic K) Q time s event s'" and ok: "sender_ok K time s"
    and tr: "traffic_documented (p_envS K) (p_traffic K)" and Q: "undisturbed K Q"
  shows "sender_run K s s' \<and> sender_ok K time s'"
proof -
  from ok have inv: "server_inv s" and filed: "filed K s" by (simp_all add: sender_ok_def)
  note inv' = action_inv [OF act inv]
  note elsewhere = sender_elsewhere [OF ok inv']
  have silent: ?thesis if "history (p_traffic K) s' = history (p_traffic K) s" "filed K s'"
    "heap s' (p_ref K) = heap s (p_ref K)"
    using elsewhere [OF that(2,3)] sender_quiet [of K s' s "[]"] that(1) by simp
  from act show ?thesis
  proof cases
    case (internal buf mux p)
    then have "same_clients s s'" by (simp add: same_clients_def)
    with internal(4) filed show ?thesis
      by (intro silent) (simp_all add: filed_same_clients, simp add: same_clients_def)
  next
    case (message s1 buf mux p n a)
    from sender_message [OF ok tr message inv'] show ?thesis .
  next
    case pending
    note f = pending_frame [OF inv tr pending]
    have not_r: "p_ref K \<notin> set (m_pendingClients s)" using filed by (simp add: filed_def)
    from f(7) obtain r c where h: "heap s' = heap s \<or> r \<in> set (m_pendingClients s) \<and> heap s r = Some c \<and>
       heap s' = (heap s)(r \<mapsto> retryConnecting time c)" by blast
    then have "statics s' = statics s" by (auto intro: statics_same statics_update)
    then have filed': "filed K s'" by (rule filed_cong [OF filed _ f(2,3,6)])
    moreover have "heap s' (p_ref K) = heap s (p_ref K)" using h not_r by auto
    ultimately have "same_link K s s'" "sender_ok K time s'" using elsewhere by blast+
    then show ?thesis by (intro conjI sender_emits [OF f(1)]) auto
  next
    case (reliable i r)
    show ?thesis
    proof (cases "r = p_ref K")
      case True
      with reliable(3) show ?thesis by (intro sender_transmits [OF ok tr inv']) simp
    next
      case False
      from reliable obtain c where c: "heap s r = Some c" using referenced [OF inv] by blast
      note f = reliable_frame [OF inv tr c reliable(3)]
      have "statics s' = statics s" by (rule statics_update [OF c f(6)]) simp_all
      then have "filed K s'" by (rule filed_cong [OF filed _ f(2,3)]) (simp add: f(5))
      moreover have "heap s' (p_ref K) = heap s (p_ref K)" using False by (simp add: f(6))
      ultimately have "same_link K s s'" "sender_ok K time s'" using elsewhere by blast+
      moreover have "end_point_of (m_outgoingAddress c) \<noteq> p_receiver K"
        by (rule other_statics(2) [OF ok _ False c]) (use reliable(2) in \<open>auto simp: ran_def\<close>)
      ultimately show ?thesis by (intro conjI sender_emits [OF f(1)]) auto
    qed
  next
    case (ping i r)
    from ping obtain c where c: "heap s r = Some c" using referenced [OF inv] by blast
    note f = ping_frame [OF inv tr c ping(3)]
    have "filed K s'" using filed filed_same_clients [OF f(2)] by simp
    moreover have "heap s' (p_ref K) = heap s (p_ref K)" using f(2) by (simp add: same_clients_def)
    ultimately have "same_link K s s'" "sender_ok K time s'" using elsewhere by blast+
    then show ?thesis by (intro conjI sender_emits [OF f(1)]) auto
  next
    case (lost i r)
    from lost obtain c where c: "heap s r = Some c" using referenced [OF inv] by blast
    note f = lost_frame [OF c lost(2)]
    have "statics s' = statics s" using f(7) by (auto intro: statics_same statics_update [OF c])
    then have filed': "filed K s'" by (rule filed_cong [OF filed _ f(2,3)]) (simp add: f(5))
    from ok obtain c0 where c0: "heap s (p_ref K) = Some c0" by (auto simp: sender_ok_def)
    obtain c' where "heap s' (p_ref K) = Some c'" "c' = c0 \<or> c' = setConnectionLost c0"
      using f(7) c c0 by (cases "r = p_ref K") auto
    then have "sender_ok K time s'" "same_link K s s'"
      using sender_stays [OF ok inv' filed' c0, of c'] by (auto simp: setConnectionLost_def needsReliableReset_def)
    then show ?thesis
      using sender_quiet [of K s' s "[]"] f(1) [of "p_traffic K"] by simp
  next
    case (connect address timeout start)
    let ?c = "new_client (m_idCounter s + 1) address timeout start"
    have "m_id ?c = m_idCounter s + 1" "m_outgoingAddress ?c = address"
      by (simp_all add: new_client_def startConnecting_def UdcClient_ctor_def)
    with connect Q have "m_id ?c \<noteq> p_id K" "end_point_of (m_outgoingAddress ?c) \<noteq> p_receiver K"
      by (auto simp: undisturbed_def)
    note f = filed_with_pending [OF inv filed this]
    show ?thesis
      by (rule silent) (simp_all add: connect f, simp add: with_pending_def history_def)
  next
    case (disconnect i)
    then have "i \<noteq> p_id K" using Q by (auto simp: undisturbed_def)
    from filed_disconnected [OF ok disconnect(3) this] disconnect_frame(1,3) [OF inv disconnect(3)]
    show ?thesis by (intro silent) simp_all
  next
    case (queue i data n b)
    then have i: "i \<noteq> p_id K" using Q by (auto simp: undisturbed_def)
    note f = queue_frame [OF queue(4)]
    have "statics s' = statics s \<and> heap s' (p_ref K) = heap s (p_ref K)"
      using f(6)
    proof
      assume "\<exists>r c. m_clientsById s i = Some r \<and> heap s r = Some c \<and>
         heap s' = (heap s)(r \<mapsto> reliableMessages_push (take (unat n) data) c)"
      then obtain r c where r: "m_clientsById s i = Some r" "heap s r = Some c"
        and h: "heap s' = (heap s)(r \<mapsto> reliableMessages_push (take (unat n) data) c)" by blast
      have "statics s' = statics s" by (rule statics_update [OF r(2) h]) simp_all
      with other_client [OF ok r(1) i] show ?thesis by (simp add: h)
    next
      assume "heap s' = heap s"
      then show ?thesis using statics_same [of s' s] by metis
    qed
    then have "filed K s'" "heap s' (p_ref K) = heap s (p_ref K)"
      using filed_cong [OF filed _ f(3,4)] f(5) by simp_all
    with f(1) show ?thesis by (intro silent) simp_all
  next
    case (send i data n b)
    note f = unreliable_frame [OF inv tr send(3,4)]
    have "filed K s'" using filed filed_same_clients [OF f(2)] by simp
    moreover have "heap s' (p_ref K) = heap s (p_ref K)" using f(2) by (simp add: same_clients_def)
    ultimately have "same_link K s s'" "sender_ok K time s'" using elsewhere by blast+
    then show ?thesis by (intro conjI sender_emits [OF f(1)]) auto
  qed
qed

lemma actions_sender:
  assumes "actions (p_envS K) (p_traffic K) Q time s event s'" and "sender_ok K time s"
    and tr: "traffic_documented (p_envS K) (p_traffic K)" and Q: "undisturbed K Q"
  shows "sender_run K s s' \<and> sender_ok K time s'"
  using assms(1,2)
proof (induction rule: actions.induct)
  case (none s)
  then show ?case using sender_quiet [of K s s "[]"] by (simp add: same_link_def)
next
  case (last s event s')
  then show ?case by (rule action_sender [OF _ _ tr Q])
next
  case (cons s s1 event s')
  then show ?case using action_sender [OF cons(1) cons(4) tr Q] sender_run_trans by blast
qed

section \<open>The system\<close>

text \<open>
  The servers, the datagrams under way in both directions, the reliable messages accepted for the link's client and
  the payloads the receiver's application has read of reliable message events from the sender.
\<close>

record 'w net =
  n_sender :: "'w UdcServerImpl"
  n_receiver :: "'w UdcServerImpl"
  n_fwd :: "byte list list"
  n_back :: "byte list list"
  n_pushed :: "byte list list"
  n_delivered :: "byte list list"

text \<open>
  One step: the sender's application hands over a reliable message for the link; either application makes any other call,
  the sender's without disturbing the link and, when it processes events, without a reset of the link being due;
  or the operating system of either changes between calls.
\<close>

inductive net_step :: "'w parties \<Rightarrow> 'w net \<Rightarrow> 'w net \<Rightarrow> bool" for K where
  send: "udcSendMessage (p_envS K) (n_sender N) (p_id K) data n UDC_RELIABLE_MESSAGE = Inr (b, s') \<Longrightarrow> sendable data n \<Longrightarrow>
     net_step K N (N\<lparr>n_sender := s', n_pushed := n_pushed N @ (if b then [take (unat n) data] else [])\<rparr>)"
| sender: "perform (p_envS K) c (n_sender N) = Inr (reply, s') \<Longrightarrow> call_sendable c \<Longrightarrow>
     undisturbed K (requests (p_envS K) c (n_sender N)) \<Longrightarrow>
     (\<And>cl. is_process c \<Longrightarrow> heap (n_sender N) (p_ref K) = Some cl \<Longrightarrow>
        \<not> needsReliableReset cl (call_time (p_envS K) (n_sender N))) \<Longrightarrow>
     history (p_traffic K) s' = history (p_traffic K) (n_sender N) @ tr \<Longrightarrow>
     carries (n_back N) (got_from (p_receiver K) tr) back' \<Longrightarrow>
     net_step K N (N\<lparr>n_sender := s', n_fwd := n_fwd N @ sent_to (p_receiver K) tr, n_back := back'\<rparr>)"
| receiver: "perform (p_envR K) c (n_receiver N) = Inr (reply, t') \<Longrightarrow> call_sendable c \<Longrightarrow>
     history (p_traffic K) t' = history (p_traffic K) (n_receiver N) @ tr \<Longrightarrow>
     carries (n_fwd N) (got_from (p_sender K) tr) fwd' \<Longrightarrow>
     net_step K N (N\<lparr>n_receiver := t', n_fwd := fwd', n_back := n_back N @ sent_to (p_sender K) tr,
       n_delivered := n_delivered N @ reliable_payload (p_sender K) (reply_event reply) t'\<rparr>)"
| sender_system: "p_traffic K (os p) = history (p_traffic K) (n_sender N) \<Longrightarrow>
     net_step K N (N\<lparr>n_sender := (n_sender N)\<lparr>process := p\<rparr>\<rparr>)"
| receiver_system: "p_traffic K (os p) = history (p_traffic K) (n_receiver N) \<Longrightarrow>
     net_step K N (N\<lparr>n_receiver := (n_receiver N)\<lparr>process := p\<rparr>\<rparr>)"

definition net_ok :: "'w parties \<Rightarrow> 'w net \<Rightarrow> bool" where
  "net_ok K N \<longleftrightarrow>
     server_inv (n_sender N) \<and> m_packetSignature (n_sender N) = p_signature K \<and> filed K (n_sender N) \<and>
     (\<exists>c. heap (n_sender N) (p_ref K) = Some c \<and> synchronised c \<and> 0 < m_reliableTimeoutPeriod c) \<and>
     server_inv (n_receiver N) \<and> m_packetSignature (n_receiver N) = p_signature K \<and>
     without is_reset (p_signature K) (n_fwd N)"

text \<open>The system when the sender has just connected: whatever else is under way, nothing reliable is.\<close>

definition net_fresh :: "'w parties \<Rightarrow> 'w net \<Rightarrow> bool" where
  "net_fresh K N \<longleftrightarrow> net_ok K N \<and>
     (\<forall>c. heap (n_sender N) (p_ref K) = Some c \<longrightarrow> m_reliableState c = 0 \<and> m_reliableMessages c = []) \<and>
     UdcAddressMap_find (m_reliableStates (n_receiver N)) (p_addrS K) = None \<and>
     messages_of is_reliable (p_signature K) (n_fwd N) = [] \<and> messages_of is_ack (p_signature K) (n_back N) = [] \<and>
     n_pushed N = [] \<and> n_delivered N = []"

inductive net_reachable :: "'w parties \<Rightarrow> 'w net \<Rightarrow> bool" for K where
  fresh: "net_fresh K N \<Longrightarrow> net_reachable K N"
| step: "net_reachable K N \<Longrightarrow> net_step K N N' \<Longrightarrow> net_reachable K N'"

abbreviation net_link :: "'w parties \<Rightarrow> 'w net \<Rightarrow> 'w link" where
  "net_link K N \<equiv> link_of K (n_sender N) (n_receiver N) (n_fwd N) (n_back N) (n_pushed N) (n_delivered N)"

lemma link_of_push:
  assumes "sendReliableMessage (p_id K) data n s = Inr (True, s')"
  shows "p_step K (link_of K s t F B P D) (link_of K s' t F B (P @ [take (unat n) data]) D)"
  using link_step.queue [of "p_id K" data n "link_of K s t F B P D" s' "p_envS K" "p_envR K" "p_ref K" "p_addrS K" "p_addrR K"]
    assms by (simp add: link_of_def)

lemma sendReliableMessage_refused: "sendReliableMessage eid data n s = Inr (False, s') \<Longrightarrow> s' = s"
  by (auto simp: sendReliableMessage_def bind_r_Inr_iff split: if_splits option.splits)

text \<open>Whenever no reset is due, a state of the system has a ready sender.\<close>

lemma net_sender_ok:
  assumes "net_ok K N" and "heap (n_sender N) (p_ref K) = Some c" and "\<not> needsReliableReset c time"
  shows "sender_ok K time (n_sender N)"
  using assms by (auto simp: net_ok_def sender_ok_def client_ready_def)

lemma sender_ok_ready:
  assumes "sender_ok K time s"
  shows "server_inv s \<and> m_packetSignature s = p_signature K \<and> filed K s \<and>
     (\<exists>c. heap s (p_ref K) = Some c \<and> synchronised c \<and> 0 < m_reliableTimeoutPeriod c)"
  using assms by (auto simp: sender_ok_def client_ready_def)

lemma push_keeps [simp]:
  "m_reliableTimeoutPeriod (reliableMessages_push msg c) = m_reliableTimeoutPeriod c"
  "synchronised (reliableMessages_push msg c) = synchronised c"
  "m_id (reliableMessages_push msg c) = m_id c"
  by (simp_all add: reliableMessages_push_def synchronised_def)

lemma net_send_ok:
  assumes ok: "net_ok K N" and data: "sendable data n"
    and call: "sendReliableMessage (p_id K) data n (n_sender N) = Inr (True, s')"
  shows "net_ok K (N\<lparr>n_sender := s', n_pushed := P\<rparr>)"
proof -
  from ok obtain c where inv: "server_inv (n_sender N)" and filed: "filed K (n_sender N)"
    and c: "heap (n_sender N) (p_ref K) = Some c" "synchronised c" "0 < m_reliableTimeoutPeriod c"
    by (auto simp: net_ok_def)
  from sendReliableMessage_safe [OF inv, of n data "p_id K"] data call
  have inv': "server_inv s'" "m_packetSignature s' = m_packetSignature (n_sender N)"
    by (simp_all add: sendable_def kept_def)
  note f = queue_frame [OF call]
  have byId: "m_clientsById (n_sender N) (p_id K) = Some (p_ref K)" using filed by (simp add: filed_def)
  have h: "heap s' (p_ref K) \<in> {Some c, Some (reliableMessages_push (take (unat n) data) c)}" and stat: "statics s' = statics (n_sender N)"
    using f(6)
  proof (atomize (full), elim disjE exE conjE)
    assume "heap s' = heap (n_sender N)"
    then show "heap s' (p_ref K) \<in> {Some c, Some (reliableMessages_push (take (unat n) data) c)} \<and> statics s' = statics (n_sender N)"
      using c(1) statics_same [of s' "n_sender N"] by (simp only: simp_thms insert_iff)
  next
    fix r c0
    assume r: "m_clientsById (n_sender N) (p_id K) = Some r" "heap (n_sender N) r = Some c0"
      and h: "heap s' = (heap (n_sender N))(r \<mapsto> reliableMessages_push (take (unat n) data) c0)"
    with byId c(1) have "r = p_ref K" "c0 = c" by auto
    with h statics_update [OF r(2) h] show "heap s' (p_ref K) \<in> {Some c, Some (reliableMessages_push (take (unat n) data) c)} \<and> statics s' = statics (n_sender N)"
      by simp
  qed
  have "filed K s'" by (rule filed_cong [OF filed stat f(3,4)]) (simp add: f(5))
  with ok inv' h c show ?thesis by (auto simp: net_ok_def)
qed

text \<open>A step of the system is a run of the link.\<close>

lemma net_step_link:
  assumes doc: "parties_documented K" and step: "net_step K N N'" and ok: "net_ok K N"
  shows "(p_step K)\<^sup>*\<^sup>* (net_link K N) (net_link K N') \<and> net_ok K N'"
  using step
proof cases
  case (send data n b s')
  then have call: "sendReliableMessage (p_id K) data n (n_sender N) = Inr (b, s')"
    by (simp add: udcSendMessage_def)
  show ?thesis
  proof (cases b)
    case True
    with call have q: "sendReliableMessage (p_id K) data n (n_sender N) = Inr (True, s')" by simp
    from link_of_push [OF q] net_send_ok [OF ok send(3) q] send(1) True show ?thesis
      by (auto intro: r_into_rtranclp)
  next
    case False
    with call have "s' = n_sender N" by (intro sendReliableMessage_refused) simp
    with send(1) False ok show ?thesis by simp
  qed
next
  case (sender c reply s' tr back')
  from ok obtain cl where inv: "server_inv (n_sender N)" and cl: "heap (n_sender N) (p_ref K) = Some cl" "0 < m_reliableTimeoutPeriod cl"
    by (auto simp: net_ok_def)
  define time where "time = (if is_process c then call_time (p_envS K) (n_sender N) else m_reliableSentTime cl)"
  have "\<not> needsReliableReset cl time"
    using sender(5) cl by (auto simp: time_def needsReliableReset_def)
  note sok = net_sender_ok [OF ok cl(1) this]
  have "actions (p_envS K) (p_traffic K) (requests (p_envS K) c (n_sender N)) time (n_sender N) (reply_event reply) s'"
    using doc by (intro perform_actions [OF inv _ _ sender(3,2)]) (simp_all add: parties_documented_def time_def)
  from actions_sender [OF this sok _ sender(4)] doc
  have run: "sender_run K (n_sender N) s'" and sok': "sender_ok K time s'" by (simp_all add: parties_documented_def)
  from run sender(6) have "without is_reset (p_signature K) (sent_to (p_receiver K) tr)"
    and "\<And>t F B B' P D. carries B (got_from (p_receiver K) tr) B' \<Longrightarrow>
         (p_step K)\<^sup>*\<^sup>* (link_of K (n_sender N) t F B P D) (link_of K s' t (F @ sent_to (p_receiver K) tr) B' P D)"
    by (auto simp: sender_run_def)
  with sender(1,7) ok sender_ok_ready [OF sok'] show ?thesis by (auto simp: net_ok_def)
next
  case (receiver c reply t' tr fwd')
  from ok have inv: "server_inv (n_receiver N)" and sig: "m_packetSignature (n_receiver N) = p_signature K"
    and clean: "without is_reset (p_signature K) (n_fwd N)" by (auto simp: net_ok_def)
  have acts: "actions (p_envR K) (p_traffic K) (requests (p_envR K) c (n_receiver N))
      (call_time (p_envR K) (n_receiver N)) (n_receiver N) (reply_event reply) t'"
    using doc by (intro perform_actions [OF inv _ _ receiver(3,2)]) (simp_all add: parties_documented_def)
  from actions_receiver [OF acts inv sig] doc have run: "receiver_run K (n_receiver N) (reply_event reply) t'"
    by (simp add: parties_documented_def)
  from run receiver(4) clean receiver(5)
  have "(p_step K)\<^sup>*\<^sup>* (link_of K (n_sender N) (n_receiver N) (n_fwd N) (n_back N) (n_pushed N) (n_delivered N))
     (link_of K (n_sender N) t' fwd' (n_back N @ sent_to (p_sender K) tr) (n_pushed N)
       (n_delivered N @ reliable_payload (p_sender K) (reply_event reply) t'))"
    by (auto simp: receiver_run_def)
  moreover have "without is_reset (p_signature K) fwd'"
    using without_subset [OF clean carries_subset [OF receiver(5)]] .
  ultimately show ?thesis
    using receiver(1) ok actions_inv [OF acts inv] by (auto simp: net_ok_def)
next
  case (sender_system p)
  let ?s = "(n_sender N)\<lparr>process := p\<rparr>"
  have "server_inv (n_sender N)" using ok by (simp add: net_ok_def)
  from server_inv_received [OF this, of "m_messageBuffer (n_sender N)" p "m_socket (n_sender N)"]
  have "server_inv ?s" by simp
  moreover have "filed K ?s = filed K (n_sender N)"
    by (rule filed_same_clients) (simp add: same_clients_def)
  moreover have "p_step K (net_link K N) (link_of K ?s (n_receiver N) (n_fwd N) (n_back N) (n_pushed N) (n_delivered N))"
    by (rule other_carried) (simp_all add: sender_view_def tryGetClientByAddress_def)
  ultimately show ?thesis using sender_system(1) ok by (auto simp: net_ok_def)
next
  case (receiver_system p)
  let ?t = "(n_receiver N)\<lparr>process := p\<rparr>"
  have "server_inv (n_receiver N)" using ok by (simp add: net_ok_def)
  from server_inv_received [OF this, of "m_messageBuffer (n_receiver N)" p "m_socket (n_receiver N)"]
  have "server_inv ?t" by simp
  moreover have "p_step K (net_link K N) (link_of K (n_sender N) ?t (n_fwd N) (n_back N) (n_pushed N) (n_delivered N))"
    by (rule other_carried) simp_all
  ultimately show ?thesis using receiver_system(1) ok by (auto simp: net_ok_def)
qed

lemma net_fresh_link:
  "net_fresh K N \<Longrightarrow> link_fresh (p_ref K) (p_id K) (p_addrS K) (p_addrR K) (net_link K N)"
  by (auto simp: net_fresh_def net_ok_def link_fresh_def link_of_def sender_view_def filed_def)

lemma net_reachable_link:
  assumes doc: "parties_documented K"
  shows "net_reachable K N \<Longrightarrow>
    link_reachable (p_envS K) (p_envR K) (p_ref K) (p_id K) (p_addrS K) (p_addrR K) (net_link K N) \<and> net_ok K N"
proof (induction rule: net_reachable.induct)
  case (fresh N)
  from link_reachable.fresh [OF net_fresh_link [OF fresh]] fresh show ?case by (simp add: net_fresh_def)
next
  case (step N N')
  with net_step_link [OF doc step(2)] show ?case by (blast intro: link_reachable_steps)
qed

end
