(* ===== verification/Sim_Net.thy ===== *)
theory Sim_Net
  imports Traffic
begin

text \<open>
  A concrete platform, used to show that the hypotheses about the platform can hold and to run
  the server on examples: one queue of arriving datagrams per address family, the history of
  datagrams exchanged and a clock. \<open>recvfrom\<close> hands out the queue, reports \<open>WSAEMSGSIZE\<close> for a datagram
  longer than the buffer and \<open>WSAEWOULDBLOCK\<close> for an empty queue; sockets are numbered and the
  open ones listed; network byte order is the host's.
\<close>

record sim_world =
  sw_in4 :: "(byte list \<times> sockaddr_in) list"
  sw_in6 :: "(byte list \<times> sockaddr_in6) list"
  sw_traffic :: "io list"
  sw_clock :: milliseconds
  sw_sockets :: "64 word"
  sw_open :: "64 word list"

definition sim_recv :: "int \<Rightarrow> 'a \<Rightarrow> (byte list \<times> 'a) list \<Rightarrow> 'a recv_result \<times> (byte list \<times> 'a) list" where
  "sim_recv len nowhere queue =
     (if len < 0 then (\<lparr>rr_result = SOCKET_ERROR, rr_error = 10014, rr_written = [], rr_from = nowhere\<rparr>, queue)
      else case queue of
        [] \<Rightarrow> (\<lparr>rr_result = SOCKET_ERROR, rr_error = WSAEWOULDBLOCK, rr_written = [], rr_from = nowhere\<rparr>, [])
      | (d, from) # rest \<Rightarrow>
          if int (length d) \<le> len
          then (\<lparr>rr_result = int (length d), rr_error = 0, rr_written = d, rr_from = from\<rparr>, rest)
          else (\<lparr>rr_result = SOCKET_ERROR, rr_error = WSAEMSGSIZE, rr_written = take (nat len) d,
                 rr_from = from\<rparr>, rest))"

definition nowhere4 :: sockaddr_in where
  "nowhere4 = \<lparr>sin_family = AF_INET, sin_port = 0, sin_addr = S_un_b 0 0 0 0\<rparr>"

definition nowhere6 :: sockaddr_in6 where
  "nowhere6 = \<lparr>sin6_family = AF_INET6, sin6_port = 0, sin6_flowinfo = 0,
     sin6_addr = IN6ADDR_ANY_INIT, sin6_scope_id = 0\<rparr>"

definition sim_port4 :: "sockaddr_in \<Rightarrow> end_point" where
  "sim_port4 a = EP_IPv4 (convertInaddrToIPv4 (sin_addr a)) (sin_port a)"

definition sim_port6 :: "sockaddr_in6 \<Rightarrow> end_point" where
  "sim_port6 a = EP_IPv6 (convertInaddrToIPv6 (sin6_addr a)) (sin6_port a)"

definition sim_env :: "sim_world platform_api" where
  "sim_env =
     \<lparr>api_WSAStartup = \<lambda>w. (NO_ERROR, w),
      api_WSACleanup = \<lambda>w. w,
      api_socket = \<lambda>_ _ _ w.
        (if sw_sockets w = INVALID_SOCKET \<or> sw_sockets w \<in> set (sw_open w) then (INVALID_SOCKET, w)
         else (sw_sockets w, w\<lparr>sw_sockets := sw_sockets w + 1, sw_open := sw_sockets w # sw_open w\<rparr>)),
      api_closesocket = \<lambda>h w. w\<lparr>sw_open := removeAll h (sw_open w)\<rparr>,
      api_bind_in = \<lambda>_ _ w. (0, w),
      api_bind_in6 = \<lambda>_ _ w. (0, w),
      api_ioctlsocket_FIONBIO = \<lambda>_ _ w. (0, w),
      api_setsockopt_IPV6_V6ONLY = \<lambda>_ _ w. (0, w),
      api_sendto_in = \<lambda>_ d n a w. (n, w\<lparr>sw_traffic := sw_traffic w @ [Sent (sim_port4 a) d]\<rparr>),
      api_sendto_in6 = \<lambda>_ d n a w. (n, w\<lparr>sw_traffic := sw_traffic w @ [Sent (sim_port6 a) d]\<rparr>),
      api_recvfrom_in = \<lambda>_ len w.
        (let (r, q) = sim_recv len nowhere4 (sw_in4 w) in
          (r, w\<lparr>sw_in4 := q, sw_traffic := sw_traffic w @ taken r (sim_port4 (rr_from r))\<rparr>)),
      api_recvfrom_in6 = \<lambda>_ len w.
        (let (r, q) = sim_recv len nowhere6 (sw_in6 w) in
          (r, w\<lparr>sw_in6 := q, sw_traffic := sw_traffic w @ taken r (sim_port6 (rr_from r))\<rparr>)),
      api_getaddrinfo = \<lambda>_ _ _ _ _ w. ((11001, []), w),
      api_htons = id,
      api_ntohs = id,
      api_now = \<lambda>w. (sw_clock w, w),
      file_opens = \<lambda>_. False,
      unordered_order = \<lambda>m. sorted_list_of_set (dom m),
      uninit_address = \<lparr>am_family = UDC_IPV4, am_address = IPv6 0 0 0 0 0 0 0 0, am_port = 0\<rparr>,
      uninit_ping = 0\<rparr>"

definition sim_backlog :: "sim_world \<Rightarrow> nat" where
  "sim_backlog w = length (sw_in4 w) + length (sw_in6 w)"

lemma sim_recv_fits: "0 \<le> len \<Longrightarrow> recv_result_fits len (fst (sim_recv len a q))"
  by (auto simp: sim_recv_def recv_result_fits_def split: list.split)

lemma sim_recv_queue:
  "length (snd (sim_recv len a q)) \<le> length q"
  "rr_result (fst (sim_recv len a q)) \<notin> {0, SOCKET_ERROR} \<Longrightarrow> length (snd (sim_recv len a q)) < length q"
  by (auto simp: sim_recv_def split: list.splits if_splits)

lemma sim_recv_negative:
  "len < 0 \<Longrightarrow> rr_result (fst (sim_recv len a q)) = SOCKET_ERROR \<and> rr_written (fst (sim_recv len a q)) = []"
  by (simp add: sim_recv_def)

lemma sim_documented: "platform_documented sim_env sim_backlog"
proof -
  have "recvfrom_documented sim_env"
    by (simp add: recvfrom_documented_def sim_env_def case_prod_beta sim_recv_fits)
  moreover have "recvfrom_rejects_negative sim_env"
    by (simp add: recvfrom_rejects_negative_def sim_env_def case_prod_beta sim_recv_negative [simplified])
  moreover have "iteration_documented sim_env"
    by (simp add: iteration_documented_def sim_env_def)
  moreover have "finite_traffic sim_env sim_backlog"
    by (simp add: finite_traffic_def sim_env_def case_prod_beta sim_backlog_def
        sim_recv_queue [simplified])
  ultimately show ?thesis by (simp add: platform_documented_def)
qed

lemma sim_polling: "polling_documented sim_env"
  using sim_documented by (simp add: platform_documented_def polling_documented_def)

lemma sim_calls:
  "api_recvfrom_in sim_env h len w = (let (r, q) = sim_recv len nowhere4 (sw_in4 w) in
     (r, w\<lparr>sw_in4 := q, sw_traffic := sw_traffic w @ taken r (sim_port4 (rr_from r))\<rparr>))"
  "api_recvfrom_in6 sim_env h len w = (let (r, q) = sim_recv len nowhere6 (sw_in6 w) in
     (r, w\<lparr>sw_in6 := q, sw_traffic := sw_traffic w @ taken r (sim_port6 (rr_from r))\<rparr>))"
  "api_sendto_in sim_env h d n a w = (n, w\<lparr>sw_traffic := sw_traffic w @ [Sent (sim_port4 a) d]\<rparr>)"
  "api_sendto_in6 sim_env h d n b w = (n, w\<lparr>sw_traffic := sw_traffic w @ [Sent (sim_port6 b) d]\<rparr>)"
  "api_now sim_env w = (sw_clock w, w)" "api_WSAStartup sim_env w = (NO_ERROR, w)"
  "api_closesocket sim_env h w = w\<lparr>sw_open := removeAll h (sw_open w)\<rparr>"
  "api_bind_in sim_env h a w = (0, w)" "api_bind_in6 sim_env h b w = (0, w)"
  "api_ioctlsocket_FIONBIO sim_env h x w = (0, w)" "api_setsockopt_IPV6_V6ONLY sim_env h x w = (0, w)"
  "api_htons sim_env p = p" "api_ntohs sim_env p = p"
  "uninit_address sim_env = \<lparr>am_family = UDC_IPV4, am_address = IPv6 0 0 0 0 0 0 0 0, am_port = 0\<rparr>"
  by (simp_all add: sim_env_def)

lemma sim_port:
  "sim_port4 (createAddressIPv4 sim_env ip4 port) = EP_IPv4 ip4 port"
  "sim_port6 (createAddressIPv6 sim_env ip6 port) = EP_IPv6 ip6 port"
  by (cases ip4; cases ip6; simp add: sim_port4_def sim_port6_def createAddressIPv4_def createAddressIPv6_def sim_env_def)+

lemma sim_from: "from_in sim_env = sim_port4" "from_in6 sim_env = sim_port6"
  by (simp_all add: from_in_def from_in6_def sim_port4_def sim_port6_def fun_eq_iff sim_env_def)

lemma sim_traffic: "traffic_documented sim_env sw_traffic"
  unfolding traffic_documented_def sim_from
  by (auto simp: sim_calls case_prod_beta sim_port) (simp_all add: sim_env_def)

lemma sim_byte_order: "byte_order_documented sim_env"
  by (simp add: byte_order_documented_def sim_env_def)

section \<open>Two servers\<close>

definition sim_signature :: UdcSignature where
  "sim_signature = UdcSignature 1 2 3 4"

definition sim_mux :: UdcSocketMux where
  "sim_mux = \<lparr>m_socketIPv4 = [\<lparr>us_socket = 1\<rparr>], m_socketIPv6 = [], m_logger = None\<rparr>"

definition sim_process :: "milliseconds \<Rightarrow> sim_world Process" where
  "sim_process time = \<lparr>winSockReference = True,
     os = \<lparr>sw_in4 = [], sw_in6 = [], sw_traffic = [], sw_clock = time, sw_sockets = 2, sw_open = [1]\<rparr>\<rparr>"

text \<open>A server bound to one IPv4 socket, with a message buffer of 16 bytes and no client.\<close>

definition sim_server :: "milliseconds \<Rightarrow> sim_world UdcServerImpl" where
  "sim_server time = initial_server sim_mux sim_signature (replicate 16 0) 16 (sim_process time)"

definition sim_peer :: UdcAddressMux where
  "sim_peer = mux_of_ipv4 (IPv4 127 0 0 1) 1234"

text \<open>The same server with one connected client, under id 1.\<close>

definition sim_client :: UdcClient where
  "sim_client = (UdcClient_ctor 1 sim_peer 100 1000)\<lparr>m_isConnected := True, m_lastReceivedTime := 50\<rparr>"

definition sim_connected :: "milliseconds \<Rightarrow> sim_world UdcServerImpl" where
  "sim_connected time = (sim_server time)
     \<lparr>m_idCounter := 1, heap := [0 \<mapsto> sim_client], heap_next := 1, m_clientsById := [1 \<mapsto> 0],
      m_clientsByAddress := [(sim_peer, 0)]\<rparr>"

text \<open>And with a client that is still connecting.\<close>

definition sim_pending :: "milliseconds \<Rightarrow> sim_world UdcServerImpl" where
  "sim_pending time = with_pending (new_client 1 sim_peer 1000 time) (sim_server time)"

lemma sim_server_inv: "server_inv (sim_server time)"
  unfolding sim_server_def by (rule initial_server_inv) (simp_all add: fits_iff)

lemma sim_connected_inv: "server_inv (sim_connected time)"
  using sim_server_inv [of time]
  by (simp add: sim_connected_def inv_defs sim_client_def client_wf_def UdcClient_ctor_def
      map_of_nodes_def sim_server_def initial_server_def ran_def)

lemma sim_pending_inv: "server_inv (sim_pending time)"
  unfolding sim_pending_def
  by (rule server_inv_with_pending [OF sim_server_inv]) (simp add: new_client_def)

lemma sim_signed: "signed (sim_server time)" "signed (sim_connected time)" "signed (sim_pending time)"
  by (simp_all add: stamped_def sim_server_def sim_connected_def sim_pending_def with_pending_def
      initial_server_def sim_signature_def read_at_def write_at_def)

text \<open>A server just created by \<open>udcCreateServer\<close>.\<close>

definition sim_start :: "u32 \<Rightarrow> sim_world UdcServerImpl" where
  "sim_start bsize = initial_server UdcSocketMux_ctor sim_signature (replicate (unat bsize) 0) bsize (sim_process 0)"

lemma sim_start_reachable: "server_reachable sim_env sim_backlog 0 (sim_start 16)"
proof (rule server_reachable.created)
  show "fits 16 (replicate 16 (0 :: byte))" by (simp add: fits_iff)
  then show "udcCreateServer sim_env sim_signature (replicate 16 0) 16 None (sim_process 0) = Inr (Some (sim_start 16))"
    by (simp add: udcCreateServer_eq sim_start_def)
qed

lemma sim_start_backlog: "to_come sim_backlog (sim_start bsize) = 0"
  by (simp add: to_come_def sim_start_def initial_server_def sim_process_def sim_backlog_def)

section \<open>A message that has just arrived\<close>

definition sim_holding :: "message \<Rightarrow> sim_world UdcServerImpl \<Rightarrow> sim_world UdcServerImpl" where
  "sim_holding m s = s\<lparr>m_messageBuffer := write_at 0 (encode sim_signature m) (replicate 16 0)\<rparr>"

definition sim_size :: "message \<Rightarrow> u32" where
  "sim_size m = of_nat (5 + length (message_body m))"

lemma sim_holding_received:
  assumes "length (message_body m) \<le> 11" and "m_packetSignature s = sim_signature"
  shows "received (sim_size m) (sim_holding m s) = Some m"
    and "unat (sim_size m) \<le> length (m_messageBuffer (sim_holding m s))"
proof -
  have n: "unat (sim_size m) = 5 + length (message_body m)"
    using assms(1) unfolding sim_size_def by (simp add: unat_of_nat del: of_nat_add)
  with assms show "received (sim_size m) (sim_holding m s) = Some m"
    by (simp add: received_def sim_holding_def decode_eq length_encode)
  show "unat (sim_size m) \<le> length (m_messageBuffer (sim_holding m s))"
    using assms n by (simp add: sim_holding_def length_encode)
qed

lemma sim_fields [simp]:
  "m_packetSignature (sim_server t) = sim_signature" "m_packetSignature (sim_connected t) = sim_signature"
  "m_packetSignature (sim_pending t) = sim_signature"
  "m_messageBufferSize (sim_server t) = 16" "m_messageBufferSize (sim_connected t) = 16"
  "heap (sim_connected t) = [0 \<mapsto> sim_client]" "m_clientsById (sim_connected t) = [1 \<mapsto> 0]"
  "m_clientsByAddress (sim_connected t) = [(sim_peer, 0)]"
  "m_pendingClients (sim_pending t) = [0]"
  "heap (sim_pending t) = [0 \<mapsto> new_client 1 sim_peer 1000 t]"
  "m_clientsByAddress (sim_pending t) = []"
  "m_reliableStates (sim_server t) = []"
  by (simp_all add: sim_server_def sim_connected_def sim_pending_def with_pending_def initial_server_def)

lemma sim_holding_fields [simp]:
  "m_packetSignature (sim_holding m s) = m_packetSignature s"
  "heap (sim_holding m s) = heap s" "m_clientsById (sim_holding m s) = m_clientsById s"
  "m_clientsByAddress (sim_holding m s) = m_clientsByAddress s"
  "m_pendingClients (sim_holding m s) = m_pendingClients s"
  "m_reliableStates (sim_holding m s) = m_reliableStates s"
  "m_eventBuffer (sim_holding m s) = m_eventBuffer s"
  by (simp_all add: sim_holding_def)

lemma sim_find_peer [simp]: "tryGetClientByAddress sim_peer (sim_holding m (sim_connected t)) = Some 0"
  by (simp add: tryGetClientByAddress_def)

section \<open>A client with a message waiting\<close>

definition sim_busy_client :: UdcClient where
  "sim_busy_client = reliableMessages_push [8] sim_client"

definition sim_busy :: "milliseconds \<Rightarrow> sim_world UdcServerImpl" where
  "sim_busy time = store 0 sim_busy_client (sim_connected time)"

lemma sim_busy_fields [simp]:
  "m_packetSignature (sim_busy t) = sim_signature" "heap (sim_busy t) = [0 \<mapsto> sim_busy_client]"
  "m_clientsById (sim_busy t) = [1 \<mapsto> 0]" "m_clientsByAddress (sim_busy t) = [(sim_peer, 0)]"
  by (simp_all add: sim_busy_def store_def)

lemma sim_busy_inv: "server_inv (sim_busy t)"
  unfolding sim_busy_def
proof (rule server_inv_store [OF sim_connected_inv])
  show "client_wf (max_payload (sim_connected t)) sim_busy_client"
    by (simp add: sim_busy_client_def max_payload_def client_wf_def sim_client_def UdcClient_ctor_def
        reliableMessages_push_def)
qed (simp_all add: sim_busy_client_def)

lemma sim_busy_signed: "signed (sim_busy t)"
  using sim_signed(2) [of t] by (simp add: sim_busy_def store_def stamped_def)

section \<open>Two connection attempts\<close>

definition sim_twice :: "sim_world UdcServerImpl" where
  "sim_twice = with_pending (new_client 2 sim_peer 1000 0) (with_pending (new_client 1 sim_peer 500 0) (sim_start 16))"

lemma sim_twice_reachable: "server_reachable sim_env sim_backlog 2 sim_twice"
proof -
  let ?s = "with_pending (new_client 1 sim_peer 500 0) (sim_start 16)"
  have now: "current_time sim_env s = (0, s)" if "os (process s) = os (sim_process 0)" for s
    using that by (cases "process s") (simp add: current_time_def sim_env_def sim_process_def)
  have proc: "os (process (sim_start 16)) = os (sim_process 0)" "os (process ?s) = os (sim_process 0)"
    by (simp_all add: sim_start_def initial_server_def with_pending_def)
  have cnt: "m_idCounter (sim_start 16) = 0" "m_idCounter ?s = 1"
    by (simp_all add: sim_start_def initial_server_def with_pending_def new_client_def UdcClient_ctor_def
        startConnecting_def)
  have "udcTryConnectIPv4 sim_env (Some (sim_start 16)) (IPv4 127 0 0 1) 1234 500 = Inr (Some 1, Some ?s)"
    by (simp add: udcTryConnectIPv4_eq [OF _ now [OF proc(1)]] cnt sim_peer_def [symmetric])
  note one = server_reachable.connect4 [OF sim_start_reachable this]
  have "udcTryConnectIPv4 sim_env (Some ?s) (IPv4 127 0 0 1) 1234 1000 = Inr (Some 2, Some sim_twice)"
    by (simp add: udcTryConnectIPv4_eq [OF _ now [OF proc(2)]] cnt sim_peer_def [symmetric] sim_twice_def)
  from server_reachable.connect4 [OF one this] show ?thesis by (simp add: numeral_2_eq_2)
qed

lemma sim_twice_heap:
  "heap sim_twice = [0 \<mapsto> new_client 1 sim_peer 500 0, 1 \<mapsto> new_client 2 sim_peer 1000 0]"
  by (simp add: sim_twice_def sim_start_def initial_server_def with_pending_def)

end
