(* ===== verification/Divergences.thy ===== *)
theory Divergences
  imports Sim_Net
begin

text \<open>
  Behaviour of the code that its comments, its public header or the intention of the protocol do not
  suggest: where timeouts, sizes, address maps, resets and the receive loop do something else than
  a reader would expect. Each is a theorem about the model, general or as a run of
  the concrete server of \<open>Sim_Net\<close>.
\<close>

section \<open>Timeouts\<close>

text \<open>C38. The timeout given to \<open>udcTryConnect\<close> becomes the period between attempts and between pings, while
  connecting, losing the connection and resetting reliable messages all use a tenth of it, and never more than 500
  milliseconds. (The header promises the timeout itself for the first two.)\<close>

theorem connect_timeout_is_a_tenth:
  assumes "timeout \<noteq> 0" and "current_time env s = (now, s0)"
    and "connect = udcTryConnectIPv4 env (Some s) ip4 port timeout \<or>
      connect = udcTryConnectIPv6 env (Some s) ip6 port timeout"
  shows "\<exists>s' r c. connect = Inr (Some (m_id c), Some s') \<and> m_pendingClients s' = m_pendingClients s @ [r] \<and>
    heap s' r = Some c \<and>
    (\<forall>t. (needsConnectionTimeoutEvent c t \<longleftrightarrow> min 500 (int (unat timeout) div 10) \<le> t - now) \<and>
      (needsConnectionAttempt (retryConnecting now c) t \<longleftrightarrow> int (unat timeout) \<le> t - now) \<and>
      (needsPing (snd (receivePong sent now c)) t \<longleftrightarrow> int (unat timeout) \<le> t - now) \<and>
      (needsConnectionLostEvent (receiveConnectionHandshake now c) t \<longleftrightarrow>
         min 500 (int (unat timeout) div 10) \<le> t - now))"
proof -
  from assms(2) have s0: "m_pendingClients s0 = m_pendingClients s"
    by (auto simp: current_time_def case_prod_beta Let_def)
  have c: "needsConnectionTimeoutEvent (new_client i a timeout now) t \<longleftrightarrow> min 500 (int (unat timeout) div 10) \<le> t - now"
    "needsConnectionAttempt (retryConnecting now (new_client i a timeout now)) t \<longleftrightarrow> int (unat timeout) \<le> t - now"
    "needsPing (snd (receivePong sent now (new_client i a timeout now))) t \<longleftrightarrow> int (unat timeout) \<le> t - now"
    "needsConnectionLostEvent (receiveConnectionHandshake now (new_client i a timeout now)) t \<longleftrightarrow>
       min 500 (int (unat timeout) div 10) \<le> t - now"
    "m_id (new_client i a timeout now) = i" for i a t
    using timeout_timer.due_after_restart [where c = "UdcClient_ctor i a (int (unat timeout)) (min 500 (int (unat timeout) div 10))" and t = now and t' = t]
      attempt_timer.due_after_restart [where c = "new_client i a timeout now" and t = now and t' = t]
      ping_timer.due_after_restart [where c = "new_client i a timeout now" and t = now and t' = t and sent = sent]
      handshake_timer.due_after_restart [where c = "new_client i a timeout now" and t = now and t' = t]
    by (simp_all add: new_client_def startConnecting_def UdcClient_ctor_def)
  show ?thesis
    using assms(3) udcTryConnectIPv4_eq [OF assms(1,2), of ip4 port] udcTryConnectIPv6_eq [OF assms(1,2), of ip6 port]
    by (auto simp: c with_pending_def s0)
qed

theorem connect_timeout_is_a_tenth_witness:
  "\<exists>s' r c. udcTryConnectIPv4 sim_env (Some (sim_server 60)) (IPv4 127 0 0 1) 80 3000 = Inr (Some (m_id c), Some s') \<and>
    m_pendingClients s' = m_pendingClients (sim_server 60) @ [r] \<and> heap s' r = Some c \<and>
    (\<forall>t. (needsConnectionTimeoutEvent c t \<longleftrightarrow> min 500 (int (unat (3000 :: u32)) div 10) \<le> t - 60) \<and>
      (needsConnectionAttempt (retryConnecting 60 c) t \<longleftrightarrow> int (unat (3000 :: u32)) \<le> t - 60) \<and>
      (needsPing (snd (receivePong 0 60 c)) t \<longleftrightarrow> int (unat (3000 :: u32)) \<le> t - 60) \<and>
      (needsConnectionLostEvent (receiveConnectionHandshake 60 c) t \<longleftrightarrow>
         min 500 (int (unat (3000 :: u32)) div 10) \<le> t - 60))"
  by (rule connect_timeout_is_a_tenth [where timeout = 3000 and env = sim_env and s = "sim_server 60" and port = 80
        and ?s0.0 = "sim_server 60" and ?ip6.0 = "IPv6 0 0 0 0 0 0 0 1", OF _ _ disjI1])
    (simp_all add: current_time_def sim_server_def initial_server_def sim_process_def sim_env_def)

section \<open>Sizes that wrap around\<close>

text \<open>C37. The size checks of the two sends add in 32 bits: a size close to \<open>2\<^sup>3\<^sup>2\<close> passes them, and the copy that
  follows leaves the message buffer (unreliable) or the caller's data (reliable).\<close>

theorem huge_size_passes_check:
  assumes "server_inv s" and "m_clientsById s eid = Some r" and "heap s r = Some c" and "m_isConnected c"
    and "2 ^ 32 \<le> unat dsize + 5" and "length (m_messageBuffer s) < 2 ^ 32" and "length data < 2 ^ 32 - 5"
  shows "udcSendMessage env s eid data dsize UDC_UNRELIABLE_MESSAGE = Inl BufferOverrun \<and>
    udcSendMessage env s eid data dsize UDC_RELIABLE_MESSAGE = Inl BufferOverrun"
proof -
  have wrap: "unat (dsize + k) = unat dsize + unat k - 2 ^ 32" if "5 \<le> unat k" "unat k \<le> 9" for k
  proof -
    have "unat dsize < 2 ^ 32" using unat_bound32 [of dsize] by simp
    then show ?thesis using assms(5) that by (simp add: unat_plus_if_size word_size not_less)
  qed
  have d: "unat dsize < 2 ^ 32" using unat_bound32 [of dsize] by simp
  have "unat (dsize + 5) \<le> unat (m_messageBufferSize s)" "unat (dsize + 9) \<le> unat (m_messageBufferSize s)"
    using wrap [of 5] wrap [of 9] server_inv_buffer(4) [OF assms(1)] d by simp_all
  then have pass: "\<not> m_messageBufferSize s < dsize + 5" "\<not> m_messageBufferSize s < dsize + 9"
    by (simp_all add: word_less_nat_alt not_less)
  have "\<not> 5 + unat dsize \<le> length (m_messageBuffer s)" "\<not> unat dsize \<le> length data" using assms(5-7) by simp_all
  then show ?thesis
    using pass assms(2-4) server_inv_buffer [OF assms(1)]
    by (simp add: udcSendMessage_def sendUnreliableMessage_def sendReliableMessage_def tryGetClientById_def
        deref_Some connected_def put_buffer_def codec_simps msgUnreliable_serializeData_def memcpy_def)
qed

theorem huge_size_passes_check_witness:
  "udcSendMessage sim_env (sim_connected 60) 1 [7] 0xFFFFFFFF UDC_UNRELIABLE_MESSAGE = Inl BufferOverrun \<and>
   udcSendMessage sim_env (sim_connected 60) 1 [7] 0xFFFFFFFF UDC_RELIABLE_MESSAGE = Inl BufferOverrun"
  by (rule huge_size_passes_check [OF sim_connected_inv, where r = 0 and c = sim_client])
    (simp_all add: sim_client_def sim_connected_def sim_server_def initial_server_def)

section \<open>Disconnecting a client whose answers come from another address\<close>

text \<open>C36. A client is filed under the address its handshake came from but removed under the address requests were sent to: when the
  two differ, \<open>udcDisconnect\<close> leaves the entry behind, messages from that address are still
  attributed to the old client object, and no later connection can be completed from it. If the end point was lost
  when it was disconnected, a late pong from there makes the server report it as regained, under the id that
  \<open>udcDisconnect\<close> had closed.\<close>

theorem disconnect_leaves_stale_address:
  assumes "m_clientsById s eid = Some r" and "heap s r = Some c" and "tryGetClientByAddress a s = Some r"
    and "end_point_of a \<noteq> end_point_of (m_outgoingAddress c)"
  shows "\<exists>s'. udcDisconnect s eid = Inr s' \<and> tryGetClientById eid s' = None \<and>
    tryGetClientByAddress a s' = Some r \<and>
    (\<forall>t n i p rs pc. m_clientsByAddress t = m_clientsByAddress s' \<and> received n t = Some (Handshake i) \<and>
       unat n \<le> length (m_messageBuffer t) \<and> m_pendingClients t = p # rs \<and> heap t p = Some pc \<longrightarrow>
       handle_message env time a n t = Inr (None, t)) \<and>
    (\<forall>t n d x. m_clientsByAddress t = m_clientsByAddress s' \<and> m_clientsById t = m_clientsById s' \<and>
       received n t = Some (Pong x) \<and> unat n \<le> length (m_messageBuffer t) \<and> int (unat x) \<le> time \<and>
       heap t r = Some d \<and> \<not> m_isConnected d \<and> m_id d = eid \<longrightarrow>
       (\<exists>e t'. handle_message env time a n t = Inr (Some e, t') \<and>
          view_of e = ConnectionEvent UDC_EVENT_CONNECTION_REGAINED eid \<and> tryGetClientById eid t' = None))"
proof -
  let ?s = "s\<lparr>m_clientsByAddress := UdcAddressMap_erase (m_clientsByAddress s) (m_outgoingAddress c),
      m_clientsById := (m_clientsById s)(eid := None)\<rparr>"
  have "udcDisconnect s eid = Inr ?s"
    using assms(1,2) by (simp add: udcDisconnect_def disconnectFromClient_def deref_Some)
  moreover have filed: "UdcAddressMap_find (m_clientsByAddress ?s) a = Some r"
    using assms(3,4) by (simp add: tryGetClientByAddress_def address_map.find_erase)
  moreover have "handle_message env time a n t = Inr (None, t)"
    if "m_clientsByAddress t = m_clientsByAddress ?s" "received n t = Some (Handshake i)"
      "unat n \<le> length (m_messageBuffer t)" "m_pendingClients t = p # rs" "heap t p = Some pc" for t n i p rs pc
    using handle_handshake [OF that(2-5), of env time a] that(1) filed
    by (simp add: tryGetClientByAddress_def)
  moreover have "\<exists>e t'. handle_message env time a n t = Inr (Some e, t') \<and>
      view_of e = ConnectionEvent UDC_EVENT_CONNECTION_REGAINED eid \<and> tryGetClientById eid t' = None"
    if "m_clientsByAddress t = m_clientsByAddress ?s" "m_clientsById t = m_clientsById ?s" "received n t = Some (Pong x)"
      "unat n \<le> length (m_messageBuffer t)" "int (unat x) \<le> time" "heap t r = Some d" "\<not> m_isConnected d" "m_id d = eid" for t n d x
    using handle_pong [OF that(3,4) _ that(6), of a env time] that(1,2,5,7,8) filed
    by (auto simp: tryGetClientByAddress_def tryGetClientById_def regain_def receivePong_def Let_def store_def connection_event_def view_of_def)
  ultimately show ?thesis
    by (intro exI [of _ ?s]) (auto simp: tryGetClientById_def tryGetClientByAddress_def)
qed

text \<open>A client reached under another address than the one it answers from.\<close>

definition sim_roaming :: "sim_world UdcServerImpl" where
  "sim_roaming = (sim_connected 60)\<lparr>m_clientsByAddress := [(mux_of_ipv4 (IPv4 10 0 0 9) 99, 0)]\<rparr>"

theorem disconnect_leaves_stale_address_witness:
  "\<exists>s'. udcDisconnect sim_roaming 1 = Inr s' \<and> tryGetClientById 1 s' = None \<and>
    tryGetClientByAddress (mux_of_ipv4 (IPv4 10 0 0 9) 99) s' = Some 0 \<and>
    (\<forall>t n i p rs pc. m_clientsByAddress t = m_clientsByAddress s' \<and> received n t = Some (Handshake i) \<and>
       unat n \<le> length (m_messageBuffer t) \<and> m_pendingClients t = p # rs \<and> heap t p = Some pc \<longrightarrow>
       handle_message sim_env 60 (mux_of_ipv4 (IPv4 10 0 0 9) 99) n t = Inr (None, t)) \<and>
    (\<forall>t n d x. m_clientsByAddress t = m_clientsByAddress s' \<and> m_clientsById t = m_clientsById s' \<and>
       received n t = Some (Pong x) \<and> unat n \<le> length (m_messageBuffer t) \<and> int (unat x) \<le> 60 \<and>
       heap t 0 = Some d \<and> \<not> m_isConnected d \<and> m_id d = 1 \<longrightarrow>
       (\<exists>e t'. handle_message sim_env 60 (mux_of_ipv4 (IPv4 10 0 0 9) 99) n t = Inr (Some e, t') \<and>
          view_of e = ConnectionEvent UDC_EVENT_CONNECTION_REGAINED 1 \<and> tryGetClientById 1 t' = None))"
  by (rule disconnect_leaves_stale_address [where c = sim_client])
    (simp_all add: sim_roaming_def tryGetClientByAddress_def sim_client_def UdcClient_ctor_def sim_peer_def
      mux_of_ipv4_def end_point_of_def)

section \<open>Resets and reconnects\<close>

text \<open>The handling of a datagram that carries a message under the server's signature.\<close>

definition deliver ::
  "'w platform_api \<Rightarrow> milliseconds \<Rightarrow> UdcAddressMux \<Rightarrow> message \<Rightarrow> 'w UdcServerImpl
   \<Rightarrow> (UdcEvent option \<times> 'w UdcServerImpl) res" where
  "deliver env time a m s = handle_message env time a (of_nat (5 + length (message_body m)))
     (s\<lparr>m_messageBuffer := write_at 0 (encode (m_packetSignature s) m) (m_messageBuffer s)\<rparr>)"

definition room_for :: "message \<Rightarrow> 'w UdcServerImpl \<Rightarrow> bool" where
  "room_for m s \<longleftrightarrow> 5 + length (message_body m) \<le> length (m_messageBuffer s) \<and> 5 + length (message_body m) < 2 ^ 32"

lemma deliver_arrived:
  assumes "room_for m s"
  shows "arrived m (of_nat (5 + length (message_body m))) s
      (s\<lparr>m_messageBuffer := write_at 0 (encode (m_packetSignature s) m) (m_messageBuffer s)\<rparr>)"
    and "unat (of_nat (5 + length (message_body m)) :: u32) \<le> length (write_at 0 (encode (m_packetSignature s) m) (m_messageBuffer s))"
proof -
  have n: "unat (of_nat (5 + length (message_body m)) :: u32) = 5 + length (message_body m)"
    using assms by (simp add: room_for_def unat_of_nat del: of_nat_add)
  show "arrived m (of_nat (5 + length (message_body m))) s
      (s\<lparr>m_messageBuffer := write_at 0 (encode (m_packetSignature s) m) (m_messageBuffer s)\<rparr>)"
    by (rule arrived_exists) (use n assms in \<open>simp_all add: room_for_def del: of_nat_add\<close>)
  show "unat (of_nat (5 + length (message_body m)) :: u32) \<le> length (write_at 0 (encode (m_packetSignature s) m) (m_messageBuffer s))"
    unfolding n using assms by (simp add: room_for_def length_encode)
qed

lemma deliver_reliable:
  assumes room: "room_for (Reliable b t d) s"
    and st: "UdcAddressMap_find (m_reliableStates s) a \<in> {None, Some 0, Some 1}"
  shows "\<exists>e s'. deliver env time a (Reliable b t d) s = Inr (e, s') \<and>
    (if UdcAddressMap_find (m_reliableStates s) a \<in> {None, Some (bit_state b)}
     then e \<noteq> None \<and> event_payload e s' = [d] else e = None) \<and>
    UdcAddressMap_find (m_reliableStates s') a = Some (bit_state (\<not> b)) \<and>
    length (m_messageBuffer s') = length (m_messageBuffer s)"
proof -
  let ?n = "of_nat (5 + length (message_body (Reliable b t d))) :: u32"
  let ?s = "s\<lparr>m_messageBuffer := write_at 0 (encode (m_packetSignature s) (Reliable b t d)) (m_messageBuffer s)\<rparr>"
  note arr = deliver_arrived [OF room]
  have rcv: "received ?n ?s = Some (Reliable b t d)" using arr(1) unfolding arrived_def by blast
  have len: "unat ?n \<le> length (m_messageBuffer ?s)" using arr(2) by simp
  obtain e s' s1 where h: "handle_message env time a ?n ?s = Inr (e, s')"
    and tr: "transmits env a (encode (m_packetSignature ?s) (Ack b t)) (with_reliable_state a (bit_state (\<not> b)) ?s) s1"
    and out: "if UdcAddressMap_find (m_reliableStates ?s) a \<in> {None, Some (bit_state b)}
         then e = Some (message_event a 9 (?n - 9) (m_eventBuffer ?s)) \<and>
              s' = s1\<lparr>m_eventBuffer := message_event a 9 (?n - 9) (m_eventBuffer ?s)\<rparr>
         else e = None \<and> s' = s1"
    using handle_reliable [OF rcv len, of env time a] unfolding ok_r_iff by blast
  note eff = receive_effect [OF arr(1) h st]
  have "length (m_messageBuffer ?s) = length (m_messageBuffer s)"
    using room by (simp add: room_for_def length_encode)
  then have "length (m_messageBuffer s') = length (m_messageBuffer s)"
    using transmits_keeps(11) [OF tr] out by (auto simp: with_reliable_state_def split: if_splits)
  then show ?thesis
    using h eff out st
    by (intro exI [of _ e] exI [of _ s'])
      (auto simp: deliver_def accept_bit_def address_map.find_insert expected_bit_def bit_state_def split: if_splits)
qed

lemma deliver_reset:
  assumes room: "room_for (Reset t) s" and st: "UdcAddressMap_find (m_reliableStates s) a = Some v"
  shows "\<exists>s'. deliver env time a (Reset t) s = Inr (None, s') \<and>
    UdcAddressMap_find (m_reliableStates s') a = Some 0 \<and>
    length (m_messageBuffer s') = length (m_messageBuffer s)"
proof -
  let ?n = "of_nat (5 + length (message_body (Reset t))) :: u32"
  let ?s = "s\<lparr>m_messageBuffer := write_at 0 (encode (m_packetSignature s) (Reset t)) (m_messageBuffer s)\<rparr>"
  note arr = deliver_arrived [OF room]
  have rcv: "received ?n ?s = Some (Reset t)" using arr(1) unfolding arrived_def by blast
  have len: "unat ?n \<le> length (m_messageBuffer ?s)" using arr(2) by simp
  obtain s' where h: "handle_message env time a ?n ?s = Inr (None, s')"
    and tr: "transmits env a (encode (m_packetSignature ?s) (ResetAck t)) (with_reliable_state a 0 ?s) s'"
    using handle_reset [OF rcv len, of env time a] st unfolding ok_r_iff by auto
  have "length (m_messageBuffer ?s) = length (m_messageBuffer s)"
    using room by (simp add: room_for_def length_encode)
  then show ?thesis
    using h transmits_keeps(4,11) [OF tr]
    by (intro exI [of _ s']) (simp add: deliver_def with_reliable_state_def address_map.find_insert)
qed

text \<open>C32. A reset repeats what has been delivered: when only acknowledgements were lost until the reliable timer is
  due, the client asks for a reset and then sends the same message with bit 0 again, and the receiver, which
  had delivered it before the reset, delivers it a second time.\<close>

theorem reset_delivers_again:
  assumes "m_reliableState c = 0" and "m_reliableMessages c = d # q" and "needsReliableReset c time"
    and "UdcAddressMap_find (m_reliableStates s) a \<in> {None, Some 0}" and "room_for (Reliable False t1 d) s"
  shows "(let c1 = after_transmission time c; c2 = handshake_client (-1) c1
     in transmission later c1 = Some (Reset (word_of_int later)) \<and>
        transmission later c2 = Some (Reliable False (word_of_int later) d)) \<and>
    (\<exists>e1 s1 s2 e3 s3. deliver env time a (Reliable False t1 d) s = Inr (Some e1, s1) \<and>
       event_payload (Some e1) s1 = [d] \<and>
       deliver env time a (Reset t2) s1 = Inr (None, s2) \<and>
       deliver env time a (Reliable False t3 d) s2 = Inr (Some e3, s3) \<and>
       event_payload (Some e3) s3 = [d])"
proof
  show "let c1 = after_transmission time c; c2 = handshake_client (-1) c1
     in transmission later c1 = Some (Reset (word_of_int later)) \<and>
        transmission later c2 = Some (Reliable False (word_of_int later) d)"
    using assms(1-3)
    by (simp add: transmission_def after_transmission_def handshake_client_def next_state_def client_op_defs
        needsReliableReset_def split: if_splits)
  from deliver_reliable [OF assms(5), of a env time] assms(4) obtain e1 s1 where
    d1: "deliver env time a (Reliable False t1 d) s = Inr (Some e1, s1)" "event_payload (Some e1) s1 = [d]"
    and st1: "UdcAddressMap_find (m_reliableStates s1) a = Some 1"
    and len1: "length (m_messageBuffer s1) = length (m_messageBuffer s)"
    by (auto simp: bit_state_def)
  have "room_for (Reset t2) s1" using assms(5) len1 by (simp add: room_for_def)
  from deliver_reset [OF this st1, of env time] obtain s2 where
    d2: "deliver env time a (Reset t2) s1 = Inr (None, s2)" and st2: "UdcAddressMap_find (m_reliableStates s2) a = Some 0"
    and len2: "length (m_messageBuffer s2) = length (m_messageBuffer s1)" by blast
  have "room_for (Reliable False t3 d) s2" using assms(5) len1 len2 by (simp add: room_for_def)
  from deliver_reliable [OF this, of a env time] st2 obtain e3 s3 where
    "deliver env time a (Reliable False t3 d) s2 = Inr (Some e3, s3)" "event_payload (Some e3) s3 = [d]"
    by (auto simp: bit_state_def)
  with d1 d2 show "\<exists>e1 s1 s2 e3 s3. deliver env time a (Reliable False t1 d) s = Inr (Some e1, s1) \<and>
       event_payload (Some e1) s1 = [d] \<and> deliver env time a (Reset t2) s1 = Inr (None, s2) \<and>
       deliver env time a (Reliable False t3 d) s2 = Inr (Some e3, s3) \<and> event_payload (Some e3) s3 = [d]"
    by blast
qed

theorem reset_delivers_again_witness:
  "(let c1 = after_transmission 1060 (setSendReliable 60 sim_busy_client); c2 = handshake_client (-1) c1
     in transmission 1070 c1 = Some (Reset (word_of_int 1070)) \<and>
        transmission 1070 c2 = Some (Reliable False (word_of_int 1070) [8])) \<and>
    (\<exists>e1 s1 s2 e3 s3. deliver sim_env 1060 sim_peer (Reliable False 60 [8]) (sim_server 60) = Inr (Some e1, s1) \<and>
       event_payload (Some e1) s1 = [[8]] \<and>
       deliver sim_env 1060 sim_peer (Reset 1070) s1 = Inr (None, s2) \<and>
       deliver sim_env 1060 sim_peer (Reliable False 1080 [8]) s2 = Inr (Some e3, s3) \<and>
       event_payload (Some e3) s3 = [[8]])"
  by (rule reset_delivers_again)
    (simp_all add: sim_busy_client_def sim_client_def UdcClient_ctor_def reliableMessages_push_def setSendReliable_def
      needsReliableReset_def room_for_def sim_server_def initial_server_def)






text \<open>C34. A reordered repetition is delivered: the sender transmits the front of its queue again on every update, and when
  the network keeps one of these repetitions back until the next message has been received, the receiver, which
  compares one bit, delivers the old message a second time, after the newer one, and its acknowledgement
  is not the one for the message the sender then waits for.\<close>

theorem reordering_delivers_again:
  assumes "m_reliableState c = 0" and "m_reliableMessages c = d1 # d2 # q" and "\<not> needsReliableReset c time1" and "0 < m_reliableTimeoutPeriod c"
    and "UdcAddressMap_find (m_reliableStates s) a \<in> {None, Some 0}"
    and "room_for (Reliable False t d1) s" and "room_for (Reliable True t d2) s"
  shows "transmission time1 c = Some (Reliable False (word_of_int time1) d1) \<and>
    transmission time1 (after_transmission time1 c) = Some (Reliable False (word_of_int time1) d1) \<and>
    transmission time2 (handshake_client (bit_state False) (after_transmission time1 c)) =
      Some (Reliable True (word_of_int time2) d2) \<and>
    (\<exists>e1 s1 e2 s2 e3 s3. deliver env now a (Reliable False t1 d1) s = Inr (Some e1, s1) \<and> event_payload (Some e1) s1 = [d1] \<and>
       deliver env now a (Reliable True t2 d2) s1 = Inr (Some e2, s2) \<and> event_payload (Some e2) s2 = [d2] \<and>
       deliver env now a (Reliable False t3 d1) s2 = Inr (Some e3, s3) \<and> event_payload (Some e3) s3 = [d1])"
proof (intro conjI)
  show "transmission time1 c = Some (Reliable False (word_of_int time1) d1)"
    "transmission time1 (after_transmission time1 c) = Some (Reliable False (word_of_int time1) d1)"
    "transmission time2 (handshake_client (bit_state False) (after_transmission time1 c)) =
      Some (Reliable True (word_of_int time2) d2)"
    using assms(1-4)
    by (auto simp: transmission_def after_transmission_def handshake_client_def next_state_def client_op_defs
        needsReliableReset_def bit_state_def split: if_splits)
  have room1: "room_for (Reliable False u d1) s'" and room2: "room_for (Reliable True u d2) s'"
    if "length (m_messageBuffer s') = length (m_messageBuffer s)" for u and s' :: "'a UdcServerImpl"
    using assms(6,7) that by (simp_all add: room_for_def)
  from deliver_reliable [OF room1 [of s t1], of a env now] assms(5) obtain e1 s1 where
    d1: "deliver env now a (Reliable False t1 d1) s = Inr (Some e1, s1)" "event_payload (Some e1) s1 = [d1]"
    "UdcAddressMap_find (m_reliableStates s1) a = Some 1" "length (m_messageBuffer s1) = length (m_messageBuffer s)"
    by (auto simp: bit_state_def)
  from deliver_reliable [OF room2 [OF d1(4), of t2], of a env now] d1(3,4) obtain e2 s2 where
    d2: "deliver env now a (Reliable True t2 d2) s1 = Inr (Some e2, s2)" "event_payload (Some e2) s2 = [d2]"
    "UdcAddressMap_find (m_reliableStates s2) a = Some 0" "length (m_messageBuffer s2) = length (m_messageBuffer s)"
    by (auto simp: bit_state_def)
  from deliver_reliable [OF room1 [OF d2(4), of t3], of a env now] d2(3) obtain e3 s3 where
    "deliver env now a (Reliable False t3 d1) s2 = Inr (Some e3, s3)" "event_payload (Some e3) s3 = [d1]"
    by (auto simp: bit_state_def)
  with d1 d2 show "\<exists>e1 s1 e2 s2 e3 s3. deliver env now a (Reliable False t1 d1) s = Inr (Some e1, s1) \<and> event_payload (Some e1) s1 = [d1] \<and>
       deliver env now a (Reliable True t2 d2) s1 = Inr (Some e2, s2) \<and> event_payload (Some e2) s2 = [d2] \<and>
       deliver env now a (Reliable False t3 d1) s2 = Inr (Some e3, s3) \<and> event_payload (Some e3) s3 = [d1]"
    by blast
qed

theorem reordering_delivers_again_witness:
  "\<exists>e1 s1 e2 s2 e3 s3. deliver sim_env 60 sim_peer (Reliable False 60 [8]) (sim_server 60) = Inr (Some e1, s1) \<and>
       event_payload (Some e1) s1 = [[8]] \<and>
       deliver sim_env 60 sim_peer (Reliable True 70 [9]) s1 = Inr (Some e2, s2) \<and> event_payload (Some e2) s2 = [[9]] \<and>
       deliver sim_env 60 sim_peer (Reliable False 61 [8]) s2 = Inr (Some e3, s3) \<and> event_payload (Some e3) s3 = [[8]]"
  by (rule reordering_delivers_again [where c = "reliableMessages_push [9] sim_busy_client" and q = "[]" and ?time1.0 = 60 and t = 0,
        THEN conjunct2, THEN conjunct2, THEN conjunct2])
    (simp_all add: sim_busy_client_def sim_client_def UdcClient_ctor_def reliableMessages_push_def
      needsReliableReset_def room_for_def sim_server_def initial_server_def)

section \<open>Runs of the receive loop\<close>

text \<open>The connected server with IPv4 datagrams waiting, all from its peer.\<close>

definition sim_waiting :: "byte list list \<Rightarrow> sim_world UdcServerImpl" where
  "sim_waiting ds = (sim_connected 60)\<lparr>process := (sim_process 60)\<lparr>os := (os (sim_process 60))
     \<lparr>sw_in4 := map (\<lambda>d. (d, createAddressIPv4 sim_env (IPv4 127 0 0 1) 1234)) ds\<rparr>\<rparr>\<rparr>"

lemmas run_defs = receiveMessages_def server_receive_def mux_receive_def receiveIPv4_def receivePacketIPv4_def
  server_send_def mux_send_def mux_sendIPv4_def sendIPv4_def sendPacketIPv4_def log_if_def memcpy_def
  sim_waiting_def sim_calls sim_recv_def sim_connected_def sim_server_def initial_server_def sim_process_def
  sim_mux_def createAddressIPv4_def INVALID_SOCKET_def handle_message_def dispatch_def no_event_def put_buffer_def
  codec_simps read_at_def write_at_def sim_signature_def UdcMessageId_of_code_def UdcMessageIds_def Let_def

text \<open>The size variable of the receive loop is not set back to the buffer's size: after a short datagram
  that gives no event, a longer one that fits the buffer and would have been delivered is
  truncated by the platform and lost. Here a ping of nine bytes precedes an unreliable message of ten.\<close>

lemma short_datagram_truncates_next:
  "(\<exists>e s. receiveMessages 3 sim_env 60 (sim_waiting [[1, 2, 3, 4, 4, 1, 2, 3, 4, 5]]) = Inr (Some e, s) \<and>
      event_payload (Some e) s = [[1, 2, 3, 4, 5]]) \<and>
   (\<exists>s. receiveMessages 3 sim_env 60 (sim_waiting [[1, 2, 3, 4, 2, 7, 0, 0, 0], [1, 2, 3, 4, 4, 1, 2, 3, 4, 5]]) = Inr (None, s) \<and>
      sw_in4 (os (process s)) = [])"
proof
  show "\<exists>e s. receiveMessages 3 sim_env 60 (sim_waiting [[1, 2, 3, 4, 4, 1, 2, 3, 4, 5]]) = Inr (Some e, s) \<and>
      event_payload (Some e) s = [[1, 2, 3, 4, 5]]"
    by (simp add: run_defs numeral_3_eq_3 processUnreliable_def emit_def event_payload_def)
  show "\<exists>s. receiveMessages 3 sim_env 60 (sim_waiting [[1, 2, 3, 4, 2, 7, 0, 0, 0], [1, 2, 3, 4, 4, 1, 2, 3, 4, 5]]) = Inr (None, s) \<and>
      sw_in4 (os (process s)) = []"
    by (simp add: run_defs numeral_3_eq_3 processPing_def)
qed



end
