(* ===== verification/Sim_Run.thy ===== *)
theory Sim_Run
  imports Delivery Divergences
begin

text \<open>
  A run of the system of \<open>Delivery\<close> on the concrete platform, evaluated call by call: one reliable message is
  queued, transmitted, delivered, acknowledged and dropped from the sender's queue.
\<close>

section \<open>The start\<close>

definition sim_origin :: UdcAddressMux where
  "sim_origin = mux_of_ipv4 (IPv4 127 0 0 1) 4321"

definition sim_parties :: "sim_world parties" where
  "sim_parties = \<lparr>p_envS = sim_env, p_envR = sim_env, p_traffic = sw_traffic, p_signature = sim_signature,
     p_ref = 0, p_id = 1, p_addrS = sim_origin, p_addrR = sim_peer\<rparr>"

definition sim_net :: "sim_world net" where
  "sim_net = \<lparr>n_sender = sim_connected 60, n_receiver = sim_server 60, n_fwd = [], n_back = [],
     n_pushed = [], n_delivered = []\<rparr>"

lemma sim_parties_documented: "parties_documented sim_parties"
  by (simp add: parties_documented_def sim_parties_def sim_polling sim_traffic)

lemma sim_ends: "end_point_of sim_peer = EP_IPv4 (IPv4 127 0 0 1) 1234"
  "end_point_of sim_origin = EP_IPv4 (IPv4 127 0 0 1) 4321"
  by (simp_all add: sim_peer_def sim_origin_def)

lemma sim_net_fresh: "net_fresh sim_parties sim_net"
proof -
  have "m_pendingClients (sim_connected 60) = []"
    by (simp add: sim_connected_def sim_server_def initial_server_def)
  then have "filed sim_parties (sim_connected 60)"
    by (auto simp: filed_def sim_parties_def statics_def tryGetClientByAddress_def ran_def map_of_nodes_def
        sim_client_def UdcClient_ctor_def)
  then show ?thesis
    by (simp add: net_fresh_def net_ok_def sim_net_def sim_parties_def sim_connected_inv sim_server_inv
        sim_client_def UdcClient_ctor_def synchronised_def)
qed

section \<open>The datagrams and the calls\<close>

definition sim_packet :: "byte list" where
  "sim_packet = [1, 2, 3, 4, 6, 60, 0, 0, 0, 8]"

definition sim_answer :: "byte list" where
  "sim_answer = [1, 2, 3, 4, 9, 60, 0, 0, 0]"

lemma sim_bytes: "u32_bytes 60 = [60, 0, 0, 0]" "u32_of_bytes [60, 0, 0, 0] = 60"
  "u16_of_bytes 127 0 = 127" "u16_of_bytes 0 1 = 256" "(256 :: byte) = 0"
  by code_simp+

lemma sim_datagrams: "sim_packet = encode sim_signature (Reliable False 60 [8])"
  "sim_answer = encode sim_signature (Ack False 60)"
  by (simp_all add: sim_packet_def sim_answer_def encode_def sim_signature_def sim_bytes)

lemma sim_order: "unordered_order sim_env [i \<mapsto> r] = [i]" "unordered_order sim_env (\<lambda>x. None) = []"
  by (simp_all add: sim_env_def)

lemma sim_port4_simp: "sim_port4 \<lparr>sin_family = f, sin_port = p, sin_addr = S_un_b a b c d\<rparr> = EP_IPv4 (IPv4 a b c d) p"
  by (simp add: sim_port4_def)

lemmas round_defs = run_defs udcProcessEvents_def current_time_def store_def updatePendingClients_def
  tryGetFirstPendingClient_def updateClientConnectionStatus_def sim_order update_client_def update_reliable_def
  update_ping_def update_lost_def deref_def sim_bytes sim_peer_def sim_origin_def mux_of_ipv4_def
  sim_port4_simp history_def taken_def end_point_of_def

abbreviation sim_end :: "u16 \<Rightarrow> end_point" where
  "sim_end port \<equiv> EP_IPv4 (IPv4 127 0 0 1) port"

definition sim_with :: "io list \<Rightarrow> (byte list \<times> u16) list \<Rightarrow> sim_world Process" where
  "sim_with traffic ds = (sim_process 60)\<lparr>os := (os (sim_process 60))\<lparr>sw_traffic := traffic,
     sw_in4 := map (\<lambda>(d, port). (d, createAddressIPv4 sim_env (IPv4 127 0 0 1) port)) ds\<rparr>\<rparr>"

definition sim_sent :: "sim_world UdcServerImpl" where
  "sim_sent = (sim_busy 60)\<lparr>m_messageBuffer := sim_packet @ replicate 6 0,
     heap := [0 \<mapsto> setSendReliable 60 sim_busy_client], process := sim_with [Sent (sim_end 1234) sim_packet] []\<rparr>"

lemmas client_defs = sim_busy_client_def sim_client_def UdcClient_ctor_def needsReliableReset_def
  reliableMessages_push_def setSendReliable_def needsPing_def needsConnectionLostEvent_def assert_r_def
  sim_busy_def sim_sent_def sim_with_def sim_packet_def sim_answer_def

lemma sim_updates: "udcProcessEvents 1 sim_env (sim_busy 60) = Inr (None, sim_sent)"
  by (simp add: round_defs client_defs)

lemma sim_acknowledges:
  "\<exists>s' c. udcProcessEvents 3 sim_env (sim_sent\<lparr>process := sim_with [Sent (sim_end 1234) sim_packet] [(sim_answer, 1234)]\<rparr>) = Inr (None, s') \<and>
     history sw_traffic s' = [Sent (sim_end 1234) sim_packet, Sent (sim_end 1234) sim_packet, Got (sim_end 1234) sim_answer] \<and> heap s' 0 = Some c \<and>
     m_reliableMessages c = []"
  by (simp add: round_defs client_defs numeral_3_eq_3 processReliableHandshake_def tryGetClientByAddress_def receivePong_def
    receiveReliableHandshake_def resetSendReliable_def handshake_client_def next_state_def reliableMessages_pop_def setReliableState_def)

lemma sim_receives:
  "\<exists>e t'. udcProcessEvents 3 sim_env ((sim_server 60)\<lparr>process := sim_with [] [(sim_packet, 4321)]\<rparr>) = Inr (Some e, t') \<and>
     history sw_traffic t' = [Got (sim_end 4321) sim_packet, Sent (sim_end 4321) sim_answer] \<and> 
     reliable_payload (sim_end 4321) (Some e) t' = [[8]]"
  by (simp add: round_defs client_defs numeral_3_eq_3 processReliableMessage_def emit_def message_event_def with_reliable_state_def
    reliable_payload_def view_of_def)

section \<open>The run\<close>

text \<open>
  The application queues a message; the sender transmits it; it reaches the receiver, which delivers and acknowledges it; the
  acknowledgement reaches the sender, which drops it from its queue after having sent it once more.
\<close>

lemma sim_fields_of_parties:
  "p_envS sim_parties = sim_env" "p_envR sim_parties = sim_env" "p_traffic sim_parties = sw_traffic"
  "p_signature sim_parties = sim_signature" "p_ref sim_parties = 0" "p_id sim_parties = 1"
  "p_sender sim_parties = sim_end 4321" "p_receiver sim_parties = sim_end 1234"
  by (simp_all add: sim_parties_def sim_ends)

lemma sim_net_sent: "net_reachable sim_parties (sim_net\<lparr>n_sender := sim_sent, n_fwd := [sim_packet], n_pushed := [[8]]\<rparr>)"
proof -
  let ?N = "sim_net\<lparr>n_sender := sim_busy 60, n_pushed := [[8]]\<rparr>"
  have "udcSendMessage sim_env (sim_connected 60) 1 [8] 1 UDC_RELIABLE_MESSAGE = Inr (True, sim_busy 60)"
    by (simp add: udcSendMessage_def sendReliableMessage_def tryGetClientById_def deref_def sim_busy_def sim_busy_client_def)
  then have "net_step sim_parties sim_net ?N"
    using net_step.send [of sim_parties sim_net "[8]" 1 True "sim_busy 60"]
    by (simp add: sim_fields_of_parties sim_net_def sendable_def)
  with sim_net_fresh have reach: "net_reachable sim_parties ?N" by (blast intro: net_reachable.intros)
  have "perform sim_env (ProcessEvents 1) (sim_busy 60) = Inr (Reported None, sim_sent)"
    by (simp add: sim_updates [simplified])
  moreover have "history sw_traffic sim_sent = history sw_traffic (sim_busy 60) @ [Sent (sim_end 1234) sim_packet]"
    by (simp add: sim_sent_def sim_with_def history_def sim_busy_def store_def sim_connected_def sim_server_def initial_server_def sim_process_def)
  moreover have "\<not> needsReliableReset sim_busy_client t" for t by (simp add: client_defs)
  ultimately have "net_step sim_parties ?N (?N\<lparr>n_sender := sim_sent, n_fwd := [sim_packet], n_back := []\<rparr>)"
    using net_step.sender [of sim_parties "ProcessEvents 1" ?N "Reported None" sim_sent "[Sent (sim_end 1234) sim_packet]" "[]"]
    by (simp add: sim_fields_of_parties sim_net_def undisturbed_def carries.idle)
  with reach have "net_reachable sim_parties (?N\<lparr>n_sender := sim_sent, n_fwd := [sim_packet], n_back := []\<rparr>)"
    by (rule net_reachable.step)
  then show ?thesis by (simp add: sim_net_def)
qed

lemma sim_net_delivered:
  "\<exists>t. net_reachable sim_parties (sim_net\<lparr>n_sender := sim_sent, n_receiver := t, n_back := [sim_answer],
     n_pushed := [[8]], n_delivered := [[8]]\<rparr>)"
proof -
  let ?N = "sim_net\<lparr>n_sender := sim_sent, n_fwd := [sim_packet], n_pushed := [[8]]\<rparr>"
  let ?t = "(sim_server 60)\<lparr>process := sim_with [] [(sim_packet, 4321)]\<rparr>"
  have "net_step sim_parties ?N (?N\<lparr>n_receiver := ?t\<rparr>)"
    using net_step.receiver_system [of sim_parties "sim_with [] [(sim_packet, 4321)]" ?N]
    by (simp add: sim_fields_of_parties sim_net_def sim_with_def history_def sim_server_def initial_server_def sim_process_def)
  with sim_net_sent have reach: "net_reachable sim_parties (?N\<lparr>n_receiver := ?t\<rparr>)" by (rule net_reachable.step)
  from sim_receives obtain e t' where run: "udcProcessEvents 3 sim_env ?t = Inr (Some e, t')"
    and t': "history sw_traffic t' = [Got (sim_end 4321) sim_packet, Sent (sim_end 4321) sim_answer]"
    "reliable_payload (sim_end 4321) (Some e) t' = [[8]]" by blast
  have "perform sim_env (ProcessEvents 3) ?t = Inr (Reported (Some e), t')" by (simp add: run)
  moreover have "carries [sim_packet] [sim_packet] []" by (intro carries.take carries.idle)
  moreover have "history sw_traffic ?t = []" by (simp add: sim_with_def)
  ultimately have "net_step sim_parties (?N\<lparr>n_receiver := ?t\<rparr>) (?N\<lparr>n_receiver := t', n_fwd := [], n_back := [sim_answer], n_delivered := [[8]]\<rparr>)"
    using net_step.receiver [of sim_parties "ProcessEvents 3" "?N\<lparr>n_receiver := ?t\<rparr>" "Reported (Some e)" t'
        "[Got (sim_end 4321) sim_packet, Sent (sim_end 4321) sim_answer]" "[]"] t'
    by (simp add: sim_fields_of_parties sim_net_def)
  with reach have "net_reachable sim_parties (?N\<lparr>n_receiver := t', n_fwd := [], n_back := [sim_answer], n_delivered := [[8]]\<rparr>)"
    by (rule net_reachable.step)
  then show ?thesis by (intro exI [of _ t']) (simp add: sim_net_def)
qed

lemma sim_net_done:
  "\<exists>N c. net_reachable sim_parties N \<and> n_pushed N = [[8]] \<and> n_delivered N = [[8]] \<and>
     heap (n_sender N) 0 = Some c \<and> m_reliableMessages c = []"
proof -
  from sim_net_delivered obtain t where reach: "net_reachable sim_parties (sim_net\<lparr>n_sender := sim_sent, n_receiver := t, n_back := [sim_answer],
     n_pushed := [[8]], n_delivered := [[8]]\<rparr>)" (is "net_reachable _ ?N") by blast
  let ?p = "sim_with [Sent (sim_end 1234) sim_packet] [(sim_answer, 1234)]"
  let ?s = "sim_sent\<lparr>process := ?p\<rparr>"
  have "net_step sim_parties ?N (?N\<lparr>n_sender := ?s\<rparr>)"
    using net_step.sender_system [of sim_parties ?p ?N]
    by (simp add: sim_fields_of_parties sim_net_def sim_with_def sim_sent_def)
  with reach have reach: "net_reachable sim_parties (?N\<lparr>n_sender := ?s\<rparr>)" by (rule net_reachable.step)
  from sim_acknowledges obtain s' c where run: "udcProcessEvents 3 sim_env ?s = Inr (None, s')"
    and s': "history sw_traffic s' = [Sent (sim_end 1234) sim_packet, Sent (sim_end 1234) sim_packet, Got (sim_end 1234) sim_answer]"
    "heap s' 0 = Some c" "m_reliableMessages c = []" by blast
  have "perform sim_env (ProcessEvents 3) ?s = Inr (Reported None, s')" by (simp add: run)
  moreover have "history sw_traffic ?s = [Sent (sim_end 1234) sim_packet]" by (simp add: sim_with_def)
  moreover have "carries [sim_answer] [sim_answer] []" by (intro carries.take carries.idle)
  moreover have "heap ?s 0 = Some (setSendReliable 60 sim_busy_client)" "call_time sim_env ?s = 60"
    by (simp_all add: sim_sent_def call_time_def current_time_def sim_with_def sim_process_def sim_calls)
  moreover have "\<not> needsReliableReset (setSendReliable 60 sim_busy_client) 60" by (simp add: client_defs)
  ultimately have "net_step sim_parties (?N\<lparr>n_sender := ?s\<rparr>) (?N\<lparr>n_sender := s', n_fwd := [sim_packet], n_back := []\<rparr>)"
    using net_step.sender [of sim_parties "ProcessEvents 3" "?N\<lparr>n_sender := ?s\<rparr>" "Reported None" s'
        "[Sent (sim_end 1234) sim_packet, Got (sim_end 1234) sim_answer]" "[]"] s'(1)
    by (simp add: sim_fields_of_parties sim_net_def undisturbed_def)
  with reach have "net_reachable sim_parties (?N\<lparr>n_sender := s', n_fwd := [sim_packet], n_back := []\<rparr>)"
    by (rule net_reachable.step)
  with s' show ?thesis
    by (intro exI [of _ "?N\<lparr>n_sender := s', n_fwd := [sim_packet], n_back := []\<rparr>"] exI [of _ c]) simp
qed

end
