(* ===== verification/Connection_Properties.thy ===== *)
theory Connection_Properties
  imports Connections Sim_Run
begin

text \<open>
  The automaton of the connections on a concrete run of the library, and what follows from it about every sequence of calls.
\<close>

section \<open>A run\<close>

text \<open>The script's calls one by one.\<close>

lemma run_calls_step:
  "perform env c (s\<lparr>process := p\<rparr>) = Inr (reply, s1) \<Longrightarrow> run_calls env script s1 = Inr (log, s2) \<Longrightarrow>
   run_calls env ((p, c) # script) s = Inr ((c, reply) # log, s2)"
  by simp

definition sim_at :: "milliseconds \<Rightarrow> byte list list \<Rightarrow> sim_world Process" where
  "sim_at time ds = (sim_process time)\<lparr>os := (os (sim_process time))\<lparr>
     sw_in4 := map (\<lambda>d. (d, createAddressIPv4 sim_env (IPv4 127 0 0 1) 1234)) ds\<rparr>\<rparr>"

definition sim_bound :: "sim_world Process \<Rightarrow> sim_world UdcServerImpl" where
  "sim_bound p = initial_server \<lparr>m_socketIPv4 = [\<lparr>us_socket = 2\<rparr>], m_socketIPv6 = [], m_logger = None\<rparr> sim_signature
     (replicate 16 0) 16 p"

definition sim_dial :: "byte list \<Rightarrow> UdcClient \<Rightarrow> UdcEvent \<Rightarrow> sim_world Process \<Rightarrow> sim_world UdcServerImpl" where
  "sim_dial buf c e p = (sim_bound p)\<lparr>m_idCounter := 1, heap := [0 \<mapsto> c], heap_next := 1, m_messageBuffer := buf, m_eventBuffer := e\<rparr>"

text \<open>The states of the run: after the attempt, the request, the handshake and the loss.\<close>

definition sim_dialed :: UdcClient where
  "sim_dialed = new_client 1 sim_peer 1000 5000"

definition sim_reached :: UdcClient where
  "sim_reached = receiveConnectionHandshake 5010 (retryConnecting 5000 sim_dialed)"

abbreviation sim_attempted :: "sim_world Process \<Rightarrow> sim_world UdcServerImpl" where
  "sim_attempted p \<equiv> (sim_dial ([1, 2, 3, 4] @ replicate 12 0) sim_dialed UdcEvent_zero p)\<lparr>m_pendingClients := [0]\<rparr>"

abbreviation sim_requested :: "sim_world Process \<Rightarrow> sim_world UdcServerImpl" where
  "sim_requested p \<equiv> (sim_dial ([1, 2, 3, 4, 0, 1, 0, 0, 0] @ replicate 7 0) (retryConnecting 5000 sim_dialed)
     UdcEvent_zero p)\<lparr>m_pendingClients := [0]\<rparr>"

abbreviation sim_answered :: "UdcEvent \<Rightarrow> sim_world Process \<Rightarrow> sim_world UdcServerImpl" where
  "sim_answered e p \<equiv> (sim_dial ([1, 2, 3, 4, 1, 1, 0, 0, 0] @ replicate 7 0) sim_reached e p)
     \<lparr>m_clientsById := [1 \<mapsto> 0], m_clientsByAddress := [(sim_peer, 0)]\<rparr>"

abbreviation sim_dropped :: "UdcEvent \<Rightarrow> sim_world Process \<Rightarrow> sim_world UdcServerImpl" where
  "sim_dropped e p \<equiv> (sim_dial ([1, 2, 3, 4, 2, 112, 23, 0, 0] @ replicate 7 0) (setConnectionLost sim_reached) e p)
     \<lparr>m_clientsById := [1 \<mapsto> 0], m_clientsByAddress := [(sim_peer, 0)]\<rparr>"

lemma sim_binds: "\<exists>p. perform sim_env (TryBindIPv4 80) ((sim_start 16)\<lparr>process := sim_at 5000 []\<rparr>) = Inr (Flag True, sim_bound p)"
  by (simp add: udcTryBindIPv4_def tryBindIPv4_def mux_tryBindIPv4_def UdcSocket_ctor_def WinSockReference_ctor_def
      localBindIPv4_def createSocket_def setSocketOptionNonBlocking_def bindSocketIPv4_def sim_start_def UdcSocketMux_ctor_def
      sim_bound_def sim_at_def sim_process_def initial_server_def sim_env_def INVALID_SOCKET_def Let_def case_prod_beta)

lemma sim_connects: "perform sim_env (TryConnectIPv4 (IPv4 127 0 0 1) 1234 1000) ((sim_bound q)\<lparr>process := sim_at 5000 []\<rparr>) =
    Inr (NewId (Some 1), sim_attempted (sim_at 5000 []))"
  by (simp add: udcTryConnectIPv4_def connect_reply_def current_time_def sim_at_def sim_process_def sim_calls createUniqueId_def
    make_shared_def addPendingClient_def deref_def store_def sim_bound_def sim_dial_def initial_server_def sim_signature_def
    write_at_def sim_dialed_def new_client_def UdcClient_ctor_def startConnecting_def sim_peer_def mux_of_ipv4_def)

lemma sim_id_bytes: "u32_bytes 1 = [1, 0, 0, 0]" "u32_of_bytes [1, 0, 0, 0] = 1"
  by code_simp+

lemmas sim_dial_defs = sim_id_bytes round_defs sim_dial_def sim_bound_def sim_at_def sim_dialed_def new_client_def UdcClient_ctor_def
  startConnecting_def needsConnectionTimeoutEvent_def needsConnectionAttempt_def retryConnecting_def assert_r_def

lemma sim_requests: "\<exists>p. perform sim_env (ProcessEvents 1)
      ((sim_attempted q)\<lparr>process := sim_at 5000 []\<rparr>) =
    Inr (Reported None, sim_requested p)"
  by (simp add: sim_dial_defs)

lemma sim_completes: "\<exists>p e. view_of e = ConnectionEvent UDC_EVENT_CONNECTION_SUCCESS 1 \<and>
    perform sim_env (ProcessEvents 1) ((sim_requested q)\<lparr>process := sim_at 5010 [[1, 2, 3, 4, 1, 1, 0, 0, 0]]\<rparr>) =
    Inr (Reported (Some e), sim_answered e p)"
  by (simp add: sim_dial_defs processConnectionHandshake_def emit_def sim_reached_def receiveConnectionHandshake_def)

lemma sim_time_bytes: "u32_bytes 6000 = [112, 23, 0, 0]" "u32_bytes 6010 = [122, 23, 0, 0]"
  by code_simp+

lemma sim_loses: "\<exists>p e. view_of e = ConnectionEvent UDC_EVENT_CONNECTION_LOST 1 \<and>
    perform sim_env (ProcessEvents 1) ((sim_answered e0 q)\<lparr>process := sim_at 6000 []\<rparr>) =
    Inr (Reported (Some e), sim_dropped e p)"
  by (simp add: sim_dial_defs sim_time_bytes emit_def sim_reached_def receiveConnectionHandshake_def needsPing_def
      needsConnectionLostEvent_def setConnectionLost_def)

lemma sim_regains: "\<exists>s e. view_of e = ConnectionEvent UDC_EVENT_CONNECTION_REGAINED 1 \<and>
    perform sim_env (ProcessEvents 1) ((sim_dropped e0 q)\<lparr>process := sim_at 6010 [[1, 2, 3, 4, 3, 60, 0, 0, 0]]\<rparr>) =
    Inr (Reported (Some e), s)"
  by (simp add: sim_dial_defs sim_time_bytes emit_def sim_reached_def receiveConnectionHandshake_def needsPing_def
      needsConnectionLostEvent_def setConnectionLost_def processPong_def tryGetClientByAddress_def receivePong_def)

definition sim_script :: "(sim_world Process \<times> call) list" where
  "sim_script =
    [(sim_at 5000 [], TryBindIPv4 80),
     (sim_at 5000 [], TryConnectIPv4 (IPv4 127 0 0 1) 1234 1000),
     (sim_at 5000 [], ProcessEvents 1),
     (sim_at 5010 [[1, 2, 3, 4, 1, 1, 0, 0, 0]], ProcessEvents 1),
     (sim_at 6000 [], ProcessEvents 1),
     (sim_at 6010 [[1, 2, 3, 4, 3, 60, 0, 0, 0]], ProcessEvents 1)]"

definition sim_log :: "UdcEvent \<Rightarrow> UdcEvent \<Rightarrow> UdcEvent \<Rightarrow> (call \<times> reply) list" where
  "sim_log e1 e2 e3 =
    [(TryBindIPv4 80, Flag True),
     (TryConnectIPv4 (IPv4 127 0 0 1) 1234 1000, NewId (Some 1)),
     (ProcessEvents 1, Reported None),
     (ProcessEvents 1, Reported (Some e1)),
     (ProcessEvents 1, Reported (Some e2)),
     (ProcessEvents 1, Reported (Some e3))]"

lemma sim_script_log: "\<exists>s e1 e2 e3. view_of e1 = ConnectionEvent UDC_EVENT_CONNECTION_SUCCESS 1 \<and>
    view_of e2 = ConnectionEvent UDC_EVENT_CONNECTION_LOST 1 \<and> view_of e3 = ConnectionEvent UDC_EVENT_CONNECTION_REGAINED 1 \<and>
    run_calls sim_env sim_script (sim_start 16) = Inr (sim_log e1 e2 e3, s)"
proof -
  from sim_binds obtain p1 where 1: "perform sim_env (TryBindIPv4 80) ((sim_start 16)\<lparr>process := sim_at 5000 []\<rparr>) = Inr (Flag True, sim_bound p1)" ..
  note 2 = sim_connects [of p1]
  from sim_requests [of "sim_at 5000 []"] obtain p3 where 3: "perform sim_env (ProcessEvents 1)
      ((sim_attempted (sim_at 5000 []))\<lparr>process := sim_at 5000 []\<rparr>) =
    Inr (Reported None, sim_requested p3)" ..
  from sim_completes [of p3] obtain p4 e1 where 4: "view_of e1 = ConnectionEvent UDC_EVENT_CONNECTION_SUCCESS 1"
    "perform sim_env (ProcessEvents 1) ((sim_requested p3)\<lparr>process := sim_at 5010 [[1, 2, 3, 4, 1, 1, 0, 0, 0]]\<rparr>) =
    Inr (Reported (Some e1), sim_answered e1 p4)" by blast
  from sim_loses [of e1 p4] obtain p5 e2 where 5: "view_of e2 = ConnectionEvent UDC_EVENT_CONNECTION_LOST 1"
    "perform sim_env (ProcessEvents 1) ((sim_answered e1 p4)\<lparr>process := sim_at 6000 []\<rparr>) =
    Inr (Reported (Some e2), sim_dropped e2 p5)" by blast
  from sim_regains [of e2 p5] obtain s e3 where 6: "view_of e3 = ConnectionEvent UDC_EVENT_CONNECTION_REGAINED 1"
    "perform sim_env (ProcessEvents 1) ((sim_dropped e2 p5)\<lparr>process := sim_at 6010 [[1, 2, 3, 4, 3, 60, 0, 0, 0]]\<rparr>) =
    Inr (Reported (Some e3), s)" by blast
  have "run_calls sim_env sim_script (sim_start 16) = Inr (sim_log e1 e2 e3, s)"
    unfolding sim_script_def sim_log_def
    by (rule run_calls_step [OF 1] run_calls_step [OF 2] run_calls_step [OF 3] run_calls_step [OF 4(2)]
        run_calls_step [OF 5(2)] run_calls_step [OF 6(2)] run_calls.simps(1))+
  with 4(1) 5(1) 6(1) show ?thesis by blast
qed

section \<open>The properties\<close>

text \<open>C4. The library keeps the contract of its connections: whatever calls are made on a new server, whatever datagrams arrive and
  however the operating system changes between calls, every answer and event is one the automaton of the header's
  connection events allows (\<open>follows\<close>: ids are given out in order, success and time-out only while connecting,
  loss only while connected, sends accepted only for a known end point), the automaton ends in the phases
  the server's state has, and \<open>udcGetStatus\<close> reports an end point as connected exactly in the phase that says so.\<close>

theorem calls_follow_contract:
  assumes "polling_documented env" and "traffic_documented env traffic"
    and "fits bsize buffer" and "udcCreateServer env signature buffer bsize logFileName p = Inr (Some s0)"
    and "run_calls env script s0 = Inr (log, s)" and "\<forall>(q, c) \<in> set script. call_sendable c"
    and "Suc (times opens log) < 2 ^ 32"
  shows "follows log (0, \<lambda>_. Idle) = Some (times opens log, phases s) \<and>
    ((\<exists>ping. udcGetStatus env s i = Inr (True, ping)) \<longleftrightarrow> phases s i = Connected)"
  using run_follows [OF assms(1,2,5,6) created_ok(1) [OF assms(3,4)]] created_ok(2) [OF assms(3,4)] assms(7)
    status_connected [of s env i]
  by (simp add: connections_ok_def)

lemma sim_start_created: "fits 16 (replicate 16 (0 :: byte))"
  "udcCreateServer sim_env sim_signature (replicate 16 0) 16 None (sim_process 0) = Inr (Some (sim_start 16))"
  by (simp_all add: udcCreateServer_eq sim_start_def fits_iff)

lemma sim_script_sendable: "\<forall>(q, c) \<in> set sim_script. call_sendable c"
  by (simp add: sim_script_def)

theorem calls_follow_contract_witness:
  "\<exists>log s. run_calls sim_env sim_script (sim_start 16) = Inr (log, s) \<and>
    follows log (0, \<lambda>_. Idle) = Some (1, phases s) \<and> phases s 1 = Connected \<and>
    (\<exists>ping. udcGetStatus sim_env s 1 = Inr (True, ping)) \<and> \<not> (\<exists>ping. udcGetStatus sim_env s 2 = Inr (True, ping))"
proof -
  from sim_script_log obtain s e1 e2 e3 log where views: "view_of e1 = ConnectionEvent UDC_EVENT_CONNECTION_SUCCESS 1"
      "view_of e2 = ConnectionEvent UDC_EVENT_CONNECTION_LOST 1" "view_of e3 = ConnectionEvent UDC_EVENT_CONNECTION_REGAINED 1"
    and log: "log = sim_log e1 e2 e3"
    and run: "run_calls sim_env sim_script (sim_start 16) = Inr (log, s)" by blast
  have n: "times opens log = 1" by (simp add: log sim_log_def times_def)
  note all = calls_follow_contract [OF sim_polling sim_traffic sim_start_created run sim_script_sendable, unfolded n, simplified]
  have ph: "phases s = (\<lambda>_. Idle)(1 := Connected)" using all views by (simp add: log sim_log_def)
  from all [of 1] all [of 2] run show ?thesis by (intro exI [of _ log] exI [of _ s]) (simp add: ph)
qed

text \<open>C13. What this says about one end point id, for every sequence of calls: it is given out at most once, its attempt is
  resolved by at most one \<open>CONNECTION_SUCCESS\<close> or \<open>CONNECTION_TIMEOUT\<close> and only after the id has been given out, and every
  \<open>CONNECTION_LOST\<close> answers its own earlier success or regain: while the end point is connected one more of these than
  losses have been reported.\<close>

theorem connection_events_in_order:
  assumes "polling_documented env" and "traffic_documented env traffic"
    and "fits bsize buffer" and "udcCreateServer env signature buffer bsize logFileName p = Inr (Some s0)"
    and "run_calls env script s0 = Inr (log, s)" and "\<forall>(q, c) \<in> set script. call_sendable c"
    and "Suc (times opens log) < 2 ^ 32"
  shows "times (gives i) log = one (0 < unat i \<and> unat i \<le> times opens log) \<and>
    times (says UDC_EVENT_CONNECTION_SUCCESS i) log + times (says UDC_EVENT_CONNECTION_TIMEOUT i) log
      + one (phases s i = Connecting) \<le> times (gives i) log \<and>
    times (says UDC_EVENT_CONNECTION_LOST i) log + one (\<exists>ping. udcGetStatus env s i = Inr (True, ping))
      \<le> times (says UDC_EVENT_CONNECTION_SUCCESS i) log + times (says UDC_EVENT_CONNECTION_REGAINED i) log"
proof -
  have "follows log (0, \<lambda>_. Idle) = Some (times opens log, phases s)" "server_inv s"
    using run_follows [OF assms(1,2,5,6) created_ok(1) [OF assms(3,4)]] created_ok(2) [OF assms(3,4)] assms(7)
    by (simp_all add: connections_ok_def)
  with follows_one_id [OF this(1), of i] assms(7) show ?thesis by (simp add: status_connected)
qed

theorem connection_events_in_order_witness:
  "\<exists>log s. run_calls sim_env sim_script (sim_start 16) = Inr (log, s) \<and>
    times (says UDC_EVENT_CONNECTION_LOST 1) log = 1 \<and> times (gives 1) log = 1 \<and>
    times (says UDC_EVENT_CONNECTION_SUCCESS 1) log \<le> 1 \<and> times (says UDC_EVENT_CONNECTION_TIMEOUT 1) log = 0 \<and>
    times (says UDC_EVENT_CONNECTION_LOST 1) log + one (\<exists>ping. udcGetStatus sim_env s 1 = Inr (True, ping))
      \<le> times (says UDC_EVENT_CONNECTION_SUCCESS 1) log + times (says UDC_EVENT_CONNECTION_REGAINED 1) log"
proof -
  from sim_script_log obtain s e1 e2 e3 log where views: "view_of e1 = ConnectionEvent UDC_EVENT_CONNECTION_SUCCESS 1"
      "view_of e2 = ConnectionEvent UDC_EVENT_CONNECTION_LOST 1" "view_of e3 = ConnectionEvent UDC_EVENT_CONNECTION_REGAINED 1"
    and log: "log = sim_log e1 e2 e3"
    and run: "run_calls sim_env sim_script (sim_start 16) = Inr (log, s)" by blast
  have n: "times opens log = 1" and counts: "times (says UDC_EVENT_CONNECTION_LOST 1) log = 1"
      "times (says UDC_EVENT_CONNECTION_SUCCESS 1) log = 1"
    using views by (simp_all add: log sim_log_def times_def)
  from connection_events_in_order [OF sim_polling sim_traffic sim_start_created run sim_script_sendable, unfolded n, of 1] counts
  have "times (gives 1) log = 1" "times (says UDC_EVENT_CONNECTION_TIMEOUT 1) log = 0"
    "times (says UDC_EVENT_CONNECTION_LOST 1) log + one (\<exists>ping. udcGetStatus sim_env s 1 = Inr (True, ping))
      \<le> times (says UDC_EVENT_CONNECTION_SUCCESS 1) log + times (says UDC_EVENT_CONNECTION_REGAINED 1) log"
    by simp_all
  with run counts show ?thesis by (intro exI [of _ log] exI [of _ s]) simp
qed

end
