(* ===== verification/Integrity.thy ===== *)
theory Integrity
  imports Sim_Run
begin

text \<open>
  Integrity: what the application reads of a message event is what a datagram of this call carried, from the address the event names.
\<close>

section \<open>The history only grows\<close>

definition grows :: "('w \<Rightarrow> io list) \<Rightarrow> 'w UdcServerImpl \<Rightarrow> 'w UdcServerImpl \<Rightarrow> bool" where
  "grows traffic s s' \<longleftrightarrow> (\<exists>new. history traffic s' = history traffic s @ new)"

lemma grows_same [simp]: "history traffic s' = history traffic s \<Longrightarrow> grows traffic s s'"
  by (simp add: grows_def)

lemma grows_trans: "grows traffic a b \<Longrightarrow> grows traffic b c \<Longrightarrow> grows traffic a c"
  by (auto simp: grows_def)

lemma emits_grows: "emits traffic s X s' \<Longrightarrow> grows traffic s s'"
  by (auto simp: emits_def grows_def)

lemma action_grows:
  assumes act: "action env traffic Q time s event s'" and inv: "server_inv s" and tr: "traffic_documented env traffic"
  shows "grows traffic s s'"
  using act
proof cases
  case (message s1 buf mux p n a)
  from message_history(1) [OF inv tr message] show ?thesis by (auto simp: grows_def)
next
  case pending
  from pending_frame(1) [OF inv tr pending] show ?thesis by (rule emits_grows)
next
  case (reliable i r)
  then obtain c where "heap s r = Some c" using referenced [OF inv] by blast
  from reliable_frame(1) [OF inv tr this reliable(3)] show ?thesis by (rule emits_grows)
next
  case (ping i r)
  then obtain c where "heap s r = Some c" using referenced [OF inv] by blast
  from ping_frame(1) [OF inv tr this ping(3)] show ?thesis by (rule emits_grows)
next
  case (lost i r)
  then obtain c where "heap s r = Some c" using referenced [OF inv] by blast
  from lost_frame(1) [OF this lost(2)] show ?thesis by simp
next
  case (connect address timeout start)
  then show ?thesis by (simp add: history_def with_pending_def)
next
  case (disconnect eid)
  from disconnect_frame(1) [OF inv disconnect(3)] show ?thesis by simp
next
  case (queue eid data n b)
  from queue_frame(1) [OF queue(4)] show ?thesis by simp
next
  case (send eid data n b)
  from unreliable_frame(1) [OF inv tr send(3,4)] show ?thesis by (rule emits_grows)
qed simp

section \<open>Where a message event comes from\<close>

text \<open>The payload of a message, with the index at which it lies in the datagram.\<close>

fun carried :: "message \<Rightarrow> (u32 \<times> byte list) option" where
  "carried (Unreliable d) = Some (5, d)"
| "carried (Reliable b t d) = Some (9, d)"
| "carried _ = None"

text \<open>\<open>delivered sig a i d out\<close>: the datagrams of \<open>out\<close> include one from \<open>a\<close> that carries the payload at the index.\<close>

definition delivered :: "UdcSignature \<Rightarrow> end_point \<Rightarrow> u32 \<Rightarrow> byte list \<Rightarrow> io list \<Rightarrow> bool" where
  "delivered sig a i d out \<longleftrightarrow>
     (\<exists>bytes m. Got a bytes \<in> set out \<and> decode sig bytes = Some m \<and> carried m = Some (i, d))"

lemma handle_reported_message:
  assumes inv: "server_inv s" and len: "unat n \<le> length (m_messageBuffer s)"
    and h: "handle_message env time a n s = Inr (Some e, s')" and e: "view_of e = MessageEvent a' i k"
  shows "a' = end_point_of a \<and> (\<exists>m. received n s = Some m \<and>
    carried m = Some (i, read_at (unat i) (unat k) (m_messageBuffer s')))"
proof (cases "received n s")
  case None
  with handle_message_ignored [OF None inv len, of env time a] h show ?thesis by simp
next
  case (Some m)
  consider (unreliable) d where "m = Unreliable d" | (reliable) b t d where "m = Reliable b t d"
    | (handshake) j where "m = Handshake j" | (answer) b t where "m = Pong t \<or> m = Ack b t \<or> m = ResetAck t"
    | (reply) j where "m = Request j \<or> m = Ping j \<or> m = Reset j" by (cases m) blast+
  then show ?thesis
  proof cases
    case unreliable
    with handle_unreliable [OF Some [unfolded unreliable] len, of env time a] h e payload_in_buffer(1) [OF Some len unreliable] Some
    show ?thesis by (auto simp: emit_def view_of_message_event)
  next
    case reliable
    from handle_reliable [OF Some [unfolded reliable] len, of env time a] h obtain s1 where
      tr: "transmits env a (encode (m_packetSignature s) (Ack b t)) (with_reliable_state a (bit_state (\<not> b)) s) s1"
      and out: "e = message_event a 9 (n - 9) (m_eventBuffer s)" "m_messageBuffer s' = m_messageBuffer s1"
      by (auto split: if_splits)
    have "read_at 9 (unat (n - 9)) (m_messageBuffer s1) = read_at 9 (unat (n - 9)) (m_messageBuffer s)"
      using tr by (auto simp: transmits_def with_reliable_state_def length_encode read_at_write_after)
    with payload_in_buffer(2) [OF Some len reliable] out e Some reliable show ?thesis
      by (auto simp: view_of_message_event)
  next
    case handshake
    then show ?thesis
      using dispatch_decoded [OF Some len, of env time a] h e
      by (auto simp: handle_message_decoded [OF Some len] processConnectionHandshake_def bind_r_Inr_iff
          emit_def Let_def split: option.splits if_splits)
  next
    case answer
    then show ?thesis
      using dispatch_decoded [OF Some len, of env time a] h e
      by (auto simp: handle_message_decoded [OF Some len] processPong_def processReliableHandshake_def bind_r_Inr_iff
          emit_def Let_def case_prod_beta split: option.splits if_splits)
  next
    case reply
    then show ?thesis
      using ok_r_Inr [OF handle_request [of n s j env time a]] ok_r_Inr [OF handle_ping [of n s j env time a]]
        ok_r_Inr [OF handle_reset [of n s j env time a]] Some len h by auto
  qed
qed

lemma actions_reported_message:
  "actions env traffic Q time s event s' \<Longrightarrow> server_inv s \<Longrightarrow> traffic_documented env traffic \<Longrightarrow> event = Some e \<Longrightarrow>
   view_of e = MessageEvent a i k \<Longrightarrow>
   \<exists>new. history traffic s' = history traffic s @ new \<and>
     delivered (m_packetSignature s) a i (read_at (unat i) (unat k) (m_messageBuffer s')) new"
proof (induction rule: actions.induct)
  case (last s event s')
  from last(1) show ?case
  proof cases
    case (message s1 p mux buf n b)
    note f = message_history [OF last(2,3) message]
    from handle_reported_message [OF f(3,4), of env time b e s'] message(5) last(4,5) f(5) obtain m where
      a: "a = end_point_of b" and m: "decode (m_packetSignature s) (read_at 0 (unat n) buf) = Some m"
      and d: "carried m = Some (i, read_at (unat i) (unat k) (m_messageBuffer s'))" by auto
    from f(1) obtain out where
      out: "history traffic s' = history traffic s @ Got (end_point_of b) (read_at 0 (unat n) buf) # out" by blast
    then show ?thesis
      using m d unfolding delivered_def a by (intro exI [of _ "Got (end_point_of b) (read_at 0 (unat n) buf) # out"]) auto
  next
    case pending
    then show ?thesis
      using last(4,5)
      by (auto simp: updatePendingClients_def bind_r_Inr_iff emit_def Let_def assert_r_def split: option.splits if_splits)
  next
    case (lost j r)
    then show ?thesis
      using last(4,5) by (auto simp: update_lost_def bind_r_Inr_iff emit_def split: if_splits)
  qed (use last(4) in auto)
next
  case (cons s s1 event s')
  have "server_inv s1" "m_packetSignature s1 = m_packetSignature s" using action_inv [OF cons(1,4)] by simp_all
  with cons action_grows [OF cons(1,4,5)] show ?case by (force simp: grows_def delivered_def)
qed simp

section \<open>Every reported message was received\<close>

text \<open>C14. Nothing is made up: when \<open>udcProcessEvents\<close> reports a message, then among the datagrams the operating system handed over
  during this very call is one from the address and port the event names, under the server's signature, that is an
  unreliable or a reliable message, and the bytes the application finds in the message buffer where the event says
  are exactly its payload (an acknowledgement composed in the same buffer in between does not touch them).\<close>

theorem reported_messages_received:
  assumes "server_inv s" and "polling_documented env" and "traffic_documented env traffic"
    and "udcProcessEvents fuel env s = Inr (Some e, s')" and "view_of e = MessageEvent a i k"
  shows "\<exists>new. history traffic s' = history traffic s @ new \<and>
    delivered (m_packetSignature s) a i (read_at (unat i) (unat k) (m_messageBuffer s')) new"
  using actions_reported_message [OF process_events_actions [OF assms(1-4), of "{}"] assms(1,3) refl assms(5)] .

theorem reported_messages_received_witness:
  "\<exists>e t' k new. udcProcessEvents 3 sim_env ((sim_server 60)\<lparr>process := sim_with [] [(sim_packet, 4321)]\<rparr>) = Inr (Some e, t') \<and>
    view_of e = MessageEvent (sim_end 4321) 9 k \<and> history sw_traffic t' = new \<and>
    delivered sim_signature (sim_end 4321) 9 [8] new"
proof -
  let ?s = "(sim_server 60)\<lparr>process := sim_with [] [(sim_packet, 4321)]\<rparr>"
  from sim_receives obtain e t' where run: "udcProcessEvents 3 sim_env ?s = Inr (Some e, t')"
    and p: "reliable_payload (sim_end 4321) (Some e) t' = [[8]]" by blast
  from p obtain k where v: "view_of e = MessageEvent (sim_end 4321) 9 k" and d: "read_at 9 (unat k) (m_messageBuffer t') = [8]"
    by (auto simp: reliable_payload_def split: event_view.splits if_splits)
  have inv: "server_inv ?s" using sim_server_inv [of 60] by (simp add: inv_defs)
  have h: "history sw_traffic ?s = []" "m_packetSignature ?s = sim_signature" by (simp_all add: history_def sim_with_def)
  from reported_messages_received [OF inv sim_polling sim_traffic run v] run v d show ?thesis unfolding h by auto
qed

end
