(* ===== verification/Server_Properties.thy ===== *)
theory Server_Properties
  imports Sim_Net
begin

text \<open>
  What each operation of the server does, branch by branch: the answers to received messages,
  the application's sends, the periodic updates, the life of a connection from
  \<open>udcTryConnect\<close> over the handshake to \<open>udcDisconnect\<close>. Every property with a hypothesis is followed by its instance on
  the concrete platform of \<open>Sim_Net\<close>.
\<close>

section \<open>What the server does with each message\<close>

text \<open>Requests and pings are answered from the buffer they arrived in: the server hands the operating
  system exactly the encoding of the handshake or pong with the id or time stamp received,
  for the sender's address, produces no event and changes nothing else.\<close>

lemma requests_and_pings_answered:
  assumes "received n s = Some m" and "unat n \<le> length (m_messageBuffer s)"
    and "m = Request w \<and> reply = Handshake w \<or> m = Ping w \<and> reply = Pong w"
  shows "\<exists>s'. handle_message env time a n s = Inr (None, s') \<and>
    transmits env a (encode (m_packetSignature s) reply) s s'"
  using assms(3) handle_request [OF _ assms(2), of w env time a] handle_ping [OF _ assms(2), of w env time a] assms(1)
  by (auto simp: ok_r_iff)

text \<open>C21. An unreliable message is delivered as it came: the event names the sender's address and port and
  the range of the message buffer that holds exactly the payload.\<close>

theorem unreliable_message_delivered:
  assumes "received n s = Some (Unreliable d)" and "unat n \<le> length (m_messageBuffer s)"
  shows "\<exists>e s'. handle_message env time a n s = Inr (Some e, s') \<and>
    view_of e = MessageEvent (end_point_of a) (ev_msgIndex e) (ev_msgSize e) \<and>
    read_at (unat (ev_msgIndex e)) (unat (ev_msgSize e)) (m_messageBuffer s') = d \<and>
    s' = s\<lparr>m_eventBuffer := e\<rparr>"
  using handle_unreliable [OF assms, of env time a] payload_in_buffer(1) [OF assms refl]
  by (simp add: emit_def view_of_message_event)

theorem unreliable_message_delivered_witness:
  "\<exists>e s'. handle_message sim_env 60 sim_peer (sim_size (Unreliable [8, 9]))
      (sim_holding (Unreliable [8, 9]) (sim_server 60)) = Inr (Some e, s') \<and>
    view_of e = MessageEvent (end_point_of sim_peer) (ev_msgIndex e) (ev_msgSize e) \<and>
    read_at (unat (ev_msgIndex e)) (unat (ev_msgSize e)) (m_messageBuffer s') = [8, 9] \<and>
    s' = (sim_holding (Unreliable [8, 9]) (sim_server 60))\<lparr>m_eventBuffer := e\<rparr>"
  by (rule unreliable_message_delivered) (simp_all add: sim_holding_received)

text \<open>C17. A reliable message is always acknowledged with its own bit and time stamp, to its sender; it is
  delivered exactly when its bit is the one expected of that sender (or nothing is known of
  the sender), with its payload intact in the buffer after the acknowledgement has been composed
  there; and the other bit is expected from then on.\<close>

theorem reliable_message_acknowledged:
  assumes "received n s = Some (Reliable b t d)" and "unat n \<le> length (m_messageBuffer s)"
  shows "\<exists>event s' s1. handle_message env time a n s = Inr (event, s') \<and>
    transmits env a (encode (m_packetSignature s) (Ack b t)) (with_reliable_state a (bit_state (\<not> b)) s) s1 \<and>
    UdcAddressMap_find (m_reliableStates s') a = Some (bit_state (\<not> b)) \<and>
    (case event of
       Some e \<Rightarrow> UdcAddressMap_find (m_reliableStates s) a \<in> {None, Some (bit_state b)} \<and>
         view_of e = MessageEvent (end_point_of a) (ev_msgIndex e) (ev_msgSize e) \<and>
         read_at (unat (ev_msgIndex e)) (unat (ev_msgSize e)) (m_messageBuffer s') = d \<and>
         s' = s1\<lparr>m_eventBuffer := e\<rparr>
     | None \<Rightarrow> UdcAddressMap_find (m_reliableStates s) a \<notin> {None, Some (bit_state b)} \<and> s' = s1)"
proof -
  let ?w = "with_reliable_state a (bit_state (\<not> b)) s"
  let ?e = "message_event a 9 (n - 9) (m_eventBuffer s)"
  from handle_reliable [OF assms, of env time a] obtain event s' s1 where
    h: "handle_message env time a n s = Inr (event, s')" and
    tr: "transmits env a (encode (m_packetSignature s) (Ack b t)) ?w s1" and
    out: "if UdcAddressMap_find (m_reliableStates s) a \<in> {None, Some (bit_state b)}
      then event = Some ?e \<and> s' = s1\<lparr>m_eventBuffer := ?e\<rparr> else event = None \<and> s' = s1"
    by (auto simp: ok_r_iff)
  have st: "m_reliableStates s' = m_reliableStates ?w"
    using transmits_keeps(4) [OF tr] out by (auto split: if_splits)
  have buf: "m_messageBuffer s' = m_messageBuffer s1" using out by (auto split: if_splits)
  have "read_at 9 (unat (n - 9)) (m_messageBuffer s1) = read_at 9 (unat (n - 9)) (m_messageBuffer s)"
    using tr by (auto simp: transmits_def with_reliable_state_def length_encode read_at_write_after)
  then have "read_at 9 (unat (n - 9)) (m_messageBuffer s') = d"
    using payload_in_buffer(2) [OF assms refl] buf by simp
  then show ?thesis
    using h tr out st
    by (intro exI [of _ event] exI [of _ s'] exI [of _ s1])
      (auto simp: with_reliable_state_def address_map.find_insert view_of_message_event split: if_splits)
qed

theorem reliable_message_acknowledged_witness:
  "\<exists>event s' s1. handle_message sim_env 60 sim_peer (sim_size (Reliable False 7 [8]))
      (sim_holding (Reliable False 7 [8]) (sim_server 60)) = Inr (event, s') \<and>
    transmits sim_env sim_peer
      (encode (m_packetSignature (sim_holding (Reliable False 7 [8]) (sim_server 60))) (Ack False 7))
      (with_reliable_state sim_peer (bit_state (\<not> False)) (sim_holding (Reliable False 7 [8]) (sim_server 60))) s1 \<and>
    UdcAddressMap_find (m_reliableStates s') sim_peer = Some (bit_state (\<not> False)) \<and>
    (case event of
       Some e \<Rightarrow> UdcAddressMap_find (m_reliableStates (sim_holding (Reliable False 7 [8]) (sim_server 60))) sim_peer
           \<in> {None, Some (bit_state False)} \<and>
         view_of e = MessageEvent (end_point_of sim_peer) (ev_msgIndex e) (ev_msgSize e) \<and>
         read_at (unat (ev_msgIndex e)) (unat (ev_msgSize e)) (m_messageBuffer s') = [8] \<and>
         s' = s1\<lparr>m_eventBuffer := e\<rparr>
     | None \<Rightarrow> UdcAddressMap_find (m_reliableStates (sim_holding (Reliable False 7 [8]) (sim_server 60))) sim_peer
           \<notin> {None, Some (bit_state False)} \<and> s' = s1)"
  by (rule reliable_message_acknowledged) (simp_all add: sim_holding_received)

section \<open>What the server sends on its own\<close>

text \<open>C20. An unreliable send to a connected client that fits the message buffer transmits exactly the encoding
  of the payload under the server's signature to the client's address; a message that is too
  long or an unknown id is refused, and for a lost client the call reports success and sends
  nothing.\<close>

theorem unreliable_send:
  assumes "server_inv s" and "signed s" and "unat dsize \<le> length data" and "unat dsize + 5 < 2 ^ 32"
  shows "\<exists>b s'. sendUnreliableMessage env eid data dsize s = Inr (b, s') \<and>
    (if unat (m_messageBufferSize s) < unat dsize + 5 then \<not> b \<and> s' = s
     else case m_clientsById s eid of
        None \<Rightarrow> \<not> b \<and> s' = s
      | Some r \<Rightarrow> \<exists>c. heap s r = Some c \<and> b \<and>
          (if connected c
           then transmits env (m_outgoingAddress c)
                  (encode (m_packetSignature s) (Unreliable (take (unat dsize) data))) s s'
           else s' = s))"
proof -
  have big: "dsize + 5 > m_messageBufferSize s \<longleftrightarrow> unat (m_messageBufferSize s) < unat dsize + 5"
    using assms(4) by (simp add: word_less_nat_alt unat_word_ariths)
  show ?thesis
  proof (cases "m_clientsById s eid")
    case None
    with big show ?thesis by (auto simp: sendUnreliableMessage_def tryGetClientById_def intro: exI [of _ False])
  next
    case (Some r)
    with server_inv_client(1) [OF assms(1)] obtain c where c: "heap s r = Some c" by blast
    have "\<exists>s'. sendUnreliableMessage env eid data dsize s = Inr (True, s') \<and>
        transmits env (m_outgoingAddress c)
          (encode (m_packetSignature s) (Unreliable (take (unat dsize) data))) s s'"
      if "\<not> unat (m_messageBufferSize s) < unat dsize + 5" "m_isConnected c"
      using sendUnreliableMessage_effect [OF assms(1,2) Some c _ assms(3) that(2), of env] that(1)
      by (auto simp: ok_r_iff)
    with Some c big show ?thesis
      by (auto simp: connected_def sendUnreliableMessage_def tryGetClientById_def deref_Some)
  qed
qed

theorem unreliable_send_witness:
  "\<exists>b s'. sendUnreliableMessage sim_env 1 [5, 6] 2 (sim_connected 60) = Inr (b, s') \<and>
    (if unat (m_messageBufferSize (sim_connected 60)) < unat (2 :: u32) + 5 then \<not> b \<and> s' = sim_connected 60
     else case m_clientsById (sim_connected 60) 1 of
        None \<Rightarrow> \<not> b \<and> s' = sim_connected 60
      | Some r \<Rightarrow> \<exists>c. heap (sim_connected 60) r = Some c \<and> b \<and>
          (if connected c
           then transmits sim_env (m_outgoingAddress c)
                  (encode (m_packetSignature (sim_connected 60)) (Unreliable (take (unat (2 :: u32)) [5, 6])))
                  (sim_connected 60) s'
           else s' = sim_connected 60))"
  by (rule unreliable_send [OF sim_connected_inv sim_signed(2)]) simp_all

text \<open>A reliable send that fits the buffer queues a copy of the payload behind the messages the client
  already waits to have acknowledged, and sends nothing; otherwise it is refused and nothing changes.\<close>

lemma reliable_send_queues:
  assumes "server_inv s" and "unat dsize \<le> length data" and "unat dsize + 9 < 2 ^ 32"
  shows "\<exists>b s'. sendReliableMessage eid data dsize s = Inr (b, s') \<and>
    (if b then unat dsize + 9 \<le> unat (m_messageBufferSize s) \<and>
       (\<exists>r c. m_clientsById s eid = Some r \<and> heap s r = Some c \<and>
          s' = s\<lparr>heap := (heap s)(r \<mapsto> c\<lparr>m_reliableMessages := m_reliableMessages c @ [take (unat dsize) data]\<rparr>)\<rparr>)
     else s' = s \<and> (unat (m_messageBufferSize s) < unat dsize + 9 \<or> m_clientsById s eid = None))"
proof -
  have big: "dsize + 9 > m_messageBufferSize s \<longleftrightarrow> unat (m_messageBufferSize s) < unat dsize + 9"
    using assms(3) by (simp add: word_less_nat_alt unat_word_ariths)
  show ?thesis
  proof (cases "m_clientsById s eid")
    case None
    then show ?thesis
      by (auto simp: sendReliableMessage_def tryGetClientById_def intro: exI [of _ False])
  next
    case (Some r)
    with server_inv_client(1) [OF assms(1)] obtain c where c: "heap s r = Some c" by blast
    with Some big assms(2) show ?thesis
      by (auto simp: sendReliableMessage_def tryGetClientById_def deref_Some store_def reliableMessages_push_def)
  qed
qed

text \<open>C19. While the front of a client's queue is not acknowledged, every update transmits it again under the
  client's current bit with the current time; once the reliable timeout has passed since its
  first transmission the client asks for a reset of the link instead, at every update until the
  reset is acknowledged. The queue itself never changes here.\<close>

theorem reliable_update:
  assumes "server_inv s" and "signed s" and "heap s r = Some c"
  shows "\<exists>s' s1. update_reliable env time r s = Inr s' \<and>
    s' = store r (after_transmission time c) s1 \<and>
    m_reliableMessages (after_transmission time c) = m_reliableMessages c \<and>
    (case m_reliableMessages c of
       [] \<Rightarrow> s1 = s \<and> after_transmission time c = c
     | msg # _ \<Rightarrow>
         if m_reliableState c = -1
         then transmits env (m_outgoingAddress c)
                (encode (m_packetSignature s) (Reset (word_of_int time))) s s1 \<and> after_transmission time c = c
         else if needsReliableReset c time
         then s1 = s \<and> m_reliableState (after_transmission time c) = -1
         else transmits env (m_outgoingAddress c)
                (encode (m_packetSignature s) (Reliable (m_reliableState c \<noteq> 0) (word_of_int time) msg)) s s1 \<and>
              m_reliableState (after_transmission time c) = m_reliableState c)"
proof -
  from update_reliable_effect [OF assms, of env time] obtain s1 where
    u: "update_reliable env time r s = Inr (store r (after_transmission time c) s1)" and
    m: "case transmission time c of None \<Rightarrow> s1 = s
        | Some m \<Rightarrow> transmits env (m_outgoingAddress c) (encode (m_packetSignature s) m) s s1"
    by (auto simp: ok_r_iff)
  show ?thesis
    using u m
    by (intro exI [of _ "store r (after_transmission time c) s1"] exI [of _ s1])
      (auto simp: transmission_def after_transmission_def client_op_defs split: list.splits if_splits)
qed

theorem reliable_update_witness:
  "\<exists>s' s1. update_reliable sim_env 60 0 (sim_busy 60) = Inr s' \<and>
    s' = store 0 (after_transmission 60 sim_busy_client) s1 \<and>
    m_reliableMessages (after_transmission 60 sim_busy_client) = m_reliableMessages sim_busy_client \<and>
    (case m_reliableMessages sim_busy_client of
       [] \<Rightarrow> s1 = sim_busy 60 \<and> after_transmission 60 sim_busy_client = sim_busy_client
     | msg # _ \<Rightarrow>
         if m_reliableState sim_busy_client = -1
         then transmits sim_env (m_outgoingAddress sim_busy_client)
                (encode (m_packetSignature (sim_busy 60)) (Reset (word_of_int 60))) (sim_busy 60) s1 \<and>
              after_transmission 60 sim_busy_client = sim_busy_client
         else if needsReliableReset sim_busy_client 60
         then s1 = sim_busy 60 \<and> m_reliableState (after_transmission 60 sim_busy_client) = -1
         else transmits sim_env (m_outgoingAddress sim_busy_client)
                (encode (m_packetSignature (sim_busy 60))
                  (Reliable (m_reliableState sim_busy_client \<noteq> 0) (word_of_int 60) msg)) (sim_busy 60) s1 \<and>
              m_reliableState (after_transmission 60 sim_busy_client) = m_reliableState sim_busy_client)"
  by (rule reliable_update [OF sim_busy_inv sim_busy_signed]) simp

text \<open>C23. Of the pending connections only the front one is worked on: it is dropped with a timeout event once
  its timeout has passed, otherwise a request with its id is transmitted to its address when an
  attempt is due, and in every case the connections behind it stay as they are.\<close>

theorem pending_connection_update:
  assumes "server_inv s" and "signed s" and "m_pendingClients s = r # rs" and "heap s r = Some c"
  shows "\<exists>event s'. updatePendingClients env time s = Inr (event, s') \<and>
    (if needsConnectionTimeoutEvent c time
     then (\<exists>e. event = Some e \<and> view_of e = ConnectionEvent UDC_EVENT_CONNECTION_TIMEOUT (m_id c) \<and>
             s' = s\<lparr>m_pendingClients := rs, m_eventBuffer := e\<rparr>)
     else event = None \<and> m_pendingClients s' = r # rs \<and>
       (if needsConnectionAttempt c time
        then transmits env (m_outgoingAddress c) (encode (m_packetSignature s) (Request (m_id c)))
               (store r (retryConnecting time c) s) s'
        else s' = s))"
proof -
  from updatePendingClients_effect [OF assms, of env time] obtain event s' where
    u: "updatePendingClients env time s = Inr (event, s')" and
    out: "if needsConnectionTimeoutEvent c time then
      event = Some ((m_eventBuffer s)\<lparr>ev_type := UDC_EVENT_CONNECTION_TIMEOUT, ev_endPointId := m_id c\<rparr>) \<and>
      s' = s\<lparr>m_pendingClients := rs, m_eventBuffer := the event\<rparr>
    else if needsConnectionAttempt c time then
      event = None \<and>
      transmits env (m_outgoingAddress c) (encode (m_packetSignature s) (Request (m_id c)))
        (store r (retryConnecting time c) s) s'
    else event = None \<and> s' = s"
    by (auto simp: ok_r_iff)
  have "m_pendingClients s' = r # rs"
    if "transmits env a bs (store r (retryConnecting time c) s) s'" for a bs
    using transmits_keeps(5) [OF that] assms(3) by (simp add: store_def)
  with u out assms(3) show ?thesis
    by (intro exI [of _ event] exI [of _ s']) (auto simp: view_of_def split: if_splits)
qed

theorem pending_connection_update_witness:
  "\<exists>event s'. updatePendingClients sim_env 50 (sim_pending 50) = Inr (event, s') \<and>
    (if needsConnectionTimeoutEvent (new_client 1 sim_peer 1000 50) 50
     then (\<exists>e. event = Some e \<and>
             view_of e = ConnectionEvent UDC_EVENT_CONNECTION_TIMEOUT (m_id (new_client 1 sim_peer 1000 50)) \<and>
             s' = (sim_pending 50)\<lparr>m_pendingClients := [], m_eventBuffer := e\<rparr>)
     else event = None \<and> m_pendingClients s' = [0] \<and>
       (if needsConnectionAttempt (new_client 1 sim_peer 1000 50) 50
        then transmits sim_env (m_outgoingAddress (new_client 1 sim_peer 1000 50))
               (encode (m_packetSignature (sim_pending 50)) (Request (m_id (new_client 1 sim_peer 1000 50))))
               (store 0 (retryConnecting 50 (new_client 1 sim_peer 1000 50)) (sim_pending 50)) s'
        else s' = sim_pending 50))"
  by (rule pending_connection_update [OF sim_pending_inv sim_signed(3)]) simp_all

section \<open>Connections\<close>

text \<open>C25. \<open>udcCreateServer\<close> refuses exactly the buffers below the minimum size; otherwise the server starts in
  the invariant, with no client and no pending connection, and with its signature at the
  start of the message buffer and the rest of the buffer untouched.\<close>

theorem create_server:
  assumes "fits bsize buffer"
  shows "if bsize < udcGetMinimumBufferSize
    then udcCreateServer env signature buffer bsize logFileName p = Inr None
    else \<exists>s. udcCreateServer env signature buffer bsize logFileName p = Inr (Some s) \<and>
      server_inv s \<and> signed s \<and> drop 4 (m_messageBuffer s) = drop 4 buffer \<and>
      m_pendingClients s = [] \<and> (\<forall>i. tryGetClientById i s = None) \<and> \<not> mux_isConnected (m_socket s)"
proof (cases "unat bsize < 9")
  case True
  then show ?thesis using udcCreateServer_eq [OF assms, of env signature logFileName p]
    by (simp add: word_less_nat_alt)
next
  case False
  define mux where "mux = (case logFileName of None \<Rightarrow> UdcSocketMux_ctor | Some name \<Rightarrow> UdcSocketMux_ctor_log env name)"
  have "\<not> mux_isConnected mux"
    by (simp add: mux_def mux_isConnected_def UdcSocketMux_ctor_def UdcSocketMux_ctor_log_def
        split: option.split sum.split)
  moreover have "4 \<le> length buffer" using assms False by (simp add: fits_iff)
  ultimately show ?thesis
    using udcCreateServer_eq [OF assms, of env signature logFileName p] False
      initial_server_inv [OF assms, of mux signature p]
    by (auto simp: word_less_nat_alt mux_def [symmetric] stamped_def initial_server_def tryGetClientById_def
        drop_write_at)
qed

theorem create_server_witness:
  "if (16 :: u32) < udcGetMinimumBufferSize
    then udcCreateServer sim_env sim_signature (replicate 16 0) 16 None (sim_process 0) = Inr None
    else \<exists>s. udcCreateServer sim_env sim_signature (replicate 16 0) 16 None (sim_process 0) = Inr (Some s) \<and>
      server_inv s \<and> signed s \<and> drop 4 (m_messageBuffer s) = drop 4 (replicate 16 0) \<and>
      m_pendingClients s = [] \<and> (\<forall>i. tryGetClientById i s = None) \<and> \<not> mux_isConnected (m_socket s)"
  by (rule create_server) (simp add: fits_iff)

text \<open>A connection attempt with a timeout other than zero always succeeds: it puts one new client with the
  next id and the given address behind the pending connections, sends nothing and connects
  nothing yet; with timeout zero it fails and changes nothing.\<close>

lemma connect_queues_client:
  shows "(timeout = 0 \<longrightarrow> udcTryConnectIPv4 env (Some s) ip4 port timeout = Inr (None, Some s) \<and>
       udcTryConnectIPv6 env (Some s) ip6 port timeout = Inr (None, Some s)) \<and>
    (timeout \<noteq> 0 \<longrightarrow>
      (\<forall>connect ep. connect = udcTryConnectIPv4 env (Some s) ip4 port timeout \<and> ep = EP_IPv4 ip4 port \<or>
           connect = udcTryConnectIPv6 env (Some s) ip6 port timeout \<and> ep = EP_IPv6 ip6 port \<longrightarrow>
        (\<exists>s' c. connect = Inr (Some (m_idCounter s + 1), Some s') \<and>
          m_pendingClients s' = m_pendingClients s @ [heap_next s] \<and> heap s' = (heap s)(heap_next s \<mapsto> c) \<and>
          m_id c = m_idCounter s + 1 \<and> \<not> connected c \<and> end_point_of (m_outgoingAddress c) = ep \<and>
          m_clientsById s' = m_clientsById s \<and> m_clientsByAddress s' = m_clientsByAddress s \<and>
          os (process s') = snd (api_now env (os (process s))))))"
proof -
  obtain t s1 where t: "current_time env s = (t, s1)" by fastforce
  then have s1: "s1 = s\<lparr>process := (process s)\<lparr>os := snd (api_now env (os (process s)))\<rparr>\<rparr>"
    by (simp add: current_time_def case_prod_beta Let_def)
  have ep: "end_point_of (mux_of_ipv4 ip4 port) = EP_IPv4 ip4 port" "end_point_of (mux_of_ipv6 ip6 port) = EP_IPv6 ip6 port"
    by (simp_all add: mux_of_ipv4_def mux_of_ipv6_def end_point_of_def)
  show ?thesis
    using udcTryConnectIPv4_eq [OF _ t, of timeout ip4 port] udcTryConnectIPv6_eq [OF _ t, of timeout ip6 port]
    by (auto simp: udcTryConnectIPv4_def [of env "Some s" _ _ 0] udcTryConnectIPv6_def [of env "Some s" _ _ 0]
        with_pending_def new_client_def startConnecting_def UdcClient_ctor_def connected_def ep s1)
qed

text \<open>C22. A handshake completes the front pending connection exactly when it carries that connection's id and
  comes from an address no client is filed under: the client is then found by its id and by
  the address the handshake came from, its status is connected, and a success event names it.
  Any other handshake is ignored.\<close>

theorem handshake_connects:
  assumes "received n s = Some (Handshake i)" and "unat n \<le> length (m_messageBuffer s)"
    and "m_pendingClients s = r # rs" and "heap s r = Some c"
  shows "\<exists>event s'. handle_message env time a n s = Inr (event, s') \<and>
    (if m_id c = i \<and> tryGetClientByAddress a s = None
     then (\<exists>e. event = Some e \<and> view_of e = ConnectionEvent UDC_EVENT_CONNECTION_SUCCESS i) \<and>
       m_pendingClients s' = rs \<and> tryGetClientById i s' = Some r \<and> tryGetClientByAddress a s' = Some r \<and>
       (\<forall>j. j \<noteq> i \<longrightarrow> tryGetClientById j s' = tryGetClientById j s) \<and>
       (\<forall>a'. end_point_of a' \<noteq> end_point_of a \<longrightarrow> tryGetClientByAddress a' s' = tryGetClientByAddress a' s) \<and>
       udcGetStatus env s' i = Inr (True, word_of_int (m_ping c))
     else event = None \<and> s' = s)"
  using handle_handshake [OF assms, of env time a]
  by (auto simp: connection_event_def view_of_def tryGetClientById_def tryGetClientByAddress_def
      address_map.find_insert udcGetStatus_def getEndPointStatus_def deref_def connected_def
      receiveConnectionHandshake_def Let_def)

theorem handshake_connects_witness:
  "\<exists>event s'. handle_message sim_env 60 sim_peer (sim_size (Handshake 1)) (sim_holding (Handshake 1) (sim_pending 50))
      = Inr (event, s') \<and>
    (if m_id (new_client 1 sim_peer 1000 50) = 1 \<and> tryGetClientByAddress sim_peer (sim_holding (Handshake 1) (sim_pending 50)) = None
     then (\<exists>e. event = Some e \<and> view_of e = ConnectionEvent UDC_EVENT_CONNECTION_SUCCESS 1) \<and>
       m_pendingClients s' = [] \<and> tryGetClientById 1 s' = Some 0 \<and> tryGetClientByAddress sim_peer s' = Some 0 \<and>
       (\<forall>j. j \<noteq> 1 \<longrightarrow> tryGetClientById j s' = tryGetClientById j (sim_holding (Handshake 1) (sim_pending 50))) \<and>
       (\<forall>a'. end_point_of a' \<noteq> end_point_of sim_peer \<longrightarrow>
          tryGetClientByAddress a' s' = tryGetClientByAddress a' (sim_holding (Handshake 1) (sim_pending 50))) \<and>
       udcGetStatus sim_env s' 1 = Inr (True, word_of_int (m_ping (new_client 1 sim_peer 1000 50)))
     else event = None \<and> s' = sim_holding (Handshake 1) (sim_pending 50))"
  by (rule handshake_connects) (simp_all add: sim_holding_received)

text \<open>The ping the application reads is the round trip time: after the pong of a ping sent at time \<open>sent\<close> the
  status of the client is connected with \<open>time - sent\<close> milliseconds modulo \<open>2\<^sup>3\<^sup>2\<close>, although only the low
  32 bits of \<open>sent\<close> travel; and a client that had been lost is reported regained, once.\<close>

lemma pong_measures_round_trip:
  assumes "received n s = Some (Pong (word_of_int sent))" and "unat n \<le> length (m_messageBuffer s)"
    and "tryGetClientByAddress a s = Some r" and "tryGetClientById eid s = Some r" and "heap s r = Some c"
    and "int (unat (word_of_int sent :: u32)) \<le> time"
  shows "\<exists>event s'. handle_message env time a n s = Inr (event, s') \<and>
    udcGetStatus env s' eid = Inr (True, word_of_int (time - sent)) \<and>
    (if m_isConnected c then event = None
     else \<exists>e. event = Some e \<and> view_of e = ConnectionEvent UDC_EVENT_CONNECTION_REGAINED (m_id c))"
proof -
  have "word_of_int (time - int (unat (word_of_int sent :: u32))) = (word_of_int (time - sent) :: u32)"
    by (simp add: uint_nat [symmetric])
  then show ?thesis
    using handle_pong [OF assms(1,2,3,5), of env time] assms(4,6)
    by (auto simp: regain_def connection_event_def view_of_def udcGetStatus_def getEndPointStatus_def
        tryGetClientById_def store_def deref_def connected_def Let_def)
qed

text \<open>C18. An acknowledgement that is not from the future takes effect exactly when its bit is the client's
  current one: the acknowledged message leaves the queue, the bit flips and the reliable timer
  is cleared; the acknowledgement of a reset only restarts the bits. Any other
  acknowledgement leaves the queue and the bit as they are, and no other client changes.\<close>

theorem acknowledgement_advances_queue:
  assumes "received n s = Some m" and "m = Ack b t \<and> st = bit_state b \<or> m = ResetAck t \<and> st = -1"
    and "unat n \<le> length (m_messageBuffer s)"
    and "tryGetClientByAddress a s = Some r" and "heap s r = Some c"
  shows "\<exists>event s' c'. handle_message env time a n s = Inr (event, s') \<and> heap s' = (heap s)(r \<mapsto> c') \<and>
    (if int (unat t) \<le> time \<and> m_reliableState c = st
     then m_reliableMessages c' = (if st = -1 then m_reliableMessages c else tl (m_reliableMessages c)) \<and>
       m_reliableState c' = (if st = 0 then 1 else 0) \<and> m_reliableSentTime c' = 0
     else m_reliableMessages c' = m_reliableMessages c \<and> m_reliableState c' = m_reliableState c)"
proof (cases "time < int (unat t)")
  case True
  with handle_ack [OF assms, of env time] show ?thesis
    using assms(5) by (intro exI [of _ None] exI [of _ s] exI [of _ c]) (simp add: fun_upd_idem)
next
  case False
  have hc: "m_reliableMessages (handshake_client st c) =
        (if m_reliableState c = st \<and> st \<noteq> -1 then tl (m_reliableMessages c) else m_reliableMessages c)"
    "m_reliableState (handshake_client st c) =
        (if m_reliableState c = st then if st = 0 then 1 else 0 else m_reliableState c)"
    "m_reliableState c = st \<Longrightarrow> m_reliableSentTime (handshake_client st c) = 0"
    by (auto simp: handshake_client_def next_state_def client_op_defs Let_def)
  let ?c = "snd (receivePong (int (unat t)) time (handshake_client st c))"
  obtain event s' where g: "regain (\<not> m_isConnected c) r ?c s = (event, s')" by fastforce
  then have "heap s' = (heap s)(r \<mapsto> ?c)" by (auto simp: regain_def Let_def store_def split: if_splits)
  with False g handle_ack [OF assms, of env time] hc show ?thesis
    by (intro exI [of _ event] exI [of _ s'] exI [of _ ?c]) simp
qed

theorem acknowledgement_advances_queue_witness:
  "\<exists>event s' c'. handle_message sim_env 60 sim_peer (sim_size (Ack False 55)) (sim_holding (Ack False 55) (sim_busy 60))
      = Inr (event, s') \<and> heap s' = (heap (sim_holding (Ack False 55) (sim_busy 60)))(0 \<mapsto> c') \<and>
    (if int (unat (55 :: u32)) \<le> 60 \<and> m_reliableState sim_busy_client = bit_state False
     then m_reliableMessages c' = (if bit_state False = -1 then m_reliableMessages sim_busy_client
         else tl (m_reliableMessages sim_busy_client)) \<and>
       m_reliableState c' = (if bit_state False = 0 then 1 else 0) \<and> m_reliableSentTime c' = 0
     else m_reliableMessages c' = m_reliableMessages sim_busy_client \<and>
       m_reliableState c' = m_reliableState sim_busy_client)"
  by (rule acknowledgement_advances_queue [of _ _ "Ack False 55" False])
    (simp_all add: sim_holding_received tryGetClientByAddress_def)

text \<open>C24. After \<open>udcDisconnect\<close> the id is unknown: its status is not connected (with the ping of an uninitialised
  variable) and every send to it is refused, while all other connected ids keep their clients; for an id that was still pending, exactly the pending
  clients with that id are removed.\<close>

theorem disconnect_forgets:
  assumes "server_inv s"
  shows "\<exists>s'. udcDisconnect s eid = Inr s' \<and>
    m_clientsById s' = (m_clientsById s)(eid := None) \<and>
    udcGetStatus env s' eid = Inr (False, word_of_int (uninit_ping env)) \<and>
    udcSendMessage env s' eid data dsize reliability = Inr (False, s') \<and>
    m_pendingClients s' = (if m_clientsById s eid = None
      then filter (\<lambda>r. map_option m_id (heap s r) \<noteq> Some eid) (m_pendingClients s) else m_pendingClients s)"
proof -
  have sub: "set (m_pendingClients s) \<subseteq> dom (heap s)" using assms by (simp add: inv_defs)
  have gone: "udcSendMessage env s' eid data dsize reliability = Inr (False, s') \<and>
      udcGetStatus env s' eid = Inr (False, word_of_int (uninit_ping env))"
    if "m_clientsById s' eid = None" for s'
    using that by (simp add: udcSendMessage_def sendUnreliableMessage_def sendReliableMessage_def
        tryGetClientById_def udcGetStatus_def getEndPointStatus_def)
  show ?thesis
  proof (cases "m_clientsById s eid")
    case None
    let ?s = "s\<lparr>m_pendingClients := filter (\<lambda>r. map_option m_id (heap s r) \<noteq> Some eid) (m_pendingClients s)\<rparr>"
    from None sub have "udcDisconnect s eid = Inr ?s"
      by (simp add: udcDisconnect_def disconnectFromClient_def erase_pending_eq object_ids_def)
    then show ?thesis using None gone [of ?s] by (auto simp: fun_upd_idem)
  next
    case (Some r)
    with server_inv_client(1) [OF assms] obtain c where "deref r s = Inr c" by blast
    with Some have "udcDisconnect s eid = Inr (s\<lparr>m_clientsByAddress :=
        UdcAddressMap_erase (m_clientsByAddress s) (m_outgoingAddress c),
        m_clientsById := (m_clientsById s)(eid := None)\<rparr>)"
      by (simp add: udcDisconnect_def disconnectFromClient_def)
    then show ?thesis using Some gone by auto
  qed
qed

theorem disconnect_forgets_witness:
  "\<exists>s'. udcDisconnect (sim_connected 60) 1 = Inr s' \<and>
    m_clientsById s' = (m_clientsById (sim_connected 60))(1 := None) \<and>
    udcGetStatus sim_env s' 1 = Inr (False, word_of_int (uninit_ping sim_env)) \<and>
    udcSendMessage sim_env s' 1 [1] 1 UDC_RELIABLE_MESSAGE = Inr (False, s') \<and>
    m_pendingClients s' = (if m_clientsById (sim_connected 60) 1 = None
      then filter (\<lambda>r. map_option m_id (heap (sim_connected 60) r) \<noteq> Some 1) (m_pendingClients (sim_connected 60))
      else m_pendingClients (sim_connected 60))"
  by (rule disconnect_forgets [OF sim_connected_inv])

section \<open>Serving all connected clients\<close>







section \<open>What counts as a message\<close>



end
