(* ===== verification/Exchanges.thy ===== *)
theory Exchanges
  imports Connections Divergences Server_Properties
begin

text \<open>
  Exchanges between two servers, composed of the handlers of both: a connection attempt with its request and
  handshake, and a ping with its pong.
\<close>

section \<open>Exchanges between two servers\<close>

lemma room_for_word:
  assumes "server_inv s" and "length (message_body m) = 4"
  shows "room_for m s"
  using server_inv_buffer(1) [OF assms(1)] assms(2) by (simp add: room_for_def)

lemma delivered_word:
  assumes inv: "server_inv s" and body: "length (message_body m) = 4"
  shows "\<exists>n buf. deliver env time a m s = handle_message env time a n (s\<lparr>m_messageBuffer := buf\<rparr>) \<and>
    received n (s\<lparr>m_messageBuffer := buf\<rparr>) = Some m \<and> unat n \<le> length buf \<and> length buf = length (m_messageBuffer s)"
proof -
  note room = room_for_word [OF inv body]
  note arr = deliver_arrived [OF room]
  have "length (write_at 0 (encode (m_packetSignature s) m) (m_messageBuffer s)) = length (m_messageBuffer s)"
    using room by (simp add: room_for_def length_encode)
  with arr show ?thesis unfolding deliver_def arrived_def by blast
qed

text \<open>C7. A connection attempt whose request and answer both arrive before its time-out succeeds: the server sends the
  request for the front of its queue, a peer with the same signature answers it with a handshake for the same id, and
  the handshake, from any address that is not yet in use, makes the server report success and the
  end point connected. The peer only answers: its own clients stay as they are.\<close>

theorem attempt_completes:
  assumes "server_inv s" and "stamped g s" and "m_packetSignature s = g" and "server_inv peer" and "m_packetSignature peer = g"
    and "m_pendingClients s = r # rs" and "heap s r = Some c"
    and "\<not> needsConnectionTimeoutEvent c time" and "needsConnectionAttempt c time"
    and "tryGetClientByAddress b s = None"
  shows "\<exists>s1 peer1 peer2 e s2.
    updatePendingClients env time s = Inr (None, s1) \<and>
    transmits env (m_outgoingAddress c) (encode g (Request (m_id c))) (store r (retryConnecting time c) s) s1 \<and>
    deliver env' time1 a (Request (m_id c)) peer = Inr (None, peer2) \<and>
    transmits env' a (encode g (Handshake (m_id c))) peer1 peer2 \<and> same_clients peer peer2 \<and>
    deliver env time2 b (Handshake (m_id c)) s1 = Inr (Some e, s2) \<and>
    view_of e = ConnectionEvent UDC_EVENT_CONNECTION_SUCCESS (m_id c) \<and>
    getEndPointStatus (m_id c) s2 = Inr (Some (m_ping c)) \<and> tryGetClientByAddress b s2 = Some r"
proof -
  from updatePendingClients_effect [OF assms(1,2,6,7), of env time] assms(8,9) obtain s1 where
    u: "updatePendingClients env time s = Inr (None, s1)"
    and t: "transmits env (m_outgoingAddress c) (encode g (Request (m_id c))) (store r (retryConnecting time c) s) s1"
    by (auto simp: ok_r_iff)
  have inv1: "server_inv s1" using updatePendingClients_safe [OF assms(1), of env time] u by simp
  have s1: "heap s1 r = Some (retryConnecting time c)" "m_pendingClients s1 = r # rs" "m_clientsByAddress s1 = m_clientsByAddress s"
    using transmits_keeps(1,3,5) [OF t] assms(6) by (simp_all add: store_def)
  from delivered_word [OF assms(4), of "Request (m_id c)" env' time1 a] obtain n buf where
    d: "deliver env' time1 a (Request (m_id c)) peer = handle_message env' time1 a n (peer\<lparr>m_messageBuffer := buf\<rparr>)"
    and rcv: "received n (peer\<lparr>m_messageBuffer := buf\<rparr>) = Some (Request (m_id c))"
    and len: "unat n \<le> length (m_messageBuffer (peer\<lparr>m_messageBuffer := buf\<rparr>))" by auto
  from handle_request [OF rcv len, of env' time1 a] obtain peer2 where
    p: "handle_message env' time1 a n (peer\<lparr>m_messageBuffer := buf\<rparr>) = Inr (None, peer2)"
    and tp: "transmits env' a (encode g (Handshake (m_id c))) (peer\<lparr>m_messageBuffer := buf\<rparr>) peer2"
    using assms(5) by (auto simp: ok_r_iff)
  have keep: "same_clients peer peer2" using transmits_clients [OF tp] by (simp add: same_clients_def)
  from delivered_word [OF inv1, of "Handshake (m_id c)" env time2 b] obtain k buf1 where
    d1: "deliver env time2 b (Handshake (m_id c)) s1 = handle_message env time2 b k (s1\<lparr>m_messageBuffer := buf1\<rparr>)"
    and rcv1: "received k (s1\<lparr>m_messageBuffer := buf1\<rparr>) = Some (Handshake (m_id c))"
    and len1: "unat k \<le> length (m_messageBuffer (s1\<lparr>m_messageBuffer := buf1\<rparr>))" by auto
  have "\<exists>e s2. handle_message env time2 b k (s1\<lparr>m_messageBuffer := buf1\<rparr>) = Inr (Some e, s2) \<and>
    view_of e = ConnectionEvent UDC_EVENT_CONNECTION_SUCCESS (m_id c) \<and>
    getEndPointStatus (m_id c) s2 = Inr (Some (m_ping c)) \<and> tryGetClientByAddress b s2 = Some r"
    using handle_handshake [OF rcv1 len1, of r rs "retryConnecting time c" env time2 b] s1 assms(10)
    by (auto simp: tryGetClientByAddress_def Let_def retryConnecting_def receiveConnectionHandshake_def getEndPointStatus_def
        tryGetClientById_def deref_def connected_def address_map.find_insert)
  with u t d p tp keep d1 show ?thesis by auto
qed

theorem attempt_completes_witness:
  "\<exists>s1 peer1 peer2 e s2.
    updatePendingClients sim_env 1010 (sim_pending 1000) = Inr (None, s1) \<and>
    transmits sim_env sim_peer (encode sim_signature (Request 1)) (store 0 (retryConnecting 1010 (new_client 1 sim_peer 1000 1000)) (sim_pending 1000)) s1 \<and>
    deliver sim_env 20 sim_peer (Request 1) (sim_server 20) = Inr (None, peer2) \<and>
    transmits sim_env sim_peer (encode sim_signature (Handshake 1)) peer1 peer2 \<and> same_clients (sim_server 20) peer2 \<and>
    deliver sim_env 1030 sim_peer (Handshake 1) s1 = Inr (Some e, s2) \<and>
    view_of e = ConnectionEvent UDC_EVENT_CONNECTION_SUCCESS 1 \<and>
    getEndPointStatus 1 s2 = Inr (Some 0) \<and> tryGetClientByAddress sim_peer s2 = Some 0"
proof -
  have c: "m_id (new_client 1 sim_peer 1000 1000) = 1" "m_ping (new_client 1 sim_peer 1000 1000) = 0"
    "m_outgoingAddress (new_client 1 sim_peer 1000 1000) = sim_peer"
    by (simp_all add: new_client_def UdcClient_ctor_def startConnecting_def)
  show ?thesis
    by (rule attempt_completes [OF sim_pending_inv, where r = 0 and rs = "[]" and c = "new_client 1 sim_peer 1000 1000" and g = sim_signature, unfolded c])
      (simp_all add: sim_server_inv sim_signed(3) [simplified] tryGetClientByAddress_def new_client_def UdcClient_ctor_def startConnecting_def
        needsConnectionTimeoutEvent_def needsConnectionAttempt_def)
qed

text \<open>C8. A ping that is due and answered: the server sends its time, a peer with the same signature returns it, and the
  pong from the client's address makes the status the round trip in milliseconds (modulo \<open>2\<^sup>3\<^sup>2\<close>, although only 32
  bits of the time travel); an end point that had been lost is reported as regained, a connected one stays
  connected without an event. So a loss is undone by the first exchange that gets through.\<close>

theorem ping_completes:
  assumes "server_inv s" and "stamped g s" and "m_packetSignature s = g" and "server_inv peer" and "m_packetSignature peer = g"
    and "m_clientsById s i = Some r" and "tryGetClientByAddress b s = Some r" and "heap s r = Some c"
    and "needsPing c time" and "0 \<le> time" and "time \<le> time2"
  shows "\<exists>s1 peer1 peer2 event s2.
    update_ping env time r s = Inr s1 \<and>
    transmits env (m_outgoingAddress c) (encode g (Ping (word_of_int time))) s s1 \<and>
    deliver env' time1 a (Ping (word_of_int time)) peer = Inr (None, peer2) \<and>
    transmits env' a (encode g (Pong (word_of_int time))) peer1 peer2 \<and> same_clients peer peer2 \<and>
    deliver env time2 b (Pong (word_of_int time)) s1 = Inr (event, s2) \<and>
    udcGetStatus env s2 i = Inr (True, word_of_int (time2 - time)) \<and>
    (if m_isConnected c then event = None
     else \<exists>e. event = Some e \<and> view_of e = ConnectionEvent UDC_EVENT_CONNECTION_REGAINED (m_id c))"
proof -
  from update_ping_effect [OF assms(1,2,8), of env time] assms(9) obtain s1 where
    u: "update_ping env time r s = Inr s1" and t: "transmits env (m_outgoingAddress c) (encode g (Ping (word_of_int time))) s s1"
    by (auto simp: ok_r_iff)
  have inv1: "server_inv s1" using update_ping_safe [OF assms(1), of r env time] assms(8) u by (auto simp: upd_ok_def)
  from delivered_word [OF assms(4), of "Ping (word_of_int time)" env' time1 a] obtain n buf where
    d: "deliver env' time1 a (Ping (word_of_int time)) peer = handle_message env' time1 a n (peer\<lparr>m_messageBuffer := buf\<rparr>)"
    and rcv: "received n (peer\<lparr>m_messageBuffer := buf\<rparr>) = Some (Ping (word_of_int time))"
    and len: "unat n \<le> length (m_messageBuffer (peer\<lparr>m_messageBuffer := buf\<rparr>))" by auto
  from handle_ping [OF rcv len, of env' time1 a] obtain peer2 where
    p: "handle_message env' time1 a n (peer\<lparr>m_messageBuffer := buf\<rparr>) = Inr (None, peer2)"
    and tp: "transmits env' a (encode g (Pong (word_of_int time))) (peer\<lparr>m_messageBuffer := buf\<rparr>) peer2"
    using assms(5) by (auto simp: ok_r_iff)
  have keep: "same_clients peer peer2" using transmits_clients [OF tp] by (simp add: same_clients_def)
  from delivered_word [OF inv1, of "Pong (word_of_int time)" env time2 b] obtain k buf1 where
    d1: "deliver env time2 b (Pong (word_of_int time)) s1 = handle_message env time2 b k (s1\<lparr>m_messageBuffer := buf1\<rparr>)"
    and rcv1: "received k (s1\<lparr>m_messageBuffer := buf1\<rparr>) = Some (Pong (word_of_int time))"
    and len1: "unat k \<le> length (m_messageBuffer (s1\<lparr>m_messageBuffer := buf1\<rparr>))" by auto
  have "int (unat (word_of_int time :: u32)) \<le> time2"
  proof -
    have "time mod 4294967296 \<le> time" using assms(10) by (rule zmod_le_nonneg_dividend)
    with assms(11) show ?thesis by (simp add: uint_word_of_int)
  qed
  then have "\<exists>event s2. handle_message env time2 b k (s1\<lparr>m_messageBuffer := buf1\<rparr>) = Inr (event, s2) \<and>
      udcGetStatus env s2 i = Inr (True, word_of_int (time2 - time)) \<and>
      (if m_isConnected c then event = None
       else \<exists>e. event = Some e \<and> view_of e = ConnectionEvent UDC_EVENT_CONNECTION_REGAINED (m_id c))"
    using transmits_keeps(1-3) [OF t] assms(6-8)
    by (intro pong_measures_round_trip [OF rcv1 len1]) (simp_all add: tryGetClientByAddress_def tryGetClientById_def)
  with u t d p tp keep d1 show ?thesis by auto
qed

theorem ping_completes_witness:
  "\<exists>s1 peer1 peer2 event s2.
    update_ping sim_env 1100 0 (store 0 (setConnectionLost sim_client) (sim_connected 1100)) = Inr s1 \<and>
    transmits sim_env sim_peer (encode sim_signature (Ping (word_of_int 1100))) (store 0 (setConnectionLost sim_client) (sim_connected 1100)) s1 \<and>
    deliver sim_env 20 sim_peer (Ping (word_of_int 1100)) (sim_server 20) = Inr (None, peer2) \<and>
    transmits sim_env sim_peer (encode sim_signature (Pong (word_of_int 1100))) peer1 peer2 \<and> same_clients (sim_server 20) peer2 \<and>
    deliver sim_env 1130 sim_peer (Pong (word_of_int 1100)) s1 = Inr (event, s2) \<and>
    udcGetStatus sim_env s2 1 = Inr (True, word_of_int (1130 - 1100)) \<and>
    (if m_isConnected (setConnectionLost sim_client) then event = None
     else \<exists>e. event = Some e \<and> view_of e = ConnectionEvent UDC_EVENT_CONNECTION_REGAINED (m_id (setConnectionLost sim_client)))"
proof -
  have c: "m_outgoingAddress (setConnectionLost sim_client) = sim_peer"
    by (simp add: sim_client_def UdcClient_ctor_def setConnectionLost_def)
  have inv: "server_inv (store 0 (setConnectionLost sim_client) (sim_connected 1100))"
    using server_inv_wf [OF sim_connected_inv, where r = 0 and c = sim_client]
    by (intro server_inv_store [OF sim_connected_inv, where c = sim_client]) simp_all
  have "stamped sim_signature (store 0 (setConnectionLost sim_client) (sim_connected 1100))"
    using sim_signed(2) [of 1100] by (simp add: stamped_def store_def)
  then show ?thesis
    by (intro ping_completes [OF inv, where c = "setConnectionLost sim_client" and g = sim_signature, unfolded c])
      (simp_all add: sim_server_inv tryGetClientByAddress_def needsPing_def setConnectionLost_def sim_client_def UdcClient_ctor_def,
       simp_all add: store_def)
qed

end
