(* ===== verification/Platform_Properties.thy ===== *)
theory Platform_Properties
  imports Sim_Net
begin

text \<open>
  What the platform layer promises to the server above it: addresses survive the conversion to
  and from socket addresses, a receive stays within its buffer, socket handles are neither leaked
  nor used after they were closed, and names resolve to the first usable address.
\<close>

section \<open>Addresses across the system calls\<close>

text \<open>C28. A datagram that \<open>recvfrom\<close> reports as coming from the socket address the code itself would
  build for an end point is received with that IP address and port, its bytes at the start of
  the buffer and its length as the size: what was sent to an address can be answered to it.\<close>

theorem received_datagram_reported:
  assumes "byte_order_documented env" and "fits bsize buffer"
    and "d \<noteq> []" and "length d \<le> unat bsize"
    and "api_recvfrom_in env h (sint bsize) (os p) =
      (\<lparr>rr_result = int (length d), rr_error = e4, rr_written = d, rr_from = createAddressIPv4 env ip4 port4\<rparr>, w4)"
    and "api_recvfrom_in6 env h (sint bsize) (os p) =
      (\<lparr>rr_result = int (length d), rr_error = e6, rr_written = d, rr_from = createAddressIPv6 env ip6 port6\<rparr>, w6)"
  shows "receivePacketIPv4 env h old4 q buffer bsize p =
      Inr (\<lparr>rv_code = 1, rv_address = ip4, rv_port = port4, rv_buffer = write_at 0 d buffer,
            rv_size = of_nat (length d)\<rparr>, p\<lparr>os := w4\<rparr>) \<and>
    receivePacketIPv6 env h old6 q buffer bsize p =
      Inr (\<lparr>rv_code = 1, rv_address = ip6, rv_port = port6, rv_buffer = write_at 0 d buffer,
            rv_size = of_nat (length d)\<rparr>, p\<lparr>os := w6\<rparr>)"
proof -
  have "sint bsize = int (unat bsize)" using assms(2) by (intro sint_cases32) (simp add: fits_iff)
  then have "int (length d) \<le> sint bsize" using assms(4) by linarith
  moreover have "length d \<le> length buffer" using assms(2,4) by (simp add: fits_iff)
  moreover have "convertInaddrToIPv4 (sin_addr (createAddressIPv4 env ip4 port4)) = ip4"
    "convertInaddrToIPv6 (sin6_addr (createAddressIPv6 env ip6 port6)) = ip6"
    by (cases ip4; cases ip6; simp add: createAddressIPv4_def createAddressIPv6_def)+
  moreover have "api_ntohs env (sin_port (createAddressIPv4 env ip4 port4)) = port4"
    "api_ntohs env (sin6_port (createAddressIPv6 env ip6 port6)) = port6"
    using assms(1) by (simp_all add: byte_order_documented_def createAddressIPv4_def createAddressIPv6_def)
  ultimately show ?thesis
    using assms(3-6) by (simp add: receivePacketIPv4_def receivePacketIPv6_def memcpy_def)
qed

definition sim_arrival :: "sim_world Process" where
  "sim_arrival = (sim_process 0)\<lparr>os := (os (sim_process 0))
     \<lparr>sw_in4 := [([7, 8], createAddressIPv4 sim_env (IPv4 10 0 0 1) 80)],
      sw_in6 := [([7, 8], createAddressIPv6 sim_env (IPv6 1 2 3 4 5 6 7 8) 81)]\<rparr>\<rparr>"

theorem received_datagram_reported_witness:
  "receivePacketIPv4 sim_env 1 (IPv4 0 0 0 0) 0 [0, 0, 0] 3 sim_arrival =
      Inr (\<lparr>rv_code = 1, rv_address = IPv4 10 0 0 1, rv_port = 80, rv_buffer = write_at 0 [7, 8] [0, 0, 0],
            rv_size = of_nat (length [7 :: byte, 8])\<rparr>, sim_arrival\<lparr>os := snd (api_recvfrom_in sim_env 1 3 (os sim_arrival))\<rparr>) \<and>
    receivePacketIPv6 sim_env 1 (IPv6 0 0 0 0 0 0 0 0) 0 [0, 0, 0] 3 sim_arrival =
      Inr (\<lparr>rv_code = 1, rv_address = IPv6 1 2 3 4 5 6 7 8, rv_port = 81, rv_buffer = write_at 0 [7, 8] [0, 0, 0],
            rv_size = of_nat (length [7 :: byte, 8])\<rparr>, sim_arrival\<lparr>os := snd (api_recvfrom_in6 sim_env 1 3 (os sim_arrival))\<rparr>)"
  by (rule received_datagram_reported [OF sim_byte_order])
    (simp_all add: fits_iff sim_env_def sim_recv_def sim_arrival_def sim_process_def)

section \<open>Memory and results of a receive\<close>

definition received_within :: "byte list \<Rightarrow> u32 \<Rightarrow> 'a received \<Rightarrow> bool" where
  "received_within buffer bsize v \<longleftrightarrow>
     length (rv_buffer v) = length buffer \<and> drop (unat bsize) (rv_buffer v) = drop (unat bsize) buffer \<and>
     (if rv_code v = 1 then 0 < unat (rv_size v) \<and> unat (rv_size v) \<le> unat bsize
      else if rv_code v = -1 then rv_size v = 0xFFFFFFFF
      else rv_code v \<in> {0, -2} \<and> rv_size v = bsize)"

lemma receive_outcome_within:
  assumes doc: "recv_result_fits (sint bsize) r" and fit: "fits bsize buffer"
  shows "ok_r (receive_outcome r a1 p1 a0 p0 buffer bsize) (received_within buffer bsize)"
proof -
  note len = recv_result_size [OF doc fit]
  have rest: "drop (unat bsize) (write_at 0 (rr_written r) buffer) = drop (unat bsize) buffer"
    using len by (simp add: drop_write_at)
  show ?thesis
  proof (cases "rr_result r = 0 \<or> rr_result r = -1")
    case True
    with len rest show ?thesis by (auto simp: receive_outcome_def memcpy_def received_within_def)
  next
    case False
    with doc have n: "rr_result r = int (length (rr_written r))" "0 < length (rr_written r)"
      by (auto simp: recv_result_fits_def)
    note sz = result_as_size(1) [OF n(2) len(1) fit]
    have "rr_result r \<le> sint bsize" using doc n by (simp add: recv_result_fits_def)
    with False n len sz rest show ?thesis
      by (simp add: receive_outcome_def memcpy_def received_within_def)
  qed
qed

text \<open>C27. A receive stays within the size it is given: whatever arrives, the call returns one of the four
  documented codes, the bytes of the buffer beyond the size are untouched, and the size
  left behind is that of a datagram that fits (code 1), \<open>0xFFFFFFFF\<close> after a truncated
  datagram (code -1), and the size given otherwise.\<close>

theorem receive_within_size:
  assumes "recvfrom_documented env" and "fits bsize buffer"
  shows "ok_r (receiveIPv4 env sock a4 port buffer bsize p) (\<lambda>(v, p'). received_within buffer bsize v) \<and>
    ok_r (receiveIPv6 env sock a6 port buffer bsize p) (\<lambda>(v, p'). received_within buffer bsize v)"
proof -
  have pos: "0 \<le> sint bsize" using assms(2) by (simp add: fits_def)
  have closed: "received_within buffer bsize \<lparr>rv_code = -2, rv_address = a, rv_port = q, rv_buffer = buffer,
      rv_size = bsize\<rparr>" for a q
    by (simp add: received_within_def)
  obtain r4 w4 where r4: "api_recvfrom_in env (us_socket sock) (sint bsize) (os p) = (r4, w4)" by fastforce
  obtain r6 w6 where r6: "api_recvfrom_in6 env (us_socket sock) (sint bsize) (os p) = (r6, w6)" by fastforce
  from assms(1) pos r4 r6 have "recv_result_fits (sint bsize) r4" "recv_result_fits (sint bsize) r6"
    by (auto simp: recvfrom_documented_def dest!: spec [of _ "us_socket sock"] spec [of _ "sint bsize"] spec [of _ "os p"])
  note out = receive_outcome_within [OF this(1) assms(2)] receive_outcome_within [OF this(2) assms(2)]
  show ?thesis
    by (simp add: receiveIPv4_def receiveIPv6_def receivePacketIPv4_outcome receivePacketIPv6_outcome r4 r6
        out closed)
qed

theorem receive_within_size_witness:
  "ok_r (receiveIPv4 sim_env \<lparr>us_socket = 1\<rparr> (IPv4 0 0 0 0) 0 [0, 0, 0] 1 sim_arrival)
      (\<lambda>(v, p'). received_within [0, 0, 0] 1 v) \<and>
   ok_r (receiveIPv6 sim_env \<lparr>us_socket = 1\<rparr> (IPv6 0 0 0 0 0 0 0 0) 0 [0, 0, 0] 1 sim_arrival)
      (\<lambda>(v, p'). received_within [0, 0, 0] 1 v)"
  using sim_documented by (intro receive_within_size) (simp_all add: platform_documented_def fits_iff)

section \<open>The WinSock reference\<close>

text \<open>
  The documented reference count of WinSock: a successful start-up adds one, a clean-up takes one away. The process holds one
  exactly while its static reference exists, whichever function starts it, and none after the process has ended.
\<close>

definition startups_documented :: "'w platform_api \<Rightarrow> ('w \<Rightarrow> nat) \<Rightarrow> bool" where
  "startups_documented env refs \<longleftrightarrow>
     (\<forall>w. refs (snd (api_WSAStartup env w)) = refs w + (if fst (api_WSAStartup env w) = NO_ERROR then 1 else 0)) \<and>
     (\<forall>w. refs (api_WSACleanup env w) = refs w - 1)"

definition references_held :: "('w \<Rightarrow> nat) \<Rightarrow> 'w Process \<Rightarrow> bool" where
  "references_held refs p \<longleftrightarrow> refs (os p) = (if winSockReference p then 1 else 0)"

lemma winsock_reference_released:
  assumes doc: "startups_documented env refs" and held: "references_held refs p"
  shows "UdcSocket_ctor env p = Inr (sock, p1) \<Longrightarrow> references_held refs p1 \<and> winSockReference p1"
    and "ensure_WinSock env p = (started, p1) \<Longrightarrow> references_held refs p1 \<and> winSockReference p1 = started"
    and "refs (os (process_exit env p)) = 0"
proof -
  obtain r w where w: "api_WSAStartup env (os p) = (r, w)" by fastforce
  have refs: "refs w = refs (os p) + (if r = NO_ERROR then 1 else 0)"
    using doc w by (auto simp: startups_documented_def dest!: spec [of _ "os p"])
  show "references_held refs p1 \<and> winSockReference p1" if "UdcSocket_ctor env p = Inr (sock, p1)"
    using that w refs held by (auto simp: UdcSocket_ctor_def WinSockReference_ctor_def references_held_def split: if_splits)
  show "references_held refs p1 \<and> winSockReference p1 = started" if "ensure_WinSock env p = (started, p1)"
    using that w refs held by (auto simp: ensure_WinSock_def references_held_def split: if_splits)
  show "refs (os (process_exit env p)) = 0"
    using doc held by (simp add: process_exit_def WinSockReference_dtor_def startups_documented_def references_held_def)
qed

section \<open>Socket handles\<close>

text \<open>
  What is documented of the calls that open and close sockets, for the set of open handles: \<open>socket\<close>
  opens a new one or fails, \<open>closesocket\<close> closes the one it is given, the others open and close none.
\<close>

definition handles_documented :: "'w platform_api \<Rightarrow> ('w \<Rightarrow> SOCKET set) \<Rightarrow> bool" where
  "handles_documented env handles \<longleftrightarrow>
     (\<forall>f t pr w. case api_socket env f t pr w of (h, w') \<Rightarrow>
        h \<notin> handles w \<and> handles w' = (if h = INVALID_SOCKET then handles w else insert h (handles w))) \<and>
     (\<forall>h w. handles (api_closesocket env h w) = handles w - {h}) \<and>
     (\<forall>h n w. handles (snd (api_ioctlsocket_FIONBIO env h n w)) = handles w \<and>
        handles (snd (api_setsockopt_IPV6_V6ONLY env h n w)) = handles w) \<and>
     (\<forall>h a w. handles (snd (api_bind_in env h a w)) = handles w) \<and>
     (\<forall>h a w. handles (snd (api_bind_in6 env h a w)) = handles w) \<and>
     (\<forall>w. handles (snd (api_WSAStartup env w)) = handles w)"

definition mux_handles :: "UdcSocketMux \<Rightarrow> SOCKET set" where
  "mux_handles mux = us_socket ` set (m_socketIPv4 mux @ m_socketIPv6 mux)"

lemma deleteSocket_handles:
  "handles_documented env handles \<Longrightarrow> INVALID_SOCKET \<notin> handles (os p) \<Longrightarrow>
   handles (os (snd (deleteSocket env h p))) = handles (os p) - {h}"
  by (auto simp: handles_documented_def deleteSocket_def)

lemma localBindIPv4_handles:
  assumes doc: "handles_documented env handles" and inv: "INVALID_SOCKET \<notin> handles (os p)"
    and bind: "localBindIPv4 env port sock p = (b, sock', p')"
  shows "if b then us_socket sock' \<notin> handles (os p) \<and> us_socket sock' \<noteq> INVALID_SOCKET \<and>
      handles (os p') = insert (us_socket sock') (handles (os p))
    else handles (os p') = handles (os p)"
proof -
  obtain h w where h: "api_socket env AF_INET SOCK_DGRAM IPPROTO_UDP (os p) = (h, w)" by fastforce
  with doc have fresh: "h \<notin> handles (os p)"
    "handles w = (if h = INVALID_SOCKET then handles (os p) else insert h (handles (os p)))"
    unfolding handles_documented_def by (force split: prod.splits)+
  show ?thesis
    using bind doc fresh inv
    by (auto simp: localBindIPv4_def createSocket_def h Let_def case_prod_beta setSocketOptionNonBlocking_def
        bindSocketIPv4_def handles_documented_def deleteSocket_def split: if_splits)
qed

lemma localBindIPv6_handles:
  assumes doc: "handles_documented env handles" and inv: "INVALID_SOCKET \<notin> handles (os p)"
    and bind: "localBindIPv6 env port dual sock p = (b, sock', p')"
  shows "if b then us_socket sock' \<notin> handles (os p) \<and> us_socket sock' \<noteq> INVALID_SOCKET \<and>
      handles (os p') = insert (us_socket sock') (handles (os p))
    else handles (os p') = handles (os p)"
proof -
  obtain h w where h: "api_socket env AF_INET6 SOCK_DGRAM IPPROTO_UDP (os p) = (h, w)" by fastforce
  with doc have fresh: "h \<notin> handles (os p)"
    "handles w = (if h = INVALID_SOCKET then handles (os p) else insert h (handles (os p)))"
    unfolding handles_documented_def by (force split: prod.splits)+
  show ?thesis
    using bind doc fresh inv
    by (auto simp: localBindIPv6_def createSocket_def h Let_def case_prod_beta setSocketOptionNonBlocking_def
        setSocketOptionIpv6Only_def bindSocketIPv6_def handles_documented_def deleteSocket_def split: if_splits)
qed

lemma disconnect_all_handles:
  "handles_documented env handles \<Longrightarrow> INVALID_SOCKET \<notin> handles (os p) \<Longrightarrow>
   handles (os (disconnect_all env ss p)) = handles (os p) - us_socket ` set ss"
  by (induction ss arbitrary: p)
    (auto simp: UdcSocket_disconnect_def case_prod_beta Let_def deleteSocket_handles)

text \<open>The server's sockets are the open handles of the process.\<close>

definition sockets_owned :: "('w \<Rightarrow> SOCKET set) \<Rightarrow> 'w UdcServerImpl \<Rightarrow> bool" where
  "sockets_owned handles s \<longleftrightarrow>
     handles (os (process s)) = mux_handles (m_socket s) \<and> INVALID_SOCKET \<notin> mux_handles (m_socket s)"

lemma ctor_handles:
  "handles_documented env handles \<Longrightarrow> UdcSocket_ctor env p = Inr (sock, p') \<Longrightarrow>
   handles (os p') = handles (os p)"
  by (auto simp: UdcSocket_ctor_def WinSockReference_ctor_def handles_documented_def bind_r_def Let_def
      case_prod_beta split: if_splits sum.splits)

lemma mux_tryBind_handles:
  assumes doc: "handles_documented env handles" and inv: "INVALID_SOCKET \<notin> handles (os p)"
    and b: "mux_tryBindIPv4 env port mux p = Inr (b, mux', p') \<or> mux_tryBindIPv6 env port mux p = Inr (b, mux', p')"
  shows "if b then \<exists>h. h \<notin> handles (os p) \<and> h \<noteq> INVALID_SOCKET \<and> mux_handles mux' = insert h (mux_handles mux) \<and>
      handles (os p') = insert h (handles (os p))
    else mux' = mux \<and> handles (os p') = handles (os p)"
proof -
  obtain sock p1 where c: "UdcSocket_ctor env p = Inr (sock, p1)"
    using b by (cases "UdcSocket_ctor env p") (auto simp: mux_tryBindIPv4_def mux_tryBindIPv6_def)
  note same = ctor_handles [OF doc c]
  obtain b4 sock4 p4 where l4: "localBindIPv4 env port sock p1 = (b4, sock4, p4)" by (metis prod_cases3)
  obtain b6 sock6 p6 where l6: "localBindIPv6 env port False sock p1 = (b6, sock6, p6)" by (metis prod_cases3)
  note h4 = localBindIPv4_handles [OF doc _ l4, unfolded same, OF inv]
    and h6 = localBindIPv6_handles [OF doc _ l6, unfolded same, OF inv]
  from b show ?thesis
  proof
    assume "mux_tryBindIPv4 env port mux p = Inr (b, mux', p')"
    then have "b = b4" "p' = p4"
      "mux' = (if b4 then mux\<lparr>m_socketIPv4 := m_socketIPv4 mux @ [sock4]\<rparr> else mux)"
      by (simp_all add: mux_tryBindIPv4_def c l4 split: if_splits)
    with h4 show ?thesis
      by (cases b4) (simp_all add: mux_handles_def image_Un insert_commute exI [of _ "us_socket sock4"])
  next
    assume "mux_tryBindIPv6 env port mux p = Inr (b, mux', p')"
    then have "b = b6" "p' = p6"
      "mux' = (if b6 then mux\<lparr>m_socketIPv6 := m_socketIPv6 mux @ [sock6]\<rparr> else mux)"
      by (simp_all add: mux_tryBindIPv6_def c l6 split: if_splits)
    with h6 show ?thesis
      by (cases b6) (simp_all add: mux_handles_def image_Un insert_commute exI [of _ "us_socket sock6"])
  qed
qed

lemma delete_server_handles:
  "handles_documented env handles \<Longrightarrow> sockets_owned handles s \<Longrightarrow> handles (os (udcDeleteServer env s)) = {}"
  by (simp add: udcDeleteServer_def UdcSocketMux_dtor_def mux_disconnect_def Let_def disconnect_all_handles sockets_owned_def
      mux_handles_def image_Un) blast

text \<open>C26. No socket is leaked and none is used closed: when the open handles are exactly the server's sockets,
  they are so again after every attempt to bind, which on failure has added no socket and
  on success a new one, and deleting the server closes all of them.\<close>

theorem socket_handles_owned:
  assumes "handles_documented env handles" and "sockets_owned handles s"
    and "udcTryBindIPv4 env s port = Inr (b, s') \<or> udcTryBindIPv6 env s port = Inr (b, s')"
  shows "sockets_owned handles s' \<and>
    (if b then \<exists>h. h \<notin> mux_handles (m_socket s) \<and> mux_handles (m_socket s') = insert h (mux_handles (m_socket s))
     else m_socket s' = m_socket s) \<and>
    handles (os (udcDeleteServer env s')) = {}"
proof -
  have "mux_tryBindIPv4 env port (m_socket s) (process s) = Inr (b, m_socket s', process s') \<or>
    mux_tryBindIPv6 env port (m_socket s) (process s) = Inr (b, m_socket s', process s')"
    using assms(3) by (auto simp: udcTryBindIPv4_def udcTryBindIPv6_def tryBindIPv4_def tryBindIPv6_def bind_r_Inr_iff)
  note h = mux_tryBind_handles [OF assms(1) _ this]
  have own: "handles (os (process s)) = mux_handles (m_socket s)" "INVALID_SOCKET \<notin> handles (os (process s))"
    using assms(2) by (auto simp: sockets_owned_def)
  have "sockets_owned handles s'"
    using h own by (auto simp: sockets_owned_def split: if_splits)
  with h own delete_server_handles [OF assms(1), of s'] show ?thesis by (auto split: if_splits)
qed

definition sim_handles :: "sim_world \<Rightarrow> SOCKET set" where
  "sim_handles w = set (sw_open w) - {INVALID_SOCKET}"

lemma sim_handles_documented: "handles_documented sim_env sim_handles"
  by (auto simp: handles_documented_def sim_handles_def sim_env_def)

theorem socket_handles_owned_witness:
  "\<exists>s'. udcTryBindIPv6 sim_env (sim_server 60) 80 = Inr (True, s') \<and> sockets_owned sim_handles s' \<and>
    (if True then \<exists>h. h \<notin> mux_handles (m_socket (sim_server 60)) \<and>
       mux_handles (m_socket s') = insert h (mux_handles (m_socket (sim_server 60)))
     else m_socket s' = m_socket (sim_server 60)) \<and>
    sim_handles (os (udcDeleteServer sim_env s')) = {}"
proof -
  have own: "sockets_owned sim_handles (sim_server 60)"
    by (simp add: sockets_owned_def sim_handles_def sim_server_def initial_server_def sim_process_def mux_handles_def
        sim_mux_def INVALID_SOCKET_def)
  have "\<exists>s'. udcTryBindIPv6 sim_env (sim_server 60) 80 = Inr (True, s')"
    by (simp add: udcTryBindIPv6_def tryBindIPv6_def mux_tryBindIPv6_def UdcSocket_ctor_def sim_server_def
        initial_server_def sim_process_def localBindIPv6_def createSocket_def sim_env_def INVALID_SOCKET_def
        setSocketOptionNonBlocking_def bindSocketIPv6_def)
  then obtain s' where b: "udcTryBindIPv6 sim_env (sim_server 60) 80 = Inr (True, s')" by blast
  from socket_handles_owned [OF sim_handles_documented own disjI2, OF b] b show ?thesis by blast
qed

section \<open>Connecting by name\<close>

definition usable :: "int \<Rightarrow> addrinfo \<Rightarrow> bool" where
  "usable family a \<longleftrightarrow> ai_socktype a = SOCK_DGRAM \<and> ai_protocol a = IPPROTO_UDP \<and> ai_family a = family"

lemma first_find:
  "first_IPv6 env as = map_option (\<lambda>a. (convertInaddrToIPv6 (sin6_addr (ai_addr_in6 a)),
     api_ntohs env (sin6_port (ai_addr_in6 a)))) (List.find (usable AF_INET6) as)"
  "first_IPv4 env as = map_option (\<lambda>a. (convertInaddrToIPv4 (sin_addr (ai_addr_in a)),
     api_ntohs env (sin_port (ai_addr_in a)))) (List.find (usable AF_INET) as)"
  by (induction as) (simp_all add: usable_def)

text \<open>What a resolver call found for a family: the first entry that is a UDP address of this family.\<close>

definition resolved :: "int \<Rightarrow> int \<times> addrinfo list \<Rightarrow> addrinfo option" where
  "resolved family result = (if fst result = 0 then List.find (usable family) (snd result) else None)"

text \<open>C29. Connecting by name is connecting to the first UDP address over IPv6 that the resolver gives for the
  name, and only when there is none to the first one over IPv4; without either nothing is queued.\<close>

theorem connect_by_name:
  assumes "winSockReference (process s)"
    and "api_getaddrinfo env name service AF_INET6 SOCK_DGRAM IPPROTO_UDP (os (process s)) = (found6, w6)"
    and "api_getaddrinfo env name service AF_INET SOCK_DGRAM IPPROTO_UDP w6 = (found4, w4)"
  shows "udcTryConnect env s name service timeout =
    (case (resolved AF_INET6 found6, resolved AF_INET found4) of
       (Some a, _) \<Rightarrow> udcTryConnectIPv6 env (Some (s\<lparr>process := (process s)\<lparr>os := w6\<rparr>\<rparr>))
         (convertInaddrToIPv6 (sin6_addr (ai_addr_in6 a))) (api_ntohs env (sin6_port (ai_addr_in6 a))) timeout
     | (None, Some a) \<Rightarrow> udcTryConnectIPv4 env (Some (s\<lparr>process := (process s)\<lparr>os := w4\<rparr>\<rparr>))
         (convertInaddrToIPv4 (sin_addr (ai_addr_in a))) (api_ntohs env (sin_port (ai_addr_in a))) timeout
     | (None, None) \<Rightarrow> Inr (None, Some (s\<lparr>process := (process s)\<lparr>os := w4\<rparr>\<rparr>)))"
  using assms
  by (cases found6; cases found4)
    (simp add: udcTryConnect_def stringToIPv6_def stringToIPv4_def ensure_WinSock_def first_find resolved_def
      split: option.split)

text \<open>A resolver that knows one IPv4 address.\<close>

definition sim_dns :: "sim_world platform_api" where
  "sim_dns = sim_env\<lparr>api_getaddrinfo := \<lambda>_ _ family _ _ w.
     (if family = AF_INET
      then (0, [\<lparr>ai_family = AF_INET, ai_socktype = SOCK_DGRAM, ai_protocol = IPPROTO_UDP,
                 ai_addr_in = createAddressIPv4 sim_env (IPv4 10 0 0 1) 80, ai_addr_in6 = nowhere6\<rparr>])
      else (11001, []), w)\<rparr>"

theorem connect_by_name_witness:
  "udcTryConnect sim_dns (sim_server 60) ''host'' ''80'' 500 =
   udcTryConnectIPv4 sim_dns (Some (sim_server 60)) (IPv4 10 0 0 1) 80 500"
proof -
  have "winSockReference (process (sim_server 60))"
    by (simp add: sim_server_def initial_server_def sim_process_def)
  note conn = connect_by_name [OF this, of sim_dns "''host''" "''80''", OF surjective_pairing surjective_pairing, of 500]
  have "(sim_server 60)\<lparr>process := (process (sim_server 60))\<lparr>os := os (process (sim_server 60))\<rparr>\<rparr> = sim_server 60"
    by simp
  with conn show ?thesis
    by (simp add: resolved_def usable_def sim_dns_def AF_INET_def AF_INET6_def createAddressIPv4_def sim_env_def)
qed

end
