(* ===== verification/Spec2Isabelle.thy ===== *)
theory Spec2Isabelle
  imports Connection_Properties Integrity Exchanges Platform_Properties
begin

text \<open>
  \<^bold>\<open>udp-connect.\<close> A C++ library for connections, pings and reliable messages over UDP. A program creates
  a server over a message buffer, binds ports, asks it to connect to other servers, sends
  unreliable or reliable messages, and calls \<open>udcProcessEvents\<close> until it returns no event. This development
  models the library (\<open>include/\<close>, \<open>src/\<close>, \<open>platform/\<close>) and proves what makes it correct.

  \<^bold>\<open>How the parts interact.\<close> The C functions of \<open>udp_connect.cpp\<close> call the server (\<open>UdcServer.cpp\<close>). The
  server owns the clients (\<open>UdcClient.cpp\<close>), files them by id and by address
  (\<open>UdcAddressHash.h\<close>), composes and reads messages in one buffer (\<open>UdcMessage.cpp\<close>), reports through one event
  (\<open>UdcEvent.h\<close>) and sends and receives through the multiplexer (\<open>UdcSocketMux.cpp\<close>), which polls the
  sockets (\<open>UdcSocket.cpp\<close>, \<open>UdcSocketHelper.cpp\<close>) and writes the packet log (\<open>UdcPacketLogger.cpp\<close>).

  \<^bold>\<open>The model, one theory per component.\<close>
  \<^item> \<open>Prelude\<close>: machine words, the result type \<open>res\<close> (a fault or a value; the faults are
    memory errors, failing assertions, the one exception and missing fuel), \<open>memcpy\<close>, byte order.
  \<^item> \<open>Message\<close>: ids, size constants and serial functions, each failing where the C function would leave a buffer.
  \<^item> \<open>Address\<close>: addresses with their union, hash and comparison, and the address map with its interface \<open>keyed_map\<close>.
  \<^item> \<open>Client\<close>: every member function of \<open>UdcClient\<close>; the timers are interpretations of \<open>elapsed_timer\<close>.
  \<^item> \<open>Logger\<close>, \<open>Platform\<close>, \<open>SocketMux\<close>, \<open>Event\<close>: the layers below the server. The WinSock calls are fields of the
    parameter \<open>platform_api\<close> over an abstract operating system; so are the clock, the log file system, the
    iteration order of \<open>unordered_map\<close> and the values of two uninitialised variables.
  \<^item> \<open>Server\<close>: the state and every member function of \<open>UdcServerImpl\<close>. Clients shared through
    \<open>shared_ptr\<close> are objects of a heap. A function that returns an event pointer returns an option.
  \<^item> \<open>Api\<close>: the exported functions.

  \<^bold>\<open>What is proved.\<close>
  \<^item> \<open>Server_Safety\<close>, \<open>Receive_Loop\<close>, \<open>Lifecycle\<close>: the invariant \<open>server_inv\<close> (buffer bounds, no dangling client, ids and
    well-formed clients), kept by every operation; no operation faults; the receive loop ends; the reachable states.
  \<^item> \<open>Protocol\<close>: messages as a datatype with their encoding, the receive checks as a decoder, and the effect of
    every handler and update in terms of messages sent and state changed.
  \<^item> \<open>Reliable\<close>: reliable delivery is an alternating-bit protocol. The interface \<open>alternating_bit\<close> is interpreted
    on the code's client and address map; \<open>link_step\<close> composes the reliable parts of two servers with a network that
    loses and repeats messages, and \<open>link_inv\<close> is its invariant.
  \<^item> \<open>Traffic\<close>: the history of the datagrams a server exchanges with its operating system. \<open>call\<close> and \<open>perform\<close> are
    the calls of the interface; \<open>perform_actions\<close> takes every call apart into actions (\<open>action\<close>): one datagram received and
    handled, one part of one client's update, one request of the application.
  \<^item> \<open>Network\<close>: channels of bytes and the messages in them, and the frame of every action: the clients it touches, the
    datagram it sends, the reliable payload the application reads, and that its event is well formed.
  \<^item> \<open>Filing\<close>: how clients are filed in every reachable state.
  \<^item> \<open>Connections\<close>: the contract of the connections as an automaton, one phase per end point id (\<open>follows\<close>), the
    phases of a server's state (\<open>phases\<close>), and what every action and call does to them (\<open>perform_answered\<close>).
    \<open>Connection_Properties\<close>: for every sequence of calls on a new server (\<open>run_calls\<close>) its answers and events are a run
    of the automaton, and what this says about the events of one id.
  \<^item> \<open>Integrity\<close>: every message the application is told of was received in that call with that payload.
    \<open>Exchanges\<close>: request and handshake, ping and pong, composed of the handlers of both servers.
  \<^item> \<open>Delivery\<close>: two servers whose applications make any calls, and the bytes between them (\<open>net_step\<close>). Every
    call, on either side, is a run of the link (\<open>net_step_link\<close>).
  \<^item> \<open>Sim_Net\<close>, \<open>Sim_Run\<close>: a concrete platform, on which every hypothesis is shown to hold, and a run of two servers on
    it that delivers and acknowledges a reliable message.
  \<^item> \<open>Server_Properties\<close>, \<open>Platform_Properties\<close>: the functional behaviour of each operation on every branch.
  \<^item> \<open>Divergences\<close>: where the code does something else than its comments or its header say.
  \<^item> This theory: safety of all calls in all reachable states, termination, uniqueness of ids, filing, valid events,
    exactly-once delivery for whole calls, progress of the link, and the handshake that starts delivery.

  \<^bold>\<open>Bounds and hypotheses.\<close> The receive loop takes fuel; fuel beyond the number of datagrams still to come is enough
  and more changes nothing (\<open>process_events_terminates\<close>). That this number is finite is a hypothesis on the
  environment, as are the documented results of \<open>recvfrom\<close> (\<open>recvfrom_documented\<close>, and
  \<open>recvfrom_rejects_negative\<close> for the length the code passes after a truncated datagram), of
  \<open>htons\<close> and \<open>ntohs\<close>, of the calls that open and close sockets (\<open>handles_documented\<close>), and the
  iteration of a map visiting each key once. The history of datagrams (\<open>traffic_documented\<close>) is a function of the
  operating system's state to which \<open>sendto\<close> adds its datagram or nothing and a successful \<open>recvfrom\<close> what it
  returns, and which no other call changes; a network step relates the two histories by channels that lose,
  repeat and delay (\<open>carries\<close>) but do not reorder, as the alternating bit requires (see
  \<open>reordering_delivers_again\<close>). The buffer handed to \<open>udcCreateServer\<close> is as long as its size says and
  shorter than \<open>2\<^sup>3\<^sup>1\<close>. Ids are unique, and the contract of the connections holds, while fewer than
  \<open>2\<^sup>3\<^sup>2\<close> connections have been attempted (the next one included). Exactly-once delivery is about an end point that is not closed, to a receiver to which no second one is opened, while no reset is due: with
  resets it fails, see \<open>reset_delivers_again\<close> and \<open>reset_loses_messages\<close>.

  \<^bold>\<open>Not modelled.\<close> The C# wrapper, the test programs and the build files; the memory returned by \<open>getaddrinfo\<close>, which the code
  does not free; time as anything but a whole number of milliseconds (\<open>std::chrono\<close> counts are 64 bits wide and do not wrap
  in practice); calls with a null server where the code does not test for it.
\<close>

section \<open>Safety and termination of the library\<close>



text \<open>C10. In every reachable state (with fewer than \<open>2\<^sup>3\<^sup>2\<close> connection attempts so far) different client
  objects have different end point ids, the ids are the ones handed out since the server was
  created, and a lookup by id gives the client that carries this id.\<close>

theorem end_point_ids_unique:
  assumes "platform_documented env backlog" and "server_reachable env backlog n s" and "n < 2 ^ 32"
  shows "(\<forall>r c r' c'. heap s r = Some c \<longrightarrow> heap s r' = Some c' \<longrightarrow> m_id c = m_id c' \<longrightarrow> r = r') \<and>
    (\<forall>r c. heap s r = Some c \<longrightarrow> 0 < unat (m_id c) \<and> unat (m_id c) \<le> n) \<and>
    m_idCounter s = of_nat n \<and>
    (\<forall>i r. tryGetClientById i s = Some r \<longrightarrow> (\<exists>c. heap s r = Some c \<and> m_id c = i))"
proof (intro conjI allI impI)
  have inv: "server_inv s" and ids: "ids_issued n s" using reachable_inv [OF assms(1,2)] by simp_all
  then have obj: "\<And>r i. object_ids s r = Some i \<Longrightarrow> 0 < unat i \<and> unat i \<le> n"
    and inj: "inj_on (object_ids s) (dom (object_ids s))" and cnt: "m_idCounter s = of_nat n"
    using assms(3) by (auto simp: ids_issued_def)
  have oid: "heap s r = Some c \<Longrightarrow> object_ids s r = Some (m_id c)" for r c
    by (simp add: object_ids_def)
  show "r = r'" if "heap s r = Some c" "heap s r' = Some c'" "m_id c = m_id c'" for r c r' c'
    using inj oid [OF that(1)] oid [OF that(2)] that(3) by (auto simp: inj_on_def dom_def)
  show "0 < unat (m_id c)" "unat (m_id c) \<le> n" if "heap s r = Some c" for r c
    using obj [OF oid [OF that]] by simp_all
  show "m_idCounter s = of_nat n" by (rule cnt)
  show "\<exists>c. heap s r = Some c \<and> m_id c = i" if "tryGetClientById i s = Some r" for i r
    using server_inv_client(1) [OF inv, of i r] that by (auto simp: tryGetClientById_def)
qed

theorem end_point_ids_unique_witness:
  "m_idCounter sim_twice = of_nat 2 \<and>
   0 < unat (m_id (new_client 2 sim_peer 1000 0)) \<and> unat (m_id (new_client 2 sim_peer 1000 0)) \<le> 2 \<and>
   m_id (new_client 1 sim_peer 500 0) \<noteq> m_id (new_client 2 sim_peer 1000 0)"
proof -
  note ids = end_point_ids_unique [OF sim_documented sim_twice_reachable, simplified]
  have "heap sim_twice 0 = Some (new_client 1 sim_peer 500 0)" "heap sim_twice 1 = Some (new_client 2 sim_peer 1000 0)"
    by (simp_all add: sim_twice_heap)
  then show ?thesis using ids by (metis of_nat_numeral zero_neq_one)
qed



text \<open>C11. In every reachable state a client object waits at most once in the pending queue or is connected, never both, and
  is filed under at most one end point id and one end point: no two lookups with different keys give the
  same client.\<close>

theorem clients_filed_once:
  assumes "platform_documented env backlog" and "traffic_documented env traffic" and "server_reachable env backlog n s"
  shows "distinct (m_pendingClients s) \<and>
    (\<forall>r \<in> set (m_pendingClients s). (\<forall>i. tryGetClientById i s \<noteq> Some r) \<and> (\<forall>a. tryGetClientByAddress a s \<noteq> Some r)) \<and>
    (\<forall>i j r. tryGetClientById i s = Some r \<longrightarrow> tryGetClientById j s = Some r \<longrightarrow> i = j) \<and>
    (\<forall>a b r. tryGetClientByAddress a s = Some r \<longrightarrow> tryGetClientByAddress b s = Some r \<longrightarrow>
       end_point_of a = end_point_of b)"
proof (intro conjI ballI allI impI)
  from reachable_filed_once [OF assms] have once: "filed_once s" .
  show "distinct (m_pendingClients s)" using once by (simp add: filed_once_def)
  show "tryGetClientById i s \<noteq> Some r" "tryGetClientByAddress a s \<noteq> Some r" if "r \<in> set (m_pendingClients s)" for r i a
    using filed_onceD(1,2) [OF once that] by (simp_all add: tryGetClientById_def tryGetClientByAddress_def find_map_of_nodes)
  show "i = j" if "tryGetClientById i s = Some r" "tryGetClientById j s = Some r" for i j r
    using filed_onceD(3) [OF once] that by (simp add: tryGetClientById_def)
  show "end_point_of a = end_point_of b" if "tryGetClientByAddress a s = Some r" "tryGetClientByAddress b s = Some r" for a b r
    using filed_onceD(4) [OF once] that by (simp add: tryGetClientByAddress_def find_map_of_nodes)
qed

theorem clients_filed_once_witness:
  "distinct (m_pendingClients sim_twice) \<and> tryGetClientById 1 sim_twice \<noteq> Some 0 \<and>
    tryGetClientByAddress sim_peer sim_twice \<noteq> Some 1 \<and> set (m_pendingClients sim_twice) = {0, 1}"
proof -
  have p: "m_pendingClients sim_twice = [0, 1]"
    by (simp add: sim_twice_def sim_start_def initial_server_def with_pending_def)
  from clients_filed_once [OF sim_documented sim_traffic sim_twice_reachable] show ?thesis by (auto simp: p)
qed

text \<open>C12. Events are well formed: an event reported by \<open>udcProcessEvents\<close> in a reachable state is a connection event for an existing
  client object with the id it names (after a success or a loss the one filed under that id, connected or not
  as the event says), or a message event that locates its payload behind one of the two message headers and
  inside the buffer, so the application may read it.\<close>

theorem reported_events_valid:
  assumes "platform_documented env backlog" and "traffic_documented env traffic"
    and "server_reachable env backlog n s" and "udcProcessEvents fuel env s = Inr (Some e, s')"
  shows "event_ok s' e"
proof -
  have inv: "server_inv s" using reachable_inv [OF assms(1,3)] by simp
  have "polling_documented env" using assms(1) by (simp add: platform_documented_def polling_documented_def)
  from process_events_actions [OF inv this assms(2,4), of "{}"] show ?thesis by (rule actions_event_ok [OF _ inv refl])
qed

text \<open>The server with two connection attempts, later: the first has timed out.\<close>

definition sim_late :: "sim_world UdcServerImpl" where
  "sim_late = sim_twice\<lparr>process := sim_process 60\<rparr>"

lemma sim_late_event: "\<exists>e s'. udcProcessEvents 1 sim_env sim_late = Inr (Some e, s') \<and>
    view_of e = ConnectionEvent UDC_EVENT_CONNECTION_TIMEOUT 1"
  by (simp add: udcProcessEvents_def current_time_def sim_late_def sim_twice_def with_pending_def sim_start_def
      initial_server_def sim_process_def sim_calls updatePendingClients_def tryGetFirstPendingClient_def deref_def
      new_client_def startConnecting_def UdcClient_ctor_def needsConnectionTimeoutEvent_def emit_def)

theorem reported_events_valid_witness:
  "\<exists>e s'. udcProcessEvents 1 sim_env sim_late = Inr (Some e, s') \<and>
     view_of e = ConnectionEvent UDC_EVENT_CONNECTION_TIMEOUT 1 \<and> event_ok s' e"
proof -
  have reach: "server_reachable sim_env sim_backlog 2 sim_late"
    unfolding sim_late_def by (rule server_reachable.world [OF sim_twice_reachable])
  from sim_late_event obtain e s' where run: "udcProcessEvents 1 sim_env sim_late = Inr (Some e, s')"
    "view_of e = ConnectionEvent UDC_EVENT_CONNECTION_TIMEOUT 1" by blast
  from reported_events_valid [OF sim_documented sim_traffic reach run(1)] run show ?thesis by blast
qed

section \<open>Reliable messages over an unreliable network\<close>


text \<open>C3. Whole calls refine the link: whatever calls two servers' applications make, in whatever order, whatever other hosts
  send and however the network loses and repeats datagrams, as long as the sender's application
  neither closes the end point nor opens a second one to the receiver and no reset is due when it processes
  events, the system of calls and bytes runs the link of two alternating-bit parties, and both servers
  keep their invariant and the sender the filing of the end point.\<close>

theorem calls_refine_link:
  assumes "parties_documented K" and "net_reachable K N"
  shows "link_reachable (p_envS K) (p_envR K) (p_ref K) (p_id K) (p_addrS K) (p_addrR K)
      (link_of K (n_sender N) (n_receiver N) (n_fwd N) (n_back N) (n_pushed N) (n_delivered N)) \<and>
    server_inv (n_sender N) \<and> server_inv (n_receiver N) \<and> filed K (n_sender N)"
  using net_reachable_link [OF assms] by (simp add: net_ok_def)

theorem calls_refine_link_witness:
  "\<exists>N :: sim_world net. n_delivered N = [[8]] \<and> link_reachable sim_env sim_env 0 1 sim_origin sim_peer
      (link_of sim_parties (n_sender N) (n_receiver N) (n_fwd N) (n_back N) (n_pushed N) (n_delivered N)) \<and>
    server_inv (n_sender N) \<and> server_inv (n_receiver N) \<and> filed sim_parties (n_sender N)"
proof -
  have K: "p_addrS sim_parties = sim_origin" "p_addrR sim_parties = sim_peer" by (simp_all add: sim_parties_def)
  from sim_net_done obtain N where "net_reachable sim_parties N" "n_delivered N = [[8]]" by blast
  with calls_refine_link [OF sim_parties_documented, of N] show ?thesis
    unfolding K sim_fields_of_parties by blast
qed









lemma new_client_retried:
  "m_id (foldl (\<lambda>c t. retryConnecting t c) (new_client i address timeout start) ts) = i \<and>
   m_reliableState (foldl (\<lambda>c t. retryConnecting t c) (new_client i address timeout start) ts) = 0 \<and>
   m_reliableMessages (foldl (\<lambda>c t. retryConnecting t c) (new_client i address timeout start) ts) = [] \<and>
   m_outgoingAddress (foldl (\<lambda>c t. retryConnecting t c) (new_client i address timeout start) ts) = address \<and>
   m_reliableTimeoutPeriod (foldl (\<lambda>c t. retryConnecting t c) (new_client i address timeout start) ts) =
     min 500 (int (unat timeout) div 10)"
  by (induction ts rule: rev_induct)
    (simp_all add: new_client_def startConnecting_def UdcClient_ctor_def retryConnecting_def)

text \<open>C6. Connecting starts such a system: when the handshake for a client created by \<open>udcTryConnect\<close> with a timeout of
  at least 10 (whose request may have been sent any number of times) completes the connection, in a state as every call leaves it
  (C2, C7, C8) in which no other client of the sender is for the same end point, the sender and its peer, which has not yet
  had a reliable message from the sender's address, form a fresh system, whatever other datagrams are
  under way: exactly-once delivery (C1) holds for the new end point from then on.\<close>

theorem handshake_starts_delivery:
  assumes "received n s = Some (Handshake (p_id K))" and "unat n \<le> length (m_messageBuffer s)" and inv: "server_inv s"
    and "m_pendingClients s = p_ref K # rs" and "tryGetClientByAddress (p_addrR K) s = None"
    and "heap s (p_ref K) = Some (foldl (\<lambda>c t. retryConnecting t c) (new_client (p_id K) address timeout start) attempts)"
    and "10 \<le> timeout" and "end_point_of address = end_point_of (p_addrR K)"
    and once: "filed_once s" and ids: "unique_ids s"
    and alone: "\<forall>r \<in> set rs \<union> ran (m_clientsById s). \<forall>i e. statics s r = Some (i, e) \<longrightarrow> e \<noteq> end_point_of (p_addrR K)"
    and "server_inv peer" and "m_packetSignature s = p_signature K" and "m_packetSignature peer = p_signature K"
    and "UdcAddressMap_find (m_reliableStates peer) (p_addrS K) = None"
    and "messages_of is_reliable (p_signature K) F = []" and "without is_reset (p_signature K) F"
    and "messages_of is_ack (p_signature K) B = []"
  shows "\<exists>e s'. handle_message env time (p_addrR K) n s = Inr (Some e, s') \<and>
    view_of e = ConnectionEvent UDC_EVENT_CONNECTION_SUCCESS (p_id K) \<and>
    net_fresh K \<lparr>n_sender = s', n_receiver = peer, n_fwd = F, n_back = B, n_pushed = [], n_delivered = []\<rparr>"
proof -
  let ?c = "foldl (\<lambda>c t. retryConnecting t c) (new_client (p_id K) address timeout start) attempts"
  note c = new_client_retried [of "p_id K" address timeout start attempts]
  have "10 \<le> uint timeout" using assms(7) by (simp add: word_le_def)
  then have "0 < uint timeout div 10" by (simp add: pos_imp_zdiv_pos_iff)
  then have period: "0 < m_reliableTimeoutPeriod ?c" using c by simp
  let ?c' = "receiveConnectionHandshake time ?c"
  have c': "m_id ?c' = p_id K" "m_reliableState ?c' = 0" "m_reliableMessages ?c' = []" "m_outgoingAddress ?c' = address"
    "0 < m_reliableTimeoutPeriod ?c'"
    using c period by (simp_all add: receiveConnectionHandshake_def)
  from handle_handshake [OF assms(1,2,4,6), of env time "p_addrR K"] c assms(5) obtain e s' where
    h: "handle_message env time (p_addrR K) n s = Inr (Some e, s')"
    and e: "e = connection_event UDC_EVENT_CONNECTION_SUCCESS (p_id K) (m_eventBuffer s)"
    and s': "s' = s\<lparr>heap := (heap s)(p_ref K \<mapsto> ?c'), m_clientsById := (m_clientsById s)(p_id K \<mapsto> p_ref K),
        m_clientsByAddress := UdcAddressMap_insert (m_clientsByAddress s) (p_addrR K) (p_ref K),
        m_pendingClients := rs, m_eventBuffer := e\<rparr>"
    by (auto simp: Let_def)
  have inv': "server_inv s'" "m_packetSignature s' = m_packetSignature s"
    using handle_message_safe [OF inv, of env time "p_addrR K" n] assms(2) h by (simp_all add: kept_def)
  have other: "statics s' r = (if r = p_ref K then Some (p_id K, end_point_of address) else statics s r)" for r
    using c' by (simp add: s' statics_def)
  have new: "p_ref K \<notin> set rs \<union> ran (m_clientsById s) \<union> ran (map_of_nodes (m_clientsByAddress s))"
    using once assms(4) by (auto simp: filed_once_def)
  have own: "object_ids s (p_ref K) = Some (p_id K)" using c assms(6) by (simp add: object_ids_def)
  have "i \<noteq> p_id K \<and> e \<noteq> end_point_of (p_addrR K)" if "r \<in> set rs \<union> ran (m_clientsById s)" "statics s r = Some (i, e)" for r i e
  proof -
    have "object_ids s r = Some i" using that(2) by (auto simp: statics_def object_ids_def)
    with unique_idsD [OF ids own, of r] new that(1) alone that show ?thesis by blast
  qed
  then have "r \<in> set rs \<Longrightarrow> statics s r = Some (i, e) \<Longrightarrow> i \<noteq> p_id K \<and> e \<noteq> end_point_of (p_addrR K)"
    and "m_clientsById s j = Some r \<Longrightarrow> statics s r = Some (i, e) \<Longrightarrow> i \<noteq> p_id K \<and> e \<noteq> end_point_of (p_addrR K)"
    for r i e j by (auto simp: ran_def)
  then have "filed K s'"
    using assms(8) new unfolding filed_def other
    by (auto simp: s' tryGetClientByAddress_def address_map.find_insert map_of_nodes_insert ran_def split: if_splits) blast+
  then have "net_fresh K \<lparr>n_sender = s', n_receiver = peer, n_fwd = F, n_back = B, n_pushed = [], n_delivered = []\<rparr>"
    using inv' c' assms(12-18) by (simp add: net_fresh_def net_ok_def synchronised_def) (simp add: s')
  with h show ?thesis by (auto simp: e connection_event_def)
qed

theorem handshake_starts_delivery_witness:
  "\<exists>e s'. handle_message sim_env 60 sim_peer (sim_size (Handshake 1)) (sim_holding (Handshake 1) (sim_pending 50))
      = Inr (Some e, s') \<and>
    view_of e = ConnectionEvent UDC_EVENT_CONNECTION_SUCCESS 1 \<and>
    net_fresh sim_parties \<lparr>n_sender = s', n_receiver = sim_server 60,
      n_fwd = [encode sim_signature (Request 1), encode sim_signature (Request 1)], n_back = [encode sim_signature (Handshake 1)],
      n_pushed = [], n_delivered = []\<rparr>"
proof -
  note K = sim_fields_of_parties
  have a: "p_addrR sim_parties = sim_peer" "p_addrS sim_parties = sim_origin" by (simp_all add: sim_parties_def)
  have inv: "server_inv (sim_holding (Handshake 1) (sim_pending 50))"
    using server_inv_prefix [OF sim_pending_inv, of "write_at 0 (encode sim_signature (Handshake 1)) (replicate 16 0)" 50]
    by (simp add: sim_holding_def length_encode) (simp add: sim_pending_def with_pending_def sim_server_def initial_server_def)
  show ?thesis
    by (rule handshake_starts_delivery [where K = sim_parties and attempts = "[]" and rs = "[]" and address = sim_peer and timeout = 1000 and start = 50, unfolded a K])
      (simp_all add: inv sim_holding_received tryGetClientByAddress_def sim_server_inv,
       simp_all add: sim_pending_def with_pending_def sim_server_def initial_server_def map_of_nodes_def
         filed_once_def unique_ids_def object_ids_def sim_holding_def inj_on_def)
qed

end
